theory Spec2Isabelle
  imports Complex_Main
begin

section \<open>Outcomes of a call\<close>

text \<open>
  The exceptions of \<^verbatim>\<open>lsst::pex::exceptions\<close> that the constructor throws carry their
  message: the format string as the source writes it, and the arguments handed to
  \<^verbatim>\<open>boost::format\<close>. \<open>AssertionFailed\<close> stands for a failed \<^verbatim>\<open>assert\<close> of the source
  and for a failed precondition of an Eigen or shared-pointer accessor (an index out of
  range, a negative dimension, the maximum of an empty vector, a null pointer); it carries
  the asserted expression. The values of the forward fit are modelled as reals, without
  rounding; \<open>NonFinite\<close> marks a division by zero there: the IEEE result is an infinity or
  a NaN and the source goes on with it, which the reals cannot follow, so the model of the
  forward fit says nothing about such a run. The reverse fit is modelled on the IEEE values
  below, and a division by zero there goes on as in the source.
\<close>

datatype failure =
    OutOfRangeError string "int list"
  | LengthError string
  | AssertionFailed string
  | NonFinite

definition bindE :: "failure + 'a \<Rightarrow> ('a \<Rightarrow> failure + 'b) \<Rightarrow> failure + 'b" where
  "bindE m f = (case m of Inl e \<Rightarrow> Inl e | Inr x \<Rightarrow> f x)"

text \<open>
  \<^verbatim>\<open>for (int i = first; i < n; ++i) body\<close>, the loop variable an \<^verbatim>\<open>int\<close>, the body
  working on the state \<open>s\<close>; a failure in the body leaves the loop.
\<close>

function forLoop :: "int \<Rightarrow> int \<Rightarrow> (int \<Rightarrow> 's \<Rightarrow> failure + 's) \<Rightarrow> 's \<Rightarrow> failure + 's" where
  "forLoop i n body s =
     (if i < n
      then (case body i s of Inl e \<Rightarrow> Inl e | Inr s' \<Rightarrow> forLoop (i + 1) n body s')
      else Inr s)"
  by pat_completeness auto
termination
  by (relation "measure (\<lambda>(i, n, body, s). nat (n - i))") auto

declare forLoop.simps [simp del]

section \<open>The values of a double in the reverse fit\<close>

text \<open>
  A \<^verbatim>\<open>double\<close> of the reverse fit is a finite value, one of the two infinities or a NaN.
  The arithmetic of the finite values is that of the reals (no rounding and no overflow);
  a division by zero and the operations on an infinity or a NaN are those of IEEE 754. The
  sign of a zero is not kept: a zero divisor counts as \<open>+0\<close>, which the divisors of the
  reverse fit are (an \<^verbatim>\<open>int\<close> converted to \<^verbatim>\<open>double\<close>, an absolute value and its powers).
  A comparison with a NaN is false.
\<close>

datatype double = Finite real | PosInf | NegInf | NaN

text \<open>The infinity of the sign of \<open>a\<close>; no sign gives a NaN (\<open>0 * inf\<close>, \<open>0 / 0\<close>).\<close>

definition signedInf :: "real \<Rightarrow> double" where
  "signedInf a = (if 0 < a then PosInf else if a < 0 then NegInf else NaN)"

instantiation double :: "{zero, one, plus, uminus, minus, times, inverse, abs, ord, power}"
begin

definition zero_double :: double where
  "zero_double = Finite 0"

definition one_double :: double where
  "one_double = Finite 1"

definition uminus_double :: "double \<Rightarrow> double" where
  "uminus_double x = (case x of Finite a \<Rightarrow> Finite (- a) | PosInf \<Rightarrow> NegInf | NegInf \<Rightarrow> PosInf | NaN \<Rightarrow> NaN)"

definition plus_double :: "double \<Rightarrow> double \<Rightarrow> double" where
  "plus_double x y =
     (case x of
        NaN \<Rightarrow> NaN
      | Finite a \<Rightarrow> (case y of Finite b \<Rightarrow> Finite (a + b) | _ \<Rightarrow> y)
      | PosInf \<Rightarrow> (case y of NaN \<Rightarrow> NaN | NegInf \<Rightarrow> NaN | _ \<Rightarrow> PosInf)
      | NegInf \<Rightarrow> (case y of NaN \<Rightarrow> NaN | PosInf \<Rightarrow> NaN | _ \<Rightarrow> NegInf))"

definition minus_double :: "double \<Rightarrow> double \<Rightarrow> double" where
  "minus_double x y = x + (- y)"

definition times_double :: "double \<Rightarrow> double \<Rightarrow> double" where
  "times_double x y =
     (case x of
        NaN \<Rightarrow> NaN
      | Finite a \<Rightarrow> (case y of Finite b \<Rightarrow> Finite (a * b) | PosInf \<Rightarrow> signedInf a
                       | NegInf \<Rightarrow> signedInf (- a) | NaN \<Rightarrow> NaN)
      | PosInf \<Rightarrow> (case y of Finite b \<Rightarrow> signedInf b | PosInf \<Rightarrow> PosInf
                     | NegInf \<Rightarrow> NegInf | NaN \<Rightarrow> NaN)
      | NegInf \<Rightarrow> (case y of Finite b \<Rightarrow> signedInf (- b) | PosInf \<Rightarrow> NegInf
                     | NegInf \<Rightarrow> PosInf | NaN \<Rightarrow> NaN))"

definition divide_double :: "double \<Rightarrow> double \<Rightarrow> double" where
  "divide_double x y =
     (case x of
        NaN \<Rightarrow> NaN
      | Finite a \<Rightarrow> (case y of Finite b \<Rightarrow> (if b = 0 then signedInf a else Finite (a / b))
                       | PosInf \<Rightarrow> Finite 0 | NegInf \<Rightarrow> Finite 0 | NaN \<Rightarrow> NaN)
      | PosInf \<Rightarrow> (case y of Finite b \<Rightarrow> (if 0 \<le> b then PosInf else NegInf) | NaN \<Rightarrow> NaN | _ \<Rightarrow> NaN)
      | NegInf \<Rightarrow> (case y of Finite b \<Rightarrow> (if 0 \<le> b then NegInf else PosInf) | NaN \<Rightarrow> NaN | _ \<Rightarrow> NaN))"

definition inverse_double :: "double \<Rightarrow> double" where
  "inverse_double x = divide (Finite 1) x"

definition abs_double :: "double \<Rightarrow> double" where
  "abs_double x = (case x of Finite a \<Rightarrow> Finite \<bar>a\<bar> | PosInf \<Rightarrow> PosInf | NegInf \<Rightarrow> PosInf | NaN \<Rightarrow> NaN)"

definition less_double :: "double \<Rightarrow> double \<Rightarrow> bool" where
  "less_double x y =
     (case x of
        NaN \<Rightarrow> False
      | Finite a \<Rightarrow> (case y of Finite b \<Rightarrow> a < b | PosInf \<Rightarrow> True | _ \<Rightarrow> False)
      | PosInf \<Rightarrow> False
      | NegInf \<Rightarrow> (case y of Finite b \<Rightarrow> True | PosInf \<Rightarrow> True | _ \<Rightarrow> False))"

definition less_eq_double :: "double \<Rightarrow> double \<Rightarrow> bool" where
  "less_eq_double x y =
     (case x of
        NaN \<Rightarrow> False
      | Finite a \<Rightarrow> (case y of Finite b \<Rightarrow> a \<le> b | PosInf \<Rightarrow> True | _ \<Rightarrow> False)
      | PosInf \<Rightarrow> (case y of PosInf \<Rightarrow> True | _ \<Rightarrow> False)
      | NegInf \<Rightarrow> (case y of NaN \<Rightarrow> False | _ \<Rightarrow> True))"

instance ..

end

text \<open>The conversion of an \<^verbatim>\<open>int\<close> to \<^verbatim>\<open>double\<close>.\<close>

definition ofInt :: "int \<Rightarrow> double" where
  "ofInt i = Finite (real_of_int i)"

section \<open>Vectors and matrices\<close>

text \<open>
  \<^verbatim>\<open>Eigen::VectorXd\<close> is a list of values, \<^verbatim>\<open>Eigen::MatrixXd\<close> its two dimensions and its
  coefficients; the values \<open>'a\<close> are the reals in the forward fit and the IEEE values in
  the reverse fit. \<^verbatim>\<open>MatrixXd::Zero(r, c)\<close> has every coefficient zero; Eigen asserts that
  neither dimension is negative. Reading \<^verbatim>\<open>v[i]\<close> and writing \<^verbatim>\<open>M(i, j)\<close> check the index as
  Eigen's accessors assert it: out of range there is no value to read.
\<close>

record 'a matrix =
  rows :: int
  cols :: int
  coeff :: "int \<Rightarrow> int \<Rightarrow> 'a"

definition zeroMatrix :: "int \<Rightarrow> int \<Rightarrow> ('a :: zero) matrix" where
  "zeroMatrix r c = \<lparr>rows = r, cols = c, coeff = (\<lambda>i j. 0)\<rparr>"

definition Zero :: "int \<Rightarrow> int \<Rightarrow> failure + ('a :: zero) matrix" where
  "Zero r c =
     (if 0 \<le> r \<and> 0 \<le> c then Inr (zeroMatrix r c)
      else Inl (AssertionFailed ''rows >= 0 && cols >= 0''))"

definition vecAt :: "'a list \<Rightarrow> int \<Rightarrow> failure + 'a" where
  "vecAt v i =
     (if 0 \<le> i \<and> i < int (length v) then Inr (v ! nat i)
      else Inl (AssertionFailed ''index >= 0 && index < size()''))"

definition setCoeff :: "'a matrix \<Rightarrow> int \<Rightarrow> int \<Rightarrow> 'a \<Rightarrow> failure + 'a matrix" where
  "setCoeff M i j x =
     (if 0 \<le> i \<and> i < rows M \<and> 0 \<le> j \<and> j < cols M
      then Inr (M\<lparr>coeff := (coeff M)(i := (coeff M i)(j := x))\<rparr>)
      else Inl (AssertionFailed ''row >= 0 && row < rows() && col >= 0 && col < cols()''))"

text \<open>
  \<^verbatim>\<open>v.cwiseAbs().maxCoeff()\<close>; Eigen asserts that the vector is not empty. The maximum is
  taken entry by entry with \<^verbatim>\<open>std::max\<close>, which keeps its first argument unless it is below
  the second (with a NaN among several entries Eigen leaves open which entry it returns).
\<close>

definition maxAbsCoeff :: "('a :: {abs, ord}) list \<Rightarrow> failure + 'a" where
  "maxAbsCoeff v =
     (case v of [] \<Rightarrow> Inl (AssertionFailed ''this->rows()>0 && this->cols()>0'')
      | x # xs \<Rightarrow> Inr (fold (\<lambda>y m. max m \<bar>y\<bar>) xs \<bar>x\<bar>))"

text \<open>
  \<^verbatim>\<open>::pow(x, n)\<close> with an \<^verbatim>\<open>int\<close> exponent, which is never negative in the fit: the
  product of \<open>n\<close> factors \<open>x\<close>, and 1 for \<open>n = 0\<close> whatever \<open>x\<close> is.
\<close>

definition pow :: "('a :: {inverse, power}) \<Rightarrow> int \<Rightarrow> 'a" where
  "pow x n = x powi n"

section \<open>The term indexer\<close>

text \<open>
  \<^verbatim>\<open>indexToPQ\<close>: the loop of the source on \<open>(p, q, decrement)\<close>. No step leaves the range
  of \<^verbatim>\<open>int\<close>: \<open>q\<close> is only lowered while it is at least \<open>decrement > 0\<close>, \<open>decrement\<close> falls
  from \<open>order\<close> to no less than 0, and \<open>p\<close> rises once per step.
\<close>

function indexToPQ_loop :: "int \<Rightarrow> int \<Rightarrow> int \<Rightarrow> int \<times> int" where
  "indexToPQ_loop p q decrement =
     (if q \<ge> decrement \<and> decrement > 0
      then indexToPQ_loop (p + 1) (q - decrement) (decrement - 1)
      else (p, q))"
  by pat_completeness auto
termination
  by (relation "measure (\<lambda>(p, q, decrement). nat decrement)") auto

declare indexToPQ_loop.simps [simp del]

definition indexToPQ :: "int \<Rightarrow> int \<Rightarrow> int \<times> int" where
  "indexToPQ index order = indexToPQ_loop 0 index order"

text \<open>
  The index at which row \<open>p = k\<close> of the triangle starts: the first \<open>k\<close> rows hold
  \<open>order\<close>, \<open>order - 1\<close>, ... terms. Used to state and prove the bijection only.
\<close>

fun rowStart :: "nat \<Rightarrow> int \<Rightarrow> int" where
  "rowStart 0 d = 0"
| "rowStart (Suc k) d = d + rowStart k (d - 1)"

section \<open>The design matrix\<close>

text \<open>
  \<^verbatim>\<open>int nTerms = 0.5*order*(order+1)\<close>: the product of two consecutive integers is even,
  so the \<^verbatim>\<open>double\<close> is a whole number and the conversion to \<^verbatim>\<open>int\<close> changes nothing.
\<close>

definition nTermsOf :: "int \<Rightarrow> int" where
  "nTermsOf order = order * (order + 1) div 2"

definition cMatrixEntry :: "('a :: {zero, inverse, power}) list \<Rightarrow> 'a list \<Rightarrow> int \<Rightarrow> int \<Rightarrow> int
    \<Rightarrow> 'a matrix \<Rightarrow> failure + 'a matrix" where
  "cMatrixEntry axis1 axis2 order i j C =
     (let (p, q) = indexToPQ j order in
      if \<not> (p + q < order) then Inl (AssertionFailed ''p + q < order'')
      else bindE (vecAt axis1 i) (\<lambda>a1.
           bindE (vecAt axis2 i) (\<lambda>a2.
           setCoeff C i j (pow a1 p * pow a2 q))))"

definition calculateCMatrix :: "('a :: {zero, inverse, power}) list \<Rightarrow> 'a list \<Rightarrow> int
    \<Rightarrow> failure + 'a matrix" where
  "calculateCMatrix axis1 axis2 order =
     (let nTerms = nTermsOf order;
          n = int (length axis1)
      in bindE (Zero n nTerms) (\<lambda>C.
         forLoop 0 n (\<lambda>i. forLoop 0 nTerms (cMatrixEntry axis1 axis2 order i)) C))"

section \<open>The least-squares solver\<close>

text \<open>
  \<^verbatim>\<open>leastSquaresSolve(b, A)\<close> asserts that \<open>A\<close> has as many rows as \<open>b\<close> and returns
  \<^verbatim>\<open>A.jacobiSvd(ComputeThinU | ComputeThinV).solve(b)\<close>. Eigen's decomposition is not
  under \<^verbatim>\<open>src/\<close>: it is the parameter \<open>svd\<close>, which gives each entry of the solution;
  Eigen fixes the size of the solution to the number of columns of \<open>A\<close>.
\<close>

definition leastSquaresSolve :: "('a matrix \<Rightarrow> 'a list \<Rightarrow> nat \<Rightarrow> 'a) \<Rightarrow> 'a list \<Rightarrow> 'a matrix
    \<Rightarrow> failure + 'a list" where
  "leastSquaresSolve svd b A =
     (if rows A \<noteq> int (length b) then Inl (AssertionFailed ''A.rows() == b.rows()'')
      else Inr (map (svd A b) [0 ..< nat (cols A)]))"

section \<open>The collaborators\<close>

text \<open>\<^verbatim>\<open>Eigen::Matrix2d\<close>, by its four coefficients \<open>(row, column)\<close>.\<close>

record matrix2d =
  c00 :: real
  c01 :: real
  c10 :: real
  c11 :: real

text \<open>
  Modelled from the spec: the closed-form inverse of a 2-by-2 matrix (Eigen's
  \<^verbatim>\<open>Matrix2d::inverse()\<close> is not under \<^verbatim>\<open>src/\<close>). A zero determinant is a division by zero.
\<close>

definition inverse2d :: "matrix2d \<Rightarrow> failure + matrix2d" where
  "inverse2d M =
     (let det = c00 M * c11 M - c01 M * c10 M
      in if det = 0 then Inl NonFinite
         else Inr \<lparr>c00 = c11 M / det, c01 = - c01 M / det, c10 = - c10 M / det, c11 = c00 M / det\<rparr>)"

text \<open>
  Modelled from the spec: the linear transform state (\<^verbatim>\<open>afw::image::Wcs\<close>, not under
  \<^verbatim>\<open>src/\<close>) is a value of three parts, the reference point, the pixel origin and the 2-by-2
  linear map; it is constructed from them and each accessor reads its part back. The
  composite transform (\<^verbatim>\<open>TanWcs\<close>) adds the four coefficient matrices, the forward ones
  of reals and the reverse ones of IEEE values.
\<close>

record wcs =
  skyOrigin :: "real \<times> real"
  pixelOrigin :: "real \<times> real"
  cdMatrix :: matrix2d

record tanWcs = wcs +
  tanSipA :: "real matrix"
  tanSipB :: "real matrix"
  tanSipAp :: "double matrix"
  tanSipBp :: "double matrix"

definition TanWcs :: "real \<times> real \<Rightarrow> real \<times> real \<Rightarrow> matrix2d \<Rightarrow> real matrix \<Rightarrow> real matrix
    \<Rightarrow> double matrix \<Rightarrow> double matrix \<Rightarrow> tanWcs" where
  "TanWcs crval crpix CD A B Ap Bp =
     \<lparr>skyOrigin = crval, pixelOrigin = crpix, cdMatrix = CD,
      tanSipA = A, tanSipB = B, tanSipAp = Ap, tanSipBp = Bp\<rparr>"

text \<open>
  The \<^verbatim>\<open>Wcs\<close> objects live in a store: \<^verbatim>\<open>new Wcs(...)\<close> and \<^verbatim>\<open>clone()\<close> take the next
  free address. The store only grows: an object that a shared pointer releases stays
  in it.
\<close>

record wcsStore =
  cells :: "nat \<Rightarrow> wcs option"
  nextFree :: nat

definition newWcsObject :: "wcs \<Rightarrow> wcsStore \<Rightarrow> nat \<times> wcsStore" where
  "newWcsObject w h =
     (nextFree h, h\<lparr>cells := (cells h)(nextFree h := Some w), nextFree := nextFree h + 1\<rparr>)"

text \<open>
  A match: the sky coordinate of the catalogue object (\<^verbatim>\<open>match.first->getCoord()\<close>) and
  the observed position of the source (\<^verbatim>\<open>match.second->getX()\<close>, \<^verbatim>\<open>getY()\<close>).
\<close>

record sipMatch =
  refCoord :: "real \<times> real"
  srcX :: real
  srcY :: real

text \<open>
  The operations the fit asks of its collaborators, none of them under \<^verbatim>\<open>src/\<close>: the
  projection of a sky coordinate by a linear transform, Eigen's solver, and the
  composite transform's \<^verbatim>\<open>undistortPixel\<close>. The solver is given twice, by what it returns
  on the reals of the forward fit and on the IEEE values of the reverse fit; nothing is
  assumed of either.
\<close>

record collaborators =
  skyToIntermediateWorldCoord :: "wcs \<Rightarrow> real \<times> real \<Rightarrow> real \<times> real"
  jacobiSvdSolve :: "real matrix \<Rightarrow> real list \<Rightarrow> nat \<Rightarrow> real"
  jacobiSvdSolveIEEE :: "double matrix \<Rightarrow> double list \<Rightarrow> nat \<Rightarrow> double"
  undistortPixel :: "tanWcs \<Rightarrow> double \<times> double \<Rightarrow> double \<times> double"

section \<open>The validity region\<close>

text \<open>
  Modelled from the spec: the validity region (\<^verbatim>\<open>afw::geom::Box2I\<close>, not under \<^verbatim>\<open>src/\<close>) is
  an axis-aligned rectangle of whole pixels, kept as its minimum corner and its
  dimensions; the empty box has dimensions zero. \<open>includePoint\<close> (\<^verbatim>\<open>include\<close>) enlarges
  the box to the bounding box of itself and a point, and \<open>grow\<close> adds a border on each
  side.
\<close>

record box2I =
  boxMin :: "int \<times> int"
  boxDim :: "int \<times> int"

definition isEmpty :: "box2I \<Rightarrow> bool" where
  "isEmpty b = (fst (boxDim b) = 0 \<and> snd (boxDim b) = 0)"

definition getMinX :: "box2I \<Rightarrow> int" where "getMinX b = fst (boxMin b)"
definition getMinY :: "box2I \<Rightarrow> int" where "getMinY b = snd (boxMin b)"
definition getMaxX :: "box2I \<Rightarrow> int" where "getMaxX b = fst (boxMin b) + fst (boxDim b) - 1"
definition getMaxY :: "box2I \<Rightarrow> int" where "getMaxY b = snd (boxMin b) + snd (boxDim b) - 1"
definition getWidth :: "box2I \<Rightarrow> int" where "getWidth b = fst (boxDim b)"
definition getHeight :: "box2I \<Rightarrow> int" where "getHeight b = snd (boxDim b)"

definition includeAxis :: "int \<times> int \<Rightarrow> int \<Rightarrow> int \<times> int" where
  "includeAxis r x =
     (if x < fst r then (x, snd r) else if x > snd r then (fst r, x) else r)"

definition includePoint :: "box2I \<Rightarrow> int \<times> int \<Rightarrow> box2I" where
  "includePoint b point =
     (if isEmpty b then \<lparr>boxMin = point, boxDim = (1, 1)\<rparr>
      else let rx = includeAxis (getMinX b, getMaxX b) (fst point);
               ry = includeAxis (getMinY b, getMaxY b) (snd point)
           in \<lparr>boxMin = (fst rx, fst ry), boxDim = (1 + snd rx - fst rx, 1 + snd ry - fst ry)\<rparr>)"

definition grow :: "box2I \<Rightarrow> int \<times> int \<Rightarrow> box2I" where
  "grow b buffer =
     (if isEmpty b then b
      else let w = getWidth b + 2 * fst buffer; h = getHeight b + 2 * snd buffer
           in if w \<le> 0 \<or> h \<le> 0 then \<lparr>boxMin = (0, 0), boxDim = (0, 0)\<rparr>
              else \<lparr>boxMin = (getMinX b - fst buffer, getMinY b - snd buffer), boxDim = (w, h)\<rparr>)"

text \<open>The conversion of a \<^verbatim>\<open>double\<close> or \<^verbatim>\<open>float\<close> to \<^verbatim>\<open>int\<close> drops the fraction.\<close>

definition truncToInt :: "real \<Rightarrow> int" where
  "truncToInt x = (if 0 \<le> x then \<lfloor>x\<rfloor> else \<lceil>x\<rceil>)"

section \<open>Rounding to a floating-point format\<close>

text \<open>
  The border of the guessed validity region is cut to whole pixels, so the rounding of
  the floating-point operations before the cut decides it. A value is rounded to the
  nearest one with \<open>p\<close> significant bits, a tie to the one whose last bit is even: 53 bits
  for a \<^verbatim>\<open>double\<close>, 24 for a \<^verbatim>\<open>float\<close>. Each operation is rounded to the format of its
  C++ type. The range of the exponent is not bounded; the values rounded here are a count,
  its square root, the inverse of that and a product with a width, all of them far from
  the ends of the range of either format.
\<close>

definition roundHalfEven :: "real \<Rightarrow> int" where
  "roundHalfEven x =
     (let f = \<lfloor>x\<rfloor>; d = x - of_int f
      in if d < 1 / 2 then f else if 1 / 2 < d then f + 1 else if even f then f else f + 1)"

text \<open>The exponent \<open>e\<close> of a value: \<open>2 ^ e \<le> \<bar>x\<bar> < 2 ^ (e + 1)\<close>.\<close>

definition binade :: "real \<Rightarrow> int" where
  "binade x = \<lfloor>log 2 \<bar>x\<bar>\<rfloor>"

definition roundToPrecision :: "nat \<Rightarrow> real \<Rightarrow> real" where
  "roundToPrecision p x =
     (if x = 0 then 0
      else let ulp = 2 powi (binade x - int p + 1)
           in of_int (roundHalfEven (x / ulp)) * ulp)"

definition toDouble :: "real \<Rightarrow> real" where
  "toDouble x = roundToPrecision 53 x"

definition toFloat :: "real \<Rightarrow> real" where
  "toFloat x = roundToPrecision 24 x"

section \<open>The fit\<close>

text \<open>The members of \<^verbatim>\<open>CreateWcsWithSip\<close> (the log apart); \<open>linearWcs\<close> is a pointer.\<close>

record createWcsWithSip =
  matches :: "sipMatch list"
  bbox :: box2I
  ngrid :: int
  linearWcs :: nat
  sipOrder :: int
  reverseSipOrder :: int
  sipA :: "real matrix"
  sipB :: "real matrix"
  sipAp :: "double matrix"
  sipBp :: "double matrix"
  newWcs :: "tanWcs option"

subsection \<open>The constructor, up to the fit\<close>

text \<open>
  \<^verbatim>\<open>float const borderFrac = 1/::sqrt(_matches.size())\<close>: the count is converted to
  \<^verbatim>\<open>double\<close>, the square root and the quotient are each rounded to \<^verbatim>\<open>double\<close>, and the
  initialisation rounds the quotient to \<^verbatim>\<open>float\<close>.
\<close>

definition borderFraction :: "nat \<Rightarrow> real" where
  "borderFraction n = toFloat (toDouble (1 / toDouble (sqrt (toDouble (real n)))))"

text \<open>
  \<^verbatim>\<open>borderFrac*_bbox.getWidth()\<close> handed to the constructor of \<^verbatim>\<open>Extent2I\<close>: the \<^verbatim>\<open>int\<close> is
  converted to \<^verbatim>\<open>float\<close>, the product is rounded to \<^verbatim>\<open>float\<close>, and the conversion to
  \<^verbatim>\<open>int\<close> drops its fraction.
\<close>

definition borderPixels :: "real \<Rightarrow> int \<Rightarrow> int" where
  "borderPixels borderFrac extent = truncToInt (toFloat (borderFrac * toFloat (real_of_int extent)))"

text \<open>
  The guessed bounding box: every observed position, converted to a point of whole
  pixels, is included; the border is \<open>borderFrac\<close> times the width and the height, each
  in whole pixels.
\<close>

definition guessBBox :: "sipMatch list \<Rightarrow> box2I \<Rightarrow> box2I" where
  "guessBBox ms b =
     (if isEmpty b \<and> ms \<noteq> [] then
        let b1 = fold (\<lambda>m b. includePoint b (truncToInt (srcX m), truncToInt (srcY m))) ms b;
            borderFrac = borderFraction (length ms);
            border = (borderPixels borderFrac (getWidth b1), borderPixels borderFrac (getHeight b1))
        in grow b1 border
      else b)"

text \<open>
  The member initialisers and the body of the constructor down to the call of
  \<^verbatim>\<open>_calculateForwardMatrices\<close>. The caller's transform \<open>linearWcs\<close> is cloned into the
  store \<open>h\<close>. The initialisers build the four matrices, of the dimensions \<open>order + 1\<close> and
  \<open>order + 2\<close>, before the body checks the order.
\<close>

definition constructorSetup :: "wcsStore \<Rightarrow> sipMatch list \<Rightarrow> wcs \<Rightarrow> int \<Rightarrow> box2I \<Rightarrow> int
    \<Rightarrow> failure + createWcsWithSip \<times> wcsStore" where
  "constructorSetup h ms lin order box grid =
     (let (a, h1) = newWcsObject lin h
      in bindE (Zero (order + 1) (order + 1)) (\<lambda>A.
         bindE (Zero (order + 1) (order + 1)) (\<lambda>B.
         bindE (Zero (order + 2) (order + 2)) (\<lambda>Ap.
         bindE (Zero (order + 2) (order + 2)) (\<lambda>Bp.
         let self = \<lparr>matches = ms, bbox = box, ngrid = grid, linearWcs = a,
                     sipOrder = order + 1, reverseSipOrder = order + 2,
                     sipA = A, sipB = B, sipAp = Ap, sipBp = Bp, newWcs = None\<rparr>
         in if order < 2 then Inl (OutOfRangeError ''SIP must be at least 2nd order'' [])
            else if sipOrder self > 9 then
              Inl (OutOfRangeError ''SIP forward order %d exceeds the convention limit of 9'' [sipOrder self])
            else if reverseSipOrder self > 9 then
              Inl (OutOfRangeError ''SIP reverse order %d exceeds the convention limit of 9'' [reverseSipOrder self])
            else if int (length (matches self)) < sipOrder self then
              Inl (LengthError ''Number of matches less than requested sip order'')
            else
              let self1 = (if ngrid self \<le> 0 then self\<lparr>ngrid := 5 * sipOrder self\<rparr> else self);
                  self2 = self1\<lparr>bbox := guessBBox (matches self1) (bbox self1)\<rparr>
              in Inr (self2, h1))))))"

subsection \<open>The forward fit\<close>

text \<open>
  \<^verbatim>\<open>_calculateForwardMatrices\<close>, first part: the offsets \<open>u\<close>, \<open>v\<close> of the observed positions
  from the pixel origin, their scale \<open>nrm\<close> (\<^verbatim>\<open>norm\<close> in the source), and the two solves. Returns
  \<open>(mu, nu, nrm)\<close>.
\<close>

definition forwardSolve :: "collaborators \<Rightarrow> wcs \<Rightarrow> sipMatch list \<Rightarrow> int
    \<Rightarrow> failure + real list \<times> real list \<times> real" where
  "forwardSolve ext lin ms ord =
     (let crpix = pixelOrigin lin;
          iwc1 = map (\<lambda>m. fst (skyToIntermediateWorldCoord ext lin (refCoord m))) ms;
          iwc2 = map (\<lambda>m. snd (skyToIntermediateWorldCoord ext lin (refCoord m))) ms;
          u = map (\<lambda>m. srcX m - fst crpix) ms;
          v = map (\<lambda>m. srcY m - snd crpix) ms
      in bindE (maxAbsCoeff u) (\<lambda>uMax.
         bindE (maxAbsCoeff v) (\<lambda>vMax.
         let nrm = max uMax vMax
         in if nrm = 0 then Inl NonFinite
            else bindE (calculateCMatrix (map (\<lambda>x. x / nrm) u) (map (\<lambda>x. x / nrm) v) ord) (\<lambda>forwardC.
                 bindE (leastSquaresSolve (jacobiSvdSolve ext) iwc1 forwardC) (\<lambda>mu.
                 bindE (leastSquaresSolve (jacobiSvdSolve ext) iwc2 forwardC) (\<lambda>nu.
                 Inr (mu, nu, nrm)))))))"

text \<open>
  Second part: the three assertions on \<^verbatim>\<open>indexToPQ\<close>, the refined \<open>CD\<close> matrix, its inverse
  and the shifted pixel origin. Returns the refined transform and \<open>CDinv\<close>.
\<close>

definition refineLinear :: "wcs \<Rightarrow> real list \<Rightarrow> real list \<Rightarrow> real \<Rightarrow> int \<Rightarrow> failure + wcs \<times> matrix2d" where
  "refineLinear lin mu nu nrm ord =
     (if indexToPQ 0 ord \<noteq> (0, 0) then Inl (AssertionFailed ''indexToPQ(0, ord) == (0, 0)'')
      else if indexToPQ 1 ord \<noteq> (0, 1) then Inl (AssertionFailed ''indexToPQ(1, ord) == (0, 1)'')
      else if indexToPQ ord ord \<noteq> (1, 0) then Inl (AssertionFailed ''indexToPQ(ord, ord) == (1, 0)'')
      else bindE (vecAt nu ord) (\<lambda>nuOrd.
           bindE (vecAt nu 1) (\<lambda>nu1.
           bindE (vecAt mu ord) (\<lambda>muOrd.
           bindE (vecAt mu 1) (\<lambda>mu1.
           let CD = \<lparr>c00 = muOrd / nrm, c01 = mu1 / nrm, c10 = nuOrd / nrm, c11 = nu1 / nrm\<rparr>
           in bindE (inverse2d CD) (\<lambda>CDinv.
              bindE (vecAt mu 0) (\<lambda>mu0.
              bindE (vecAt nu 0) (\<lambda>nu0.
              let crpix = (fst (pixelOrigin lin) - (mu0 * c00 CDinv + nu0 * c01 CDinv),
                           snd (pixelOrigin lin) - (mu0 * c10 CDinv + nu0 * c11 CDinv))
              in Inr (\<lparr>skyOrigin = skyOrigin lin, pixelOrigin = crpix, cdMatrix = CD\<rparr>, CDinv)))))))))"

text \<open>Third part: the body of the loop over the terms, on the pair \<open>(_sipA, _sipB)\<close>.\<close>

definition forwardSipTerm :: "real list \<Rightarrow> real list \<Rightarrow> matrix2d \<Rightarrow> real \<Rightarrow> int \<Rightarrow> int
    \<Rightarrow> real matrix \<times> real matrix \<Rightarrow> failure + real matrix \<times> real matrix" where
  "forwardSipTerm mu nu CDinv nrm ord i AB =
     (let (p, q) = indexToPQ i ord
      in if p + q > 1 \<and> p + q < ord then
           bindE (vecAt mu i) (\<lambda>mui.
           bindE (vecAt nu i) (\<lambda>nui.
           let AB0 = c00 CDinv * mui + c01 CDinv * nui;
               AB1 = c10 CDinv * mui + c11 CDinv * nui
           in bindE (setCoeff (fst AB) p q (AB0 / pow nrm (p + q))) (\<lambda>A.
              bindE (setCoeff (snd AB) p q (AB1 / pow nrm (p + q))) (\<lambda>B.
              Inr (A, B)))))
         else Inr AB)"

definition calculateForwardMatrices :: "collaborators \<Rightarrow> createWcsWithSip \<times> wcsStore
    \<Rightarrow> failure + createWcsWithSip \<times> wcsStore" where
  "calculateForwardMatrices ext sh =
     (let self = fst sh; h = snd sh
      in case cells h (linearWcs self) of
           None \<Rightarrow> Inl (AssertionFailed ''px != 0'')
         | Some lin \<Rightarrow>
             bindE (forwardSolve ext lin (matches self) (sipOrder self)) (\<lambda>(mu, nu, nrm).
             bindE (refineLinear lin mu nu nrm (sipOrder self)) (\<lambda>(refined, CDinv).
             let (a, h1) = newWcsObject refined h
             in bindE (forLoop 1 (int (length mu))
                        (forwardSipTerm mu nu CDinv nrm (sipOrder self)) (sipA self, sipB self)) (\<lambda>AB.
                Inr (self\<lparr>linearWcs := a, sipA := fst AB, sipB := snd AB\<rparr>, h1)))))"

subsection \<open>The reverse fit\<close>

text \<open>
  The spacing of the grid, \<^verbatim>\<open>extent/(double)(_ngrid - 1)\<close>: a division of \<^verbatim>\<open>double\<close>s, which is
  an infinity or a NaN when the divisor is zero.
\<close>

definition gridSpacing :: "int \<Rightarrow> int \<Rightarrow> double" where
  "gridSpacing extent grid = ofInt extent / ofInt (grid - 1)"

text \<open>
  One point of the grid: \<open>(U, V, delta1, delta2)\<close> at row \<open>i\<close> and column \<open>j\<close>.
\<close>

definition gridSample :: "collaborators \<Rightarrow> tanWcs \<Rightarrow> int \<Rightarrow> double \<Rightarrow> int \<Rightarrow> double \<Rightarrow> int \<Rightarrow> int
    \<Rightarrow> double \<times> double \<times> double \<times> double" where
  "gridSample ext tw x0 dx y0 dy i j =
     (let crpix = (Finite (fst (pixelOrigin tw)), Finite (snd (pixelOrigin tw)));
          y = ofInt y0 + ofInt i * dy;
          x = ofInt x0 + ofInt j * dx;
          u = x - fst crpix;
          v = y - snd crpix;
          xy = undistortPixel ext tw (x + 1, y + 1);
          U = fst xy - 1 - fst crpix;
          V = snd xy - 1 - snd crpix
      in (U, V, u - U, v - V))"

text \<open>
  The two loops over the grid, row by row: the entry \<open>k\<close> of the sample vectors is the
  point at row \<open>k div ngrid\<close> and column \<open>k mod ngrid\<close>.
\<close>

definition gridSamples :: "collaborators \<Rightarrow> tanWcs \<Rightarrow> int \<Rightarrow> double \<Rightarrow> int \<Rightarrow> double \<Rightarrow> int
    \<Rightarrow> (double \<times> double \<times> double \<times> double) list" where
  "gridSamples ext tw x0 dx y0 dy grid =
     concat (map (\<lambda>i. map (\<lambda>j. gridSample ext tw x0 dx y0 dy i j) [0 .. grid - 1]) [0 .. grid - 1])"

text \<open>
  \<^verbatim>\<open>_calculateReverseMatrices\<close>, first part: the spacings and the samples on the grid. The
  sample vectors hold one entry per point of the grid, \<open>ngrid * ngrid\<close> of them (taken to be
  in the range of \<^verbatim>\<open>int\<close>); the constructor has made \<open>ngrid\<close> positive before the call.
\<close>

definition reverseGrid :: "collaborators \<Rightarrow> createWcsWithSip
    \<Rightarrow> failure + (double \<times> double \<times> double \<times> double) list" where
  "reverseGrid ext self =
     (let x0 = getMinX (bbox self);
          dx = gridSpacing (getWidth (bbox self)) (ngrid self);
          y0 = getMinY (bbox self);
          dy = gridSpacing (getHeight (bbox self)) (ngrid self)
      in case newWcs self of
           None \<Rightarrow> Inl (AssertionFailed ''px != 0'')
         | Some tw \<Rightarrow> Inr (gridSamples ext tw x0 dx y0 dy (ngrid self)))"

text \<open>
  Second part: the scale \<open>nrm\<close> (\<^verbatim>\<open>norm\<close> in the source) of the samples and the two solves.
  Returns \<open>(tmpA, tmpB, nrm)\<close>.
\<close>

definition solveSamples :: "collaborators \<Rightarrow> int \<Rightarrow> (double \<times> double \<times> double \<times> double) list
    \<Rightarrow> failure + double list \<times> double list \<times> double" where
  "solveSamples ext ord samples =
     (let U = map (\<lambda>(U, V, d1, d2). U) samples;
          V = map (\<lambda>(U, V, d1, d2). V) samples;
          delta1 = map (\<lambda>(U, V, d1, d2). d1) samples;
          delta2 = map (\<lambda>(U, V, d1, d2). d2) samples
      in bindE (maxAbsCoeff U) (\<lambda>UMax.
         bindE (maxAbsCoeff V) (\<lambda>VMax.
         let nrm = (if UMax > VMax then UMax else VMax)
         in bindE (calculateCMatrix (map (\<lambda>x. x / nrm) U) (map (\<lambda>x. x / nrm) V) ord) (\<lambda>reverseC.
            bindE (leastSquaresSolve (jacobiSvdSolveIEEE ext) delta1 reverseC) (\<lambda>tmpA.
            bindE (leastSquaresSolve (jacobiSvdSolveIEEE ext) delta2 reverseC) (\<lambda>tmpB.
            if length tmpA \<noteq> length tmpB
            then Inl (AssertionFailed ''tmpA.rows() == tmpB.rows()'')
            else Inr (tmpA, tmpB, nrm)))))))"

definition reverseSolve :: "collaborators \<Rightarrow> createWcsWithSip
    \<Rightarrow> failure + double list \<times> double list \<times> double" where
  "reverseSolve ext self =
     bindE (reverseGrid ext self) (solveSamples ext (reverseSipOrder self))"

text \<open>Third part: the body of the loop over the terms, on the pair \<open>(_sipAp, _sipBp)\<close>.\<close>

definition reverseSipTerm :: "double list \<Rightarrow> double list \<Rightarrow> double \<Rightarrow> int \<Rightarrow> int
    \<Rightarrow> double matrix \<times> double matrix \<Rightarrow> failure + double matrix \<times> double matrix" where
  "reverseSipTerm tmpA tmpB nrm ord j AB =
     (let (p, q) = indexToPQ j ord
      in bindE (vecAt tmpA j) (\<lambda>a.
         bindE (setCoeff (fst AB) p q (a / pow nrm (p + q))) (\<lambda>Ap.
         bindE (vecAt tmpB j) (\<lambda>b.
         bindE (setCoeff (snd AB) p q (b / pow nrm (p + q))) (\<lambda>Bp.
         Inr (Ap, Bp))))))"

definition calculateReverseMatrices :: "collaborators \<Rightarrow> createWcsWithSip \<Rightarrow> failure + createWcsWithSip" where
  "calculateReverseMatrices ext self =
     bindE (reverseSolve ext self) (\<lambda>(tmpA, tmpB, nrm).
     bindE (forLoop 0 (int (length tmpA))
              (reverseSipTerm tmpA tmpB nrm (reverseSipOrder self)) (sipAp self, sipBp self)) (\<lambda>AB.
     Inr (self\<lparr>sipAp := fst AB, sipBp := snd AB\<rparr>)))"

subsection \<open>The constructor\<close>

text \<open>
  The composite transform built from the members, as the constructor does twice.
\<close>

definition buildNewWcs :: "createWcsWithSip \<times> wcsStore \<Rightarrow> failure + createWcsWithSip \<times> wcsStore" where
  "buildNewWcs sh =
     (let self = fst sh; h = snd sh
      in case cells h (linearWcs self) of
           None \<Rightarrow> Inl (AssertionFailed ''px != 0'')
         | Some lin \<Rightarrow>
             Inr (self\<lparr>newWcs := Some (TanWcs (skyOrigin lin) (pixelOrigin lin) (cdMatrix lin)
                    (sipA self) (sipB self) (sipAp self) (sipBp self))\<rparr>, h))"

definition CreateWcsWithSip :: "collaborators \<Rightarrow> wcsStore \<Rightarrow> sipMatch list \<Rightarrow> wcs \<Rightarrow> int \<Rightarrow> box2I \<Rightarrow> int
    \<Rightarrow> failure + createWcsWithSip \<times> wcsStore" where
  "CreateWcsWithSip ext h ms lin order box grid =
     bindE (constructorSetup h ms lin order box grid) (\<lambda>sh.
     bindE (calculateForwardMatrices ext sh) (\<lambda>sh.
     bindE (buildNewWcs sh) (\<lambda>sh.
     bindE (calculateReverseMatrices ext (fst sh)) (\<lambda>self.
     buildNewWcs (self, snd sh)))))"

section \<open>Notions used to state the properties\<close>


text \<open>The failures that are exceptions thrown to the caller.\<close>

definition isException :: "failure \<Rightarrow> bool" where
  "isException e =
     (case e of OutOfRangeError s args \<Rightarrow> True | LengthError s \<Rightarrow> True
      | AssertionFailed s \<Rightarrow> False | NonFinite \<Rightarrow> False)"

text \<open>A coefficient matrix whose entries \<open>(p, q)\<close> with \<open>p + q \<ge> order\<close> are zero.\<close>

definition offTriangleZero :: "int \<Rightarrow> ('a :: zero) matrix \<Rightarrow> bool" where
  "offTriangleZero order M = (\<forall>p q. order \<le> p + q \<longrightarrow> coeff M p q = 0)"

text \<open>
  The index of the term \<open>(p, q)\<close> at a given order, and the vector-matrix product
  \<open>M * (x, y)\<close> of a 2-by-2 matrix, by its two components.
\<close>

definition termIndex :: "int \<Rightarrow> int \<Rightarrow> int \<Rightarrow> int" where
  "termIndex order p q = rowStart (nat p) order + q"

definition apply2d :: "matrix2d \<Rightarrow> real \<times> real \<Rightarrow> real \<times> real" where
  "apply2d M xy = (c00 M * fst xy + c01 M * snd xy, c10 M * fst xy + c11 M * snd xy)"

text \<open>An object whose four coefficient matrices are zero off their triangles.\<close>

definition coefficientsTriangular :: "createWcsWithSip \<Rightarrow> bool" where
  "coefficientsTriangular self =
     (offTriangleZero (sipOrder self) (sipA self) \<and> offTriangleZero (sipOrder self) (sipB self)
      \<and> offTriangleZero (reverseSipOrder self) (sipAp self)
      \<and> offTriangleZero (reverseSipOrder self) (sipBp self))"

text \<open>A store in which no address from \<open>nextFree\<close> on is in use.\<close>

definition wellFormedStore :: "wcsStore \<Rightarrow> bool" where
  "wellFormedStore h = (\<forall>a. nextFree h \<le> a \<longrightarrow> cells h a = None)"

section \<open>Example inputs\<close>

text \<open>
  A transform with the identity as its linear map, a store that holds it, three matches,
  nine matches on a square from 0 to 4, 1681 matches at the two ends of a square from 0
  to 40, 82 matches at the two ends of a square from 0 to 2942, a box of four by four
  pixels and the empty box.
  The example collaborators project a sky coordinate to itself, solve to
  \<open>b\<^sub>0 + b\<^sub>1 * k\<close> at entry \<open>k\<close> on the reals and to \<open>b\<^sub>0 * (1 + k)\<close> on the IEEE values,
  whatever the matrix, and undistort a pixel by moving it one pixel along \<open>x\<close>.
\<close>

definition exampleWcs :: wcs where
  "exampleWcs = \<lparr>skyOrigin = (0, 0), pixelOrigin = (0, 0),
     cdMatrix = \<lparr>c00 = 1, c01 = 0, c10 = 0, c11 = 1\<rparr>\<rparr>"

definition exampleStore :: wcsStore where
  "exampleStore = \<lparr>cells = (\<lambda>a. if a = 0 then Some exampleWcs else None), nextFree = 1\<rparr>"

definition exampleMatches :: "sipMatch list" where
  "exampleMatches =
     [\<lparr>refCoord = (1, 0), srcX = 0, srcY = 0\<rparr>,
      \<lparr>refCoord = (0, 1), srcX = 2, srcY = 0\<rparr>,
      \<lparr>refCoord = (0, 0), srcX = 0, srcY = 2\<rparr>]"

definition nineMatches :: "sipMatch list" where
  "nineMatches =
     map (\<lambda>(x, y). \<lparr>refCoord = (0, 0), srcX = x, srcY = y\<rparr>)
       [(0, 0), (4, 0), (0, 4), (4, 4), (2, 2), (1, 1), (3, 3), (1, 3), (3, 1)]"

definition manyMatches :: "sipMatch list" where
  "manyMatches =
     replicate 1680 \<lparr>refCoord = (0, 0), srcX = 0, srcY = 0\<rparr> @ [\<lparr>refCoord = (0, 0), srcX = 40, srcY = 40\<rparr>]"

definition wideMatches :: "sipMatch list" where
  "wideMatches =
     replicate 81 \<lparr>refCoord = (0, 0), srcX = 0, srcY = 0\<rparr> @ [\<lparr>refCoord = (0, 0), srcX = 2942, srcY = 2942\<rparr>]"

definition exampleBox :: box2I where
  "exampleBox = \<lparr>boxMin = (0, 0), boxDim = (4, 4)\<rparr>"

definition emptyBox :: box2I where
  "emptyBox = \<lparr>boxMin = (0, 0), boxDim = (0, 0)\<rparr>"

definition exampleCollaborators :: collaborators where
  "exampleCollaborators =
     \<lparr>skyToIntermediateWorldCoord = (\<lambda>w c. c),
      jacobiSvdSolve = (\<lambda>A b k. b ! 0 + b ! 1 * real k),
      jacobiSvdSolveIEEE = (\<lambda>A b k. b ! 0 * Finite (1 + real k)),
      undistortPixel = (\<lambda>tw xy. (fst xy + 1, snd xy))\<rparr>"

text \<open>
  The object and the store of the example after the constructor's checks, at order 2
  with a grid of two by two points.
\<close>

definition exampleSetup :: "createWcsWithSip \<times> wcsStore" where
  "exampleSetup = projr (constructorSetup exampleStore exampleMatches exampleWcs 2 exampleBox 2)"

section \<open>The term indexer is a bijection\<close>


lemma rowStart_nonneg: "int k \<le> d \<Longrightarrow> 0 \<le> rowStart k d"
  by (induction k arbitrary: d) auto

text \<open>
  The loop from \<open>(p, q, d)\<close> with \<open>q\<close> inside the triangle of \<open>d\<close> stops after \<open>k\<close> steps at
  \<open>(p + k, q')\<close>, where \<open>q\<close> is the start of row \<open>k\<close> plus \<open>q'\<close>; and it reaches every such
  pair.
\<close>

lemma loop_fwd:
  "0 \<le> d \<Longrightarrow> 0 \<le> q \<Longrightarrow> q < d * (d + 1) div 2 \<Longrightarrow>
   \<exists>k q'. indexToPQ_loop p q d = (p + int k, q') \<and> 0 \<le> q' \<and> q' < d - int k \<and> q = rowStart k d + q'"
proof (induction p q d rule: indexToPQ_loop.induct)
  case (1 p q d)
  show ?case
  proof (cases "q \<ge> d \<and> d > 0")
    case True
    have "d * (d + 1) div 2 = (d - 1) * (d - 1 + 1) div 2 + d"
    proof -
      have "d * (d + 1) = (d - 1) * (d - 1 + 1) + 2 * d" by (simp add: algebra_simps)
      then show ?thesis by simp
    qed
    with 1 True have "q - d < (d - 1) * (d - 1 + 1) div 2" by simp
    with 1 True obtain k q' where
      h: "indexToPQ_loop (p + 1) (q - d) (d - 1) = (p + 1 + int k, q')" "0 \<le> q'" "q' < d - 1 - int k"
         "q - d = rowStart k (d - 1) + q'"
      by force
    show ?thesis
      apply (rule exI [of _ "Suc k"], rule exI [of _ q'])
      using True h by (simp add: indexToPQ_loop.simps [of p q d])
  next
    case False
    with 1 have "q < d" by auto
    show ?thesis
      apply (rule exI [of _ 0], rule exI [of _ q])
      using False 1 \<open>q < d\<close> by (simp add: indexToPQ_loop.simps [of p q d])
  qed
qed

lemma loop_bwd:
  "0 \<le> q' \<Longrightarrow> q' < d - int k \<Longrightarrow> indexToPQ_loop p (rowStart k d + q') d = (p + int k, q')"
proof (induction k arbitrary: d p)
  case 0
  then show ?case by (simp add: indexToPQ_loop.simps [of p q' d])
next
  case (Suc k)
  have nn: "0 \<le> rowStart k (d - 1)" using Suc.prems by (intro rowStart_nonneg) simp
  have "indexToPQ_loop p (rowStart (Suc k) d + q') d
      = indexToPQ_loop (p + 1) (rowStart k (d - 1) + q') (d - 1)"
    using Suc.prems nn by (subst indexToPQ_loop.simps) simp
  also have "\<dots> = (p + 1 + int k, q')"
    using Suc.prems by (intro Suc.IH) auto
  finally show ?case by simp
qed

lemma tri_step: "(d::int) * (d + 1) div 2 = (d - 1) * (d - 1 + 1) div 2 + d"
proof -
  have "d * (d + 1) = (d - 1) * (d - 1 + 1) + 2 * d" by (simp add: algebra_simps)
  then show ?thesis by simp
qed

lemma tri_ge: "0 \<le> (n::int) \<Longrightarrow> n \<le> n * (n + 1) div 2"
proof -
  assume "0 \<le> n"
  then have "2 * n \<le> n * (n + 1)"
    by (cases "n = 0") (simp_all add: algebra_simps)
  then show ?thesis by linarith
qed

lemma rowStart_tri:
  "int k \<le> d \<Longrightarrow> rowStart k d + (d - int k) * (d - int k + 1) div 2 = d * (d + 1) div 2"
proof (induction k arbitrary: d)
  case 0
  then show ?case by simp
next
  case (Suc k)
  have "rowStart k (d - 1) + (d - 1 - int k) * (d - 1 - int k + 1) div 2 = (d - 1) * (d - 1 + 1) div 2"
    using Suc.prems by (intro Suc.IH) simp
  moreover have e: "d - int (Suc k) = d - 1 - int k" by simp
  ultimately show ?case unfolding e rowStart.simps using tri_step [of d] by linarith
qed

lemma indexToPQ_char:
  assumes "0 \<le> order" "0 \<le> index" "index < order * (order + 1) div 2"
  obtains k q where "indexToPQ index order = (int k, q)" "0 \<le> q" "int k + q < order"
    "index = rowStart k order + q"
proof -
  from loop_fwd [OF assms, of 0] obtain k q' where
    "indexToPQ_loop 0 index order = (0 + int k, q')" "0 \<le> q'" "q' < order - int k" "index = rowStart k order + q'"
    by blast
  then show ?thesis using that [of k q'] by (simp add: indexToPQ_def)
qed

lemma indexToPQ_rowStart:
  assumes "0 \<le> q" "int k + q < order"
  shows "indexToPQ (rowStart k order + q) order = (int k, q)"
  using loop_bwd [of q order k 0] assms by (simp add: indexToPQ_def)

lemma rowStart_range:
  assumes "0 \<le> q" "int k + q < order"
  shows "0 \<le> rowStart k order + q" "rowStart k order + q < order * (order + 1) div 2"
proof -
  have k: "int k \<le> order" using assms by simp
  show "0 \<le> rowStart k order + q" using rowStart_nonneg [OF k] assms by simp
  have "q < order - int k" using assms by simp
  also have "\<dots> \<le> (order - int k) * (order - int k + 1) div 2"
    using k by (intro tri_ge) simp
  finally show "rowStart k order + q < order * (order + 1) div 2"
    using rowStart_tri [OF k] by simp
qed

lemma indexToPQ_in_triangle:
  assumes "0 \<le> order" "0 \<le> index" "index < order * (order + 1) div 2"
  shows "0 \<le> fst (indexToPQ index order) \<and> 0 \<le> snd (indexToPQ index order)
       \<and> fst (indexToPQ index order) + snd (indexToPQ index order) < order"
  using indexToPQ_char [OF assms] by (metis fst_conv snd_conv of_nat_0_le_iff)

lemma indexToPQ_inj:
  assumes "0 \<le> order"
  shows "inj_on (\<lambda>index. indexToPQ index order) {0 ..< order * (order + 1) div 2}"
proof (rule inj_onI)
  fix i j
  assume i: "i \<in> {0 ..< order * (order + 1) div 2}" and j: "j \<in> {0 ..< order * (order + 1) div 2}"
    and eq: "indexToPQ i order = indexToPQ j order"
  from i have i0: "0 \<le> i" and i1: "i < order * (order + 1) div 2" by simp_all
  from j have j0: "0 \<le> j" and j1: "j < order * (order + 1) div 2" by simp_all
  obtain k q where a: "indexToPQ i order = (int k, q)" "0 \<le> q" "int k + q < order"
      "i = rowStart k order + q"
    by (rule indexToPQ_char [OF assms i0 i1])
  obtain k' q' where b: "indexToPQ j order = (int k', q')" "0 \<le> q'" "int k' + q' < order"
      "j = rowStart k' order + q'"
    by (rule indexToPQ_char [OF assms j0 j1])
  from a(1,4) b(1,4) eq show "i = j" by simp
qed

lemma indexToPQ_image:
  assumes "0 \<le> order"
  shows "(\<lambda>index. indexToPQ index order) ` {0 ..< order * (order + 1) div 2}
       = {(p, q). 0 \<le> p \<and> 0 \<le> q \<and> p + q < order}"
proof (intro set_eqI iffI)
  fix x
  assume "x \<in> (\<lambda>index. indexToPQ index order) ` {0 ..< order * (order + 1) div 2}"
  then obtain i where i: "0 \<le> i" "i < order * (order + 1) div 2" "x = indexToPQ i order" by auto
  with indexToPQ_in_triangle [OF assms i(1,2)]
  show "x \<in> {(p, q). 0 \<le> p \<and> 0 \<le> q \<and> p + q < order}" by (simp add: case_prod_beta)
next
  fix x :: "int \<times> int"
  assume "x \<in> {(p, q). 0 \<le> p \<and> 0 \<le> q \<and> p + q < order}"
  then obtain p q where x: "x = (p, q)" "0 \<le> p" "0 \<le> q" "p + q < order" by auto
  then have kq: "int (nat p) + q < order" by simp
  have "indexToPQ (rowStart (nat p) order + q) order = x"
    using indexToPQ_rowStart [OF x(3) kq] x by simp
  moreover have "rowStart (nat p) order + q \<in> {0 ..< order * (order + 1) div 2}"
    using rowStart_range [OF x(3) kq] by simp
  ultimately show "x \<in> (\<lambda>index. indexToPQ index order) ` {0 ..< order * (order + 1) div 2}"
    by blast
qed

lemma indexToPQ_fixed:
  assumes "2 \<le> order"
  shows "indexToPQ 0 order = (0, 0)" "indexToPQ 1 order = (0, 1)" "indexToPQ order order = (1, 0)"
  using assms by (simp_all add: indexToPQ_def indexToPQ_loop.simps [of _ _ order] indexToPQ_loop.simps [of _ _ "order - 1"])

text \<open>
  Claim C1. For every order from 2 to 9 and every index from 0 to
  \<open>order * (order + 1) / 2 - 1\<close>, \<open>indexToPQ\<close> returns \<open>(p, q)\<close> with \<open>p \<ge> 0\<close>, \<open>q \<ge> 0\<close> and
  \<open>p + q < order\<close>; the mapping is a bijection from that range of indices onto the set of
  such pairs; and index 0 goes to \<open>(0, 0)\<close>, index 1 to \<open>(0, 1)\<close> and index \<open>order\<close> to \<open>(1, 0)\<close>.
\<close>

theorem indexToPQ_bijection:
  assumes "2 \<le> order" and "order \<le> 9"
  shows "(\<forall>index \<in> {0 ..< order * (order + 1) div 2}.
            0 \<le> fst (indexToPQ index order) \<and> 0 \<le> snd (indexToPQ index order)
            \<and> fst (indexToPQ index order) + snd (indexToPQ index order) < order)
       \<and> bij_betw (\<lambda>index. indexToPQ index order) {0 ..< order * (order + 1) div 2}
            {(p, q). 0 \<le> p \<and> 0 \<le> q \<and> p + q < order}
       \<and> indexToPQ 0 order = (0, 0) \<and> indexToPQ 1 order = (0, 1) \<and> indexToPQ order order = (1, 0)"
proof -
  have o: "0 \<le> order" using assms by simp
  have "bij_betw (\<lambda>index. indexToPQ index order) {0 ..< order * (order + 1) div 2}
            {(p, q). 0 \<le> p \<and> 0 \<le> q \<and> p + q < order}"
    unfolding bij_betw_def using indexToPQ_inj [OF o] indexToPQ_image [OF o] by simp
  moreover have "\<forall>index \<in> {0 ..< order * (order + 1) div 2}.
            0 \<le> fst (indexToPQ index order) \<and> 0 \<le> snd (indexToPQ index order)
            \<and> fst (indexToPQ index order) + snd (indexToPQ index order) < order"
    using indexToPQ_in_triangle [OF o] by simp
  ultimately show ?thesis using indexToPQ_fixed [OF assms(1)] by simp
qed

text \<open>At order 3: the six indices and the six pairs.\<close>

theorem indexToPQ_bijection_witness:
  "bij_betw (\<lambda>index. indexToPQ index 3) {0 ..< 6} {(p, q). 0 \<le> p \<and> 0 \<le> q \<and> p + q < 3}
   \<and> indexToPQ 4 3 = (1, 1) \<and> indexToPQ 5 3 = (2, 0)
   \<and> indexToPQ 0 3 = (0, 0) \<and> indexToPQ 1 3 = (0, 1) \<and> indexToPQ 3 3 = (1, 0)"
  using indexToPQ_bijection [of 3]
  by (simp add: indexToPQ_def indexToPQ_loop.simps)

section \<open>Failures and loops\<close>

lemma bindE_simps [simp]:
  "bindE (Inl e) f = Inl e"
  "bindE (Inr x) f = f x"
  by (simp_all add: bindE_def)

lemma bindE_eq_Inr:
  "bindE m f = Inr y \<longleftrightarrow> (\<exists>x. m = Inr x \<and> f x = Inr y)"
  by (cases m) simp_all

lemma bindE_eq_Inl:
  "bindE m f = Inl e \<longleftrightarrow> m = Inl e \<or> (\<exists>x. m = Inr x \<and> f x = Inl e)"
  by (cases m) auto

lemma forLoop_done: "n \<le> i \<Longrightarrow> forLoop i n body s = Inr s"
  by (simp add: forLoop.simps [of i n])

lemma forLoop_step:
  "i < n \<Longrightarrow> forLoop i n body s = bindE (body i s) (forLoop (i + 1) n body)"
  by (simp add: forLoop.simps [of i n] bindE_def)

text \<open>Total correctness of a loop from an invariant that the body keeps without failing.\<close>

lemma forLoop_total:
  assumes "I i s"
    and "\<And>j t. i \<le> j \<Longrightarrow> j < n \<Longrightarrow> I j t \<Longrightarrow> \<exists>t'. body j t = Inr t' \<and> I (j + 1) t'"
  shows "\<exists>s'. forLoop i n body s = Inr s' \<and> I (max i n) s'"
  using assms
proof (induction i n body s rule: forLoop.induct)
  case (1 i n body s)
  show ?case
  proof (cases "i < n")
    case True
    from "1.prems"(2) [of i s] True "1.prems"(1)
    obtain t where t: "body i s = Inr t" "I (i + 1) t" by auto
    have "\<exists>s'. forLoop (i + 1) n body t = Inr s' \<and> I (max (i + 1) n) s'"
    proof (rule "1.IH" [OF True t(1) t(2)])
      fix j u
      assume "i + 1 \<le> j" "j < n" "I j u"
      then show "\<exists>t'. body j u = Inr t' \<and> I (j + 1) t'"
        using "1.prems"(2) [of j u] by simp
    qed
    moreover have "max (i + 1) n = max i n" using True by simp
    ultimately show ?thesis using True t by (simp add: forLoop_step)
  next
    case False
    then show ?thesis using "1.prems"(1) by (simp add: forLoop_done max_def)
  qed
qed

text \<open>Partial correctness: an invariant kept by every step that returns.\<close>

lemma forLoop_partial:
  assumes "forLoop i n body s = Inr s'" and "I i s"
    and "\<And>j t t'. i \<le> j \<Longrightarrow> j < n \<Longrightarrow> I j t \<Longrightarrow> body j t = Inr t' \<Longrightarrow> I (j + 1) t'"
  shows "I (max i n) s'"
  using assms
proof (induction i n body s rule: forLoop.induct)
  case (1 i n body s)
  show ?case
  proof (cases "i < n")
    case True
    with "1.prems"(1) obtain t where t: "body i s = Inr t" "forLoop (i + 1) n body t = Inr s'"
      by (auto simp: forLoop_step bindE_eq_Inr)
    have "I (i + 1) t" using "1.prems"(3) [of i s t] True "1.prems"(2) t(1) by simp
    have "I (max (i + 1) n) s'"
    proof (rule "1.IH" [OF True t(1) t(2) \<open>I (i + 1) t\<close>])
      fix j u u'
      assume "i + 1 \<le> j" "j < n" "I j u" "body j u = Inr u'"
      then show "I (j + 1) u'" using "1.prems"(3) [of j u u'] by simp
    qed
    moreover have "max (i + 1) n = max i n" using True by simp
    ultimately show ?thesis by simp
  next
    case False
    then show ?thesis using "1.prems"(1,2) by (simp add: forLoop_done max_def)
  qed
qed

text \<open>A failure of the loop is a failure of one of its steps.\<close>

lemma forLoop_failure:
  assumes "forLoop i n body s = Inl e"
  shows "\<exists>j t. i \<le> j \<and> j < n \<and> body j t = Inl e"
  using assms
proof (induction i n body s rule: forLoop.induct)
  case (1 i n body s)
  show ?case
  proof (cases "i < n")
    case True
    show ?thesis
    proof (cases "body i s")
      case (Inl e')
      with "1.prems" True have "e' = e" by (simp add: forLoop_step)
      with Inl True show ?thesis by auto
    next
      case (Inr t)
      with "1.prems" True have "forLoop (i + 1) n body t = Inl e" by (simp add: forLoop_step)
      from "1.IH" [OF True Inr this] obtain j u where "i + 1 \<le> j" "j < n" "body j u = Inl e" by auto
      then show ?thesis by (intro exI [of _ j] exI [of _ u]) simp
    qed
  next
    case False
    with "1.prems" show ?thesis by (simp add: forLoop_done)
  qed
qed

text \<open>The state after the first iterations: a loop is its prefix followed by the rest.\<close>

lemma forLoop_split:
  assumes "i \<le> k" "k \<le> n"
  shows "forLoop i n body s = bindE (forLoop i k body s) (forLoop k n body)"
  using assms
proof (induction i k body s rule: forLoop.induct)
  case (1 i k body s)
  show ?case
  proof (cases "i < k")
    case True
    then have "i < n" using "1.prems" by simp
    show ?thesis
    proof (cases "body i s")
      case (Inl e)
      then show ?thesis using True \<open>i < n\<close> by (simp add: forLoop_step)
    next
      case (Inr t)
      have "forLoop (i + 1) n body t = bindE (forLoop (i + 1) k body t) (forLoop k n body)"
        using "1.IH" [OF True Inr] True "1.prems" by simp
      then show ?thesis using True \<open>i < n\<close> Inr by (simp add: forLoop_step)
    qed
  next
    case False
    then have "i = k" using "1.prems" by simp
    then show ?thesis by (simp add: forLoop_done)
  qed
qed

section \<open>The design matrix holds the monomials\<close>

lemma nTermsOf_nonneg: "0 \<le> order \<Longrightarrow> 0 \<le> nTermsOf order"
  unfolding nTermsOf_def by (simp add: pos_imp_zdiv_nonneg_iff)

lemma indexToPQ_nonneg:
  assumes "0 \<le> order" "0 \<le> j" "j < nTermsOf order"
  shows "0 \<le> fst (indexToPQ j order)" "0 \<le> snd (indexToPQ j order)"
    "fst (indexToPQ j order) + snd (indexToPQ j order) < order"
  using indexToPQ_in_triangle [of order j] assms by (simp_all add: nTermsOf_def)

lemma pow_nat: "0 \<le> n \<Longrightarrow> pow x n = x ^ nat n"
  by (simp add: pow_def power_int_def)

lemma Zero_Inr: "0 \<le> r \<Longrightarrow> 0 \<le> c \<Longrightarrow> Zero r c = Inr (zeroMatrix r c)"
  by (simp add: Zero_def)

text \<open>One cell of the design matrix: the step of the inner loop.\<close>

lemma cMatrixEntry_step:
  assumes "0 \<le> order" "0 \<le> j" "j < nTermsOf order"
    and "0 \<le> i" "i < int (length axis1)" "i < int (length axis2)"
    and "i < rows C" "cols C = nTermsOf order"
  shows "cMatrixEntry axis1 axis2 order i j C =
    Inr (C\<lparr>coeff := (coeff C)(i := (coeff C i)(j :=
      (axis1 ! nat i) ^ nat (fst (indexToPQ j order)) * (axis2 ! nat i) ^ nat (snd (indexToPQ j order))))\<rparr>)"
  using assms indexToPQ_nonneg [OF assms(1,2,3)]
  by (simp add: cMatrixEntry_def case_prod_beta vecAt_def setCoeff_def pow_nat)

lemma cMatrix_row:
  fixes axis1 :: "('a :: {zero, inverse, power}) list"
  assumes "0 \<le> order" "0 \<le> i" "i < int (length axis1)" "i < int (length axis2)"
    and "i < rows C0" "cols C0 = nTermsOf order"
  shows "\<exists>C. forLoop 0 (nTermsOf order) (cMatrixEntry axis1 axis2 order i) C0 = Inr C
    \<and> rows C = rows C0 \<and> cols C = cols C0
    \<and> coeff C = (\<lambda>i' j'. if i' = i \<and> 0 \<le> j' \<and> j' < nTermsOf order
        then (axis1 ! nat i') ^ nat (fst (indexToPQ j' order)) * (axis2 ! nat i') ^ nat (snd (indexToPQ j' order))
        else coeff C0 i' j')"
proof -
  define f where "f = (\<lambda>i' j'. (axis1 ! nat i') ^ nat (fst (indexToPQ j' order))
      * (axis2 ! nat i') ^ nat (snd (indexToPQ j' order)))"
  define I where "I = (\<lambda>(j::int) (C::'a matrix). rows C = rows C0 \<and> cols C = cols C0
      \<and> coeff C = (\<lambda>i' j'. if i' = i \<and> 0 \<le> j' \<and> j' < j then f i' j' else coeff C0 i' j'))"
  have start: "I 0 C0" by (auto simp: I_def fun_eq_iff)
  have step: "\<exists>t'. cMatrixEntry axis1 axis2 order i j t = Inr t' \<and> I (j + 1) t'"
    if "0 \<le> j" "j < nTermsOf order" "I j t" for j t
  proof -
    have t: "rows t = rows C0" "cols t = cols C0"
      "coeff t = (\<lambda>i' j'. if i' = i \<and> 0 \<le> j' \<and> j' < j then f i' j' else coeff C0 i' j')"
      using that(3) by (simp_all add: I_def)
    have "cMatrixEntry axis1 axis2 order i j t = Inr (t\<lparr>coeff := (coeff t)(i := (coeff t i)(j := f i j))\<rparr>)"
      unfolding f_def using assms that(1,2) t(1,2) by (intro cMatrixEntry_step) simp_all
    moreover have "(coeff t)(i := (coeff t i)(j := f i j))
        = (\<lambda>i' j'. if i' = i \<and> 0 \<le> j' \<and> j' < j + 1 then f i' j' else coeff C0 i' j')"
      using that(1) by (auto simp: t(3) fun_eq_iff)
    ultimately show ?thesis using t(1,2) by (simp add: I_def)
  qed
  from forLoop_total [of I 0 C0 "nTermsOf order" "cMatrixEntry axis1 axis2 order i", OF start step]
  obtain C where "forLoop 0 (nTermsOf order) (cMatrixEntry axis1 axis2 order i) C0 = Inr C"
    "I (max 0 (nTermsOf order)) C" by blast
  moreover have "max 0 (nTermsOf order) = nTermsOf order" using nTermsOf_nonneg [OF assms(1)] by simp
  ultimately show ?thesis unfolding I_def f_def by auto
qed

lemma calculateCMatrix_returns:
  fixes axis1 :: "('a :: {zero, inverse, power}) list"
  assumes "0 \<le> order" "length axis1 \<le> length axis2"
  shows "\<exists>C. calculateCMatrix axis1 axis2 order = Inr C
    \<and> rows C = int (length axis1) \<and> cols C = nTermsOf order
    \<and> coeff C = (\<lambda>i j. if 0 \<le> i \<and> i < int (length axis1) \<and> 0 \<le> j \<and> j < nTermsOf order
        then (axis1 ! nat i) ^ nat (fst (indexToPQ j order)) * (axis2 ! nat i) ^ nat (snd (indexToPQ j order))
        else 0)"
proof -
  define n where "n = int (length axis1)"
  define f where "f = (\<lambda>i' j'. (axis1 ! nat i') ^ nat (fst (indexToPQ j' order))
      * (axis2 ! nat i') ^ nat (snd (indexToPQ j' order)))"
  define J where "J = (\<lambda>(i::int) (C::'a matrix). rows C = n \<and> cols C = nTermsOf order
      \<and> coeff C = (\<lambda>i' j'. if 0 \<le> i' \<and> i' < i \<and> 0 \<le> j' \<and> j' < nTermsOf order then f i' j' else 0))"
  have start: "J 0 (zeroMatrix n (nTermsOf order))" by (auto simp: J_def zeroMatrix_def fun_eq_iff)
  have z: "Zero n (nTermsOf order) = Inr (zeroMatrix n (nTermsOf order) :: 'a matrix)"
    using nTermsOf_nonneg [OF assms(1)] by (simp add: Zero_Inr n_def)
  have step: "\<exists>t'. forLoop 0 (nTermsOf order) (cMatrixEntry axis1 axis2 order i) t = Inr t' \<and> J (i + 1) t'"
    if "0 \<le> i" "i < n" "J i t" for i t
  proof -
    have t: "rows t = n" "cols t = nTermsOf order"
      "coeff t = (\<lambda>i' j'. if 0 \<le> i' \<and> i' < i \<and> 0 \<le> j' \<and> j' < nTermsOf order then f i' j' else 0)"
      using that(3) by (simp_all add: J_def)
    have "i < int (length axis2)" using that(2) assms(2) by (simp add: n_def)
    from cMatrix_row [OF assms(1) that(1) _ this, where ?C0.0 = t] that(2) t(1,2)
    obtain C where C: "forLoop 0 (nTermsOf order) (cMatrixEntry axis1 axis2 order i) t = Inr C"
      "rows C = rows t" "cols C = cols t"
      "coeff C = (\<lambda>i' j'. if i' = i \<and> 0 \<le> j' \<and> j' < nTermsOf order then f i' j' else coeff t i' j')"
      unfolding f_def n_def by auto
    have "coeff C = (\<lambda>i' j'. if 0 \<le> i' \<and> i' < i + 1 \<and> 0 \<le> j' \<and> j' < nTermsOf order then f i' j' else 0)"
      using that(1) by (auto simp: C(4) t(3) fun_eq_iff)
    with C t show ?thesis by (simp add: J_def)
  qed
  from forLoop_total [of J 0 "zeroMatrix n (nTermsOf order)" n
      "\<lambda>i. forLoop 0 (nTermsOf order) (cMatrixEntry axis1 axis2 order i)", OF start step]
  obtain C where "forLoop 0 n (\<lambda>i. forLoop 0 (nTermsOf order) (cMatrixEntry axis1 axis2 order i))
      (zeroMatrix n (nTermsOf order)) = Inr C" "J (max 0 n) C" by blast
  moreover have "max 0 n = n" by (simp add: n_def)
  ultimately show ?thesis
    using z unfolding J_def f_def calculateCMatrix_def n_def Let_def by (auto simp: bindE_simps)
qed

text \<open>
  Claim C4. For sample vectors \<open>x\<close>, \<open>y\<close> of one length \<open>n\<close> and an order from 2 to 9,
  \<open>calculateCMatrix\<close> returns a matrix of \<open>n\<close> rows and \<open>T = order * (order + 1) / 2\<close> columns
  whose entry \<open>(i, j)\<close> is \<open>x\<^sub>i ^ p * y\<^sub>i ^ q\<close> with \<open>(p, q) = indexToPQ j order\<close>; at order 2 a
  sample \<open>(2, 3)\<close> gives the row \<open>[1, 3, 2]\<close>.
\<close>

theorem calculateCMatrix_entries:
  fixes x y :: "real list"
  assumes "2 \<le> order" and "order \<le> 9" and "length x = length y"
  shows "\<exists>C. calculateCMatrix x y order = Inr C
      \<and> rows C = int (length x) \<and> cols C = order * (order + 1) div 2
      \<and> (\<forall>i < length x. \<forall>j < nat (order * (order + 1) div 2).
            coeff C (int i) (int j)
              = (x ! i) ^ nat (fst (indexToPQ (int j) order)) * (y ! i) ^ nat (snd (indexToPQ (int j) order)))
      \<and> (\<forall>i < length x. order = 2 \<and> x ! i = 2 \<and> y ! i = 3
            \<longrightarrow> map (coeff C (int i)) [0, 1, 2] = [1, 3, 2])"
proof -
  have o: "0 \<le> order" using assms(1) by simp
  from calculateCMatrix_returns [OF o, of x y] assms(3)
  obtain C where C: "calculateCMatrix x y order = Inr C" "rows C = int (length x)"
    "cols C = nTermsOf order"
    "coeff C = (\<lambda>i j. if 0 \<le> i \<and> i < int (length x) \<and> 0 \<le> j \<and> j < nTermsOf order
        then (x ! nat i) ^ nat (fst (indexToPQ j order)) * (y ! nat i) ^ nat (snd (indexToPQ j order))
        else 0)"
    by auto
  have entries: "coeff C (int i) (int j)
      = (x ! i) ^ nat (fst (indexToPQ (int j) order)) * (y ! i) ^ nat (snd (indexToPQ (int j) order))"
    if "i < length x" "j < nat (order * (order + 1) div 2)" for i j
    using that by (simp add: C(4) nTermsOf_def)
  have row: "map (coeff C (int i)) [0, 1, 2] = [1, 3, 2]"
    if "i < length x" "order = 2" "x ! i = 2" "y ! i = 3" for i
    using that entries [of i 0] entries [of i 1] entries [of i 2]
    by (simp add: indexToPQ_def indexToPQ_loop.simps)
  show ?thesis
    using C(1,2,3) entries row by (auto simp: nTermsOf_def)
qed

text \<open>The one sample \<open>(2, 3)\<close> at order 2.\<close>

theorem calculateCMatrix_entries_witness:
  "\<exists>C. calculateCMatrix [2 :: real] [3] 2 = Inr C \<and> rows C = 1 \<and> cols C = 3
      \<and> map (coeff C 0) [0, 1, 2] = [1, 3, 2]"
  using calculateCMatrix_entries [of 2 "[2]" "[3]"] by auto

lemma cMatrixEntry_failure:
  "cMatrixEntry axis1 axis2 order i j C = Inl e \<Longrightarrow> \<exists>s. e = AssertionFailed s"
  by (auto simp: cMatrixEntry_def case_prod_beta bindE_eq_Inl vecAt_def setCoeff_def split: if_splits)

lemma calculateCMatrix_failure:
  fixes axis1 :: "('a :: {zero, inverse, power}) list"
  assumes "calculateCMatrix axis1 axis2 order = Inl e"
  shows "\<exists>s. e = AssertionFailed s"
proof -
  from assms consider "Zero (int (length axis1)) (nTermsOf order) = (Inl e :: failure + 'a matrix)"
    | C where "forLoop 0 (int (length axis1))
        (\<lambda>i. forLoop 0 (nTermsOf order) (cMatrixEntry axis1 axis2 order i)) C = Inl e"
    unfolding calculateCMatrix_def Let_def bindE_eq_Inl by blast
  then show ?thesis
  proof cases
    case 1
    then show ?thesis by (auto simp: Zero_def split: if_splits)
  next
    case 2
    then obtain i t where "forLoop 0 (nTermsOf order) (cMatrixEntry axis1 axis2 order i) t = Inl e"
      by (blast dest: forLoop_failure)
    then obtain j u where "cMatrixEntry axis1 axis2 order i j u = Inl e"
      by (blast dest: forLoop_failure)
    then show ?thesis by (rule cMatrixEntry_failure)
  qed
qed

lemma matrix_eqI:
  fixes A B :: "'a matrix"
  shows "rows A = rows B \<Longrightarrow> cols A = cols B \<Longrightarrow> coeff A = coeff B \<Longrightarrow> A = B"
  by simp

text \<open>
  Claim C5, as the code has it. \<open>calculateCMatrix\<close> never compares the two lengths and
  has no invalid-argument error: for an order from 2 to 9 and \<open>y\<close> at least as long as \<open>x\<close>
  it returns the matrix of \<open>x\<close> and the first entries of \<open>y\<close>, the number of rows taken from
  \<open>x\<close> alone; and whatever the arguments, its only failure is a failed assertion. It is a
  function of its three arguments: it reads and writes nothing else.
\<close>

theorem calculateCMatrix_unchecked_lengths:
  fixes x y :: "real list"
  shows "(2 \<le> order \<and> order \<le> 9 \<and> length x \<le> length y \<longrightarrow>
      (\<exists>C. calculateCMatrix x y order = Inr C
         \<and> rows C = int (length x) \<and> cols C = order * (order + 1) div 2
         \<and> calculateCMatrix x (take (length x) y) order = Inr C))
   \<and> (\<forall>e. calculateCMatrix x y order = Inl e \<longrightarrow> (\<exists>s. e = AssertionFailed s))"
proof (intro conjI impI allI)
  assume a: "2 \<le> order \<and> order \<le> 9 \<and> length x \<le> length y"
  then have o: "0 \<le> order" by simp
  from calculateCMatrix_returns [OF o, of x y] a
  obtain C where C: "calculateCMatrix x y order = Inr C" "rows C = int (length x)"
    "cols C = nTermsOf order"
    "coeff C = (\<lambda>i j. if 0 \<le> i \<and> i < int (length x) \<and> 0 \<le> j \<and> j < nTermsOf order
        then (x ! nat i) ^ nat (fst (indexToPQ j order)) * (y ! nat i) ^ nat (snd (indexToPQ j order))
        else 0)"
    by auto
  from calculateCMatrix_returns [OF o, of x "take (length x) y"] a
  obtain D where D: "calculateCMatrix x (take (length x) y) order = Inr D" "rows D = int (length x)"
    "cols D = nTermsOf order"
    "coeff D = (\<lambda>i j. if 0 \<le> i \<and> i < int (length x) \<and> 0 \<le> j \<and> j < nTermsOf order
        then (x ! nat i) ^ nat (fst (indexToPQ j order)) * (take (length x) y ! nat i) ^ nat (snd (indexToPQ j order))
        else 0)"
    by auto
  have "coeff D = coeff C" by (auto simp: C(4) D(4) fun_eq_iff)
  then have "D = C" using C(2,3) D(2,3) by (intro matrix_eqI) simp_all
  then show "\<exists>C. calculateCMatrix x y order = Inr C
         \<and> rows C = int (length x) \<and> cols C = order * (order + 1) div 2
         \<and> calculateCMatrix x (take (length x) y) order = Inr C"
    using C D by (simp add: nTermsOf_def)
next
  fix e assume "calculateCMatrix x y order = Inl e"
  then show "\<exists>s. e = AssertionFailed s" by (rule calculateCMatrix_failure)
qed

text \<open>
  A longer \<open>y\<close> gives the matrix of its first entry; a shorter \<open>y\<close> fails on the index.
\<close>

theorem calculateCMatrix_unchecked_lengths_witness:
  "(\<exists>C. calculateCMatrix [2 :: real] [3, 4] 2 = Inr C \<and> rows C = 1 \<and> cols C = 3
      \<and> calculateCMatrix [2] [3] 2 = Inr C)
   \<and> calculateCMatrix [2 :: real, 5] [3] 2 = Inl (AssertionFailed ''index >= 0 && index < size()'')"
proof -
  have "calculateCMatrix [2 :: real, 5] [3] 2 = Inl (AssertionFailed ''index >= 0 && index < size()'')"
    by (simp add: calculateCMatrix_def nTermsOf_def forLoop.simps cMatrixEntry_def indexToPQ_def
        indexToPQ_loop.simps vecAt_def setCoeff_def Zero_def zeroMatrix_def pow_def)
  then show ?thesis
    using calculateCMatrix_unchecked_lengths [of 2 "[2]" "[3, 4]"] by simp
qed

text \<open>
  The claim as the spec states it fails: vectors of lengths 1 and 2 give no error but the
  row \<open>[1, 3, 2]\<close>.
\<close>

theorem calculateCMatrix_length_counterexample:
  "length [2::real] \<noteq> length [3, 4::real]
   \<and> \<not> isl (calculateCMatrix [2 :: real] [3, 4] 2)
   \<and> map (coeff (projr (calculateCMatrix [2 :: real] [3, 4] 2)) 0) [0, 1, 2] = [1, 3, 2]"
  by (simp add: calculateCMatrix_def nTermsOf_def forLoop.simps cMatrixEntry_def indexToPQ_def
      indexToPQ_loop.simps vecAt_def setCoeff_def Zero_def zeroMatrix_def pow_def)

section \<open>Which failures the fit can end in\<close>

lemma isException_simps [simp]:
  "isException (OutOfRangeError s args)" "isException (LengthError s)"
  "\<not> isException (AssertionFailed s)" "\<not> isException NonFinite"
  by (simp_all add: isException_def)




















section \<open>The checks of the constructor\<close>

lemma constructorSetup_cases:
  "constructorSetup h ms lin order box grid =
     (if order < - 1 then Inl (AssertionFailed ''rows >= 0 && cols >= 0'')
      else if order < 2 then Inl (OutOfRangeError ''SIP must be at least 2nd order'' [])
      else if 9 < order + 1 then
        Inl (OutOfRangeError ''SIP forward order %d exceeds the convention limit of 9'' [order + 1])
      else if 9 < order + 2 then
        Inl (OutOfRangeError ''SIP reverse order %d exceeds the convention limit of 9'' [order + 2])
      else if int (length ms) < order + 1 then
        Inl (LengthError ''Number of matches less than requested sip order'')
      else Inr (\<lparr>matches = ms, bbox = guessBBox ms box,
                  ngrid = (if grid \<le> 0 then 5 * (order + 1) else grid),
                  linearWcs = nextFree h, sipOrder = order + 1, reverseSipOrder = order + 2,
                  sipA = zeroMatrix (order + 1) (order + 1), sipB = zeroMatrix (order + 1) (order + 1),
                  sipAp = zeroMatrix (order + 2) (order + 2), sipBp = zeroMatrix (order + 2) (order + 2),
                  newWcs = None\<rparr>,
                h\<lparr>cells := (cells h)(nextFree h := Some lin), nextFree := nextFree h + 1\<rparr>))"
  by (simp add: constructorSetup_def newWcsObject_def Let_def Zero_def)








section \<open>The stages of the constructor\<close>

text \<open>The stages of a forward fit that returns.\<close>

lemma calculateForwardMatrices_Inr:
  "calculateForwardMatrices ext (self, h) = Inr (self', h') \<longleftrightarrow>
     (\<exists>lin mu nu nrm refined CDinv A B.
        cells h (linearWcs self) = Some lin
      \<and> forwardSolve ext lin (matches self) (sipOrder self) = Inr (mu, nu, nrm)
      \<and> refineLinear lin mu nu nrm (sipOrder self) = Inr (refined, CDinv)
      \<and> forLoop 1 (int (length mu)) (forwardSipTerm mu nu CDinv nrm (sipOrder self))
            (sipA self, sipB self) = Inr (A, B)
      \<and> self' = self\<lparr>linearWcs := nextFree h, sipA := A, sipB := B\<rparr>
      \<and> h' = h\<lparr>cells := (cells h)(nextFree h := Some refined), nextFree := nextFree h + 1\<rparr>)"
  unfolding calculateForwardMatrices_def Let_def
  by (auto simp: bindE_eq_Inr newWcsObject_def split: option.splits)



section \<open>The guessed validity region\<close>

lemma truncToInt_nonneg: "0 \<le> x \<Longrightarrow> truncToInt x = \<lfloor>x\<rfloor>"
  by (simp add: truncToInt_def)

subsection \<open>Rounding\<close>

lemma roundHalfEven_nonneg: "0 \<le> x \<Longrightarrow> 0 \<le> roundHalfEven x"
  by (auto simp: roundHalfEven_def Let_def)

lemma roundHalfEven_of_int [simp]: "roundHalfEven (of_int n) = n"
  by (simp add: roundHalfEven_def)

lemma roundHalfEven_numeral [simp]: "roundHalfEven (numeral n) = numeral n"
  using roundHalfEven_of_int [of "numeral n"] by simp

lemma powi_pos: "0 < (2::real) powi k"
  by (simp add: zero_less_power_int)

lemma roundToPrecision_nonneg:
  assumes "0 \<le> x"
  shows "0 \<le> roundToPrecision p x"
proof (cases "x = 0")
  case True
  then show ?thesis by (simp add: roundToPrecision_def)
next
  case False
  define u where "u = (2::real) powi (binade x - int p + 1)"
  have u: "0 < u" unfolding u_def by (rule powi_pos)
  then have "0 \<le> x / u" using assms by simp
  then have "0 \<le> roundHalfEven (x / u)" by (rule roundHalfEven_nonneg)
  then have "0 \<le> of_int (roundHalfEven (x / u)) * u" using u by simp
  then show ?thesis using False by (simp add: roundToPrecision_def u_def Let_def)
qed

text \<open>The exponent of a value between two consecutive powers of 2.\<close>

lemma binade_eq:
  assumes "2 powi e \<le> \<bar>x\<bar>" "\<bar>x\<bar> < 2 powi (e + 1)"
  shows "binade x = e"
proof -
  have pos: "0 < \<bar>x\<bar>" using assms(1) powi_pos [of e] by linarith
  have p: "(2::real) powi k = 2 powr real_of_int k" for k
    by (simp add: powr_real_of_int')
  have "real_of_int e \<le> log 2 \<bar>x\<bar>"
    using assms(1) pos by (simp add: le_log_iff p)
  moreover have "log 2 \<bar>x\<bar> < real_of_int e + 1"
    using assms(2) pos by (simp add: log_less_iff p)
  ultimately show ?thesis unfolding binade_def by linarith
qed

lemma roundToPrecision_eq:
  assumes "2 powi e \<le> \<bar>x\<bar>" "\<bar>x\<bar> < 2 powi (e + 1)"
  shows "roundToPrecision p x = of_int (roundHalfEven (x / 2 powi (e - int p + 1))) * 2 powi (e - int p + 1)"
proof -
  have "0 < \<bar>x\<bar>" using assms(1) powi_pos [of e] by linarith
  then have "x \<noteq> 0" by auto
  then show ?thesis by (simp add: roundToPrecision_def binade_eq [OF assms] Let_def)
qed

lemma roundHalfEven_eq:
  assumes "of_int m - 1 / 2 < x" "x < of_int m + 1 / 2"
  shows "roundHalfEven x = m"
proof -
  have "\<lfloor>x\<rfloor> = m \<or> \<lfloor>x\<rfloor> = m - 1" using assms by linarith
  then show ?thesis
  proof
    assume f: "\<lfloor>x\<rfloor> = m"
    then have "x - of_int \<lfloor>x\<rfloor> < 1 / 2" using assms(2) by simp
    then show ?thesis by (simp add: roundHalfEven_def Let_def f)
  next
    assume f: "\<lfloor>x\<rfloor> = m - 1"
    then have "1 / 2 < x - of_int \<lfloor>x\<rfloor>" using assms(1) by simp
    then show ?thesis by (simp add: roundHalfEven_def Let_def f)
  qed
qed

lemma borderFraction_nonneg: "0 \<le> borderFraction n"
  unfolding borderFraction_def toFloat_def toDouble_def
  by (intro roundToPrecision_nonneg divide_nonneg_nonneg real_sqrt_ge_zero) simp_all

lemma borderPixels_floor:
  assumes "0 \<le> f" "0 \<le> w"
  shows "borderPixels f w = \<lfloor>toFloat (f * toFloat (real_of_int w))\<rfloor>" "0 \<le> borderPixels f w"
proof -
  have "0 \<le> toFloat (real_of_int w)" using assms(2) by (simp add: toFloat_def roundToPrecision_nonneg)
  then have "0 \<le> toFloat (f * toFloat (real_of_int w))"
    using assms(1) by (simp add: toFloat_def roundToPrecision_nonneg)
  then show "borderPixels f w = \<lfloor>toFloat (f * toFloat (real_of_int w))\<rfloor>" "0 \<le> borderPixels f w"
    by (simp_all add: borderPixels_def truncToInt_nonneg)
qed

subsection \<open>The bounding box\<close>

lemma includeAxis_minmax:
  "lo \<le> hi \<Longrightarrow> includeAxis (lo, hi) x = (min lo x, max hi x)"
  by (auto simp: includeAxis_def)

text \<open>A box that holds a pixel: both dimensions positive.\<close>

lemma includePoint_nonempty:
  assumes "1 \<le> getWidth b" "1 \<le> getHeight b"
  shows "getMinX (includePoint b pt) = min (getMinX b) (fst pt)"
    "getMaxX (includePoint b pt) = max (getMaxX b) (fst pt)"
    "getMinY (includePoint b pt) = min (getMinY b) (snd pt)"
    "getMaxY (includePoint b pt) = max (getMaxY b) (snd pt)"
    "1 \<le> getWidth (includePoint b pt)" "1 \<le> getHeight (includePoint b pt)"
proof -
  have ne: "\<not> isEmpty b" using assms by (auto simp: isEmpty_def getWidth_def)
  have x: "getMinX b \<le> getMaxX b" using assms by (simp add: getMinX_def getMaxX_def getWidth_def)
  have y: "getMinY b \<le> getMaxY b" using assms by (simp add: getMinY_def getMaxY_def getHeight_def)
  have eq: "includePoint b pt =
      \<lparr>boxMin = (min (getMinX b) (fst pt), min (getMinY b) (snd pt)),
       boxDim = (1 + max (getMaxX b) (fst pt) - min (getMinX b) (fst pt),
                 1 + max (getMaxY b) (snd pt) - min (getMinY b) (snd pt))\<rparr>"
    using ne by (simp add: includePoint_def Let_def includeAxis_minmax [OF x] includeAxis_minmax [OF y])
  show "getMinX (includePoint b pt) = min (getMinX b) (fst pt)"
    "getMaxX (includePoint b pt) = max (getMaxX b) (fst pt)"
    "getMinY (includePoint b pt) = min (getMinY b) (snd pt)"
    "getMaxY (includePoint b pt) = max (getMaxY b) (snd pt)"
    by (simp_all add: eq getMinX_def getMaxX_def getMinY_def getMaxY_def)
  show "1 \<le> getWidth (includePoint b pt)" "1 \<le> getHeight (includePoint b pt)"
    using x y by (simp_all add: eq getWidth_def getHeight_def)
qed

lemma fold_includePoint:
  assumes "1 \<le> getWidth b" "1 \<le> getHeight b"
  shows "getMinX (fold (\<lambda>pt b. includePoint b pt) pts b) = Min (insert (getMinX b) (fst ` set pts))
    \<and> getMaxX (fold (\<lambda>pt b. includePoint b pt) pts b) = Max (insert (getMaxX b) (fst ` set pts))
    \<and> getMinY (fold (\<lambda>pt b. includePoint b pt) pts b) = Min (insert (getMinY b) (snd ` set pts))
    \<and> getMaxY (fold (\<lambda>pt b. includePoint b pt) pts b) = Max (insert (getMaxY b) (snd ` set pts))
    \<and> 1 \<le> getWidth (fold (\<lambda>pt b. includePoint b pt) pts b)
    \<and> 1 \<le> getHeight (fold (\<lambda>pt b. includePoint b pt) pts b)"
  using assms
proof (induction pts arbitrary: b)
  case Nil
  then show ?case by simp
next
  case (Cons pt pts)
  note ip = includePoint_nonempty [OF Cons.prems, of pt]
  have m: "Min (insert (min a c) S) = Min (insert a (insert c S))"
    "Max (insert (max a c) S) = Max (insert a (insert c S))" if "finite S" for a c :: int and S
    using that by (cases "S = {}"; simp add: min.assoc max.assoc)+
  show ?case
    using Cons.IH [OF ip(5,6)] by (simp add: ip(1-4) m)
qed

lemma fold_includePoint_empty:
  assumes "isEmpty b" "pts \<noteq> []"
  shows "getMinX (fold (\<lambda>pt b. includePoint b pt) pts b) = Min (fst ` set pts)
    \<and> getMaxX (fold (\<lambda>pt b. includePoint b pt) pts b) = Max (fst ` set pts)
    \<and> getMinY (fold (\<lambda>pt b. includePoint b pt) pts b) = Min (snd ` set pts)
    \<and> getMaxY (fold (\<lambda>pt b. includePoint b pt) pts b) = Max (snd ` set pts)
    \<and> 1 \<le> getWidth (fold (\<lambda>pt b. includePoint b pt) pts b)
    \<and> 1 \<le> getHeight (fold (\<lambda>pt b. includePoint b pt) pts b)"
proof -
  from assms(2) obtain pt rest where pts: "pts = pt # rest" by (cases pts) auto
  define b0 where "b0 = includePoint b pt"
  have b0: "b0 = \<lparr>boxMin = pt, boxDim = (1, 1)\<rparr>" using assms(1) by (simp add: b0_def includePoint_def)
  have d: "1 \<le> getWidth b0" "1 \<le> getHeight b0" by (simp_all add: b0 getWidth_def getHeight_def)
  have g: "getMinX b0 = fst pt" "getMaxX b0 = fst pt" "getMinY b0 = snd pt" "getMaxY b0 = snd pt"
    by (simp_all add: b0 getMinX_def getMaxX_def getMinY_def getMaxY_def)
  show ?thesis using fold_includePoint [OF d, of rest] by (simp add: pts g flip: b0_def)
qed

lemma grow_nonempty:
  assumes "1 \<le> getWidth b" "1 \<le> getHeight b" "0 \<le> fst buffer" "0 \<le> snd buffer"
  shows "getMinX (grow b buffer) = getMinX b - fst buffer"
    "getMaxX (grow b buffer) = getMaxX b + fst buffer"
    "getMinY (grow b buffer) = getMinY b - snd buffer"
    "getMaxY (grow b buffer) = getMaxY b + snd buffer"
    "getWidth (grow b buffer) = getWidth b + 2 * fst buffer"
    "getHeight (grow b buffer) = getHeight b + 2 * snd buffer"
  using assms
  by (auto simp: grow_def isEmpty_def Let_def getMinX_def getMaxX_def getMinY_def getMaxY_def
      getWidth_def getHeight_def)

lemma guessBBox_empty:
  assumes "isEmpty box" "ms \<noteq> []"
  defines "xs \<equiv> (\<lambda>m. truncToInt (srcX m)) ` set ms"
    and "ys \<equiv> (\<lambda>m. truncToInt (srcY m)) ` set ms"
  defines "width \<equiv> Max xs - Min xs + 1" and "height \<equiv> Max ys - Min ys + 1"
  defines "borderFrac \<equiv> toFloat (toDouble (1 / toDouble (sqrt (toDouble (real (length ms))))))"
  defines "borderX \<equiv> \<lfloor>toFloat (borderFrac * toFloat (real_of_int width))\<rfloor>"
    and "borderY \<equiv> \<lfloor>toFloat (borderFrac * toFloat (real_of_int height))\<rfloor>"
  shows "getMinX (guessBBox ms box) = Min xs - borderX" "getMaxX (guessBBox ms box) = Max xs + borderX"
    "getMinY (guessBBox ms box) = Min ys - borderY" "getMaxY (guessBBox ms box) = Max ys + borderY"
    "0 \<le> borderX" "0 \<le> borderY"
proof -
  define pts where "pts = map (\<lambda>m. (truncToInt (srcX m), truncToInt (srcY m))) ms"
  define b1 where "b1 = fold (\<lambda>pt b. includePoint b pt) pts box"
  have fold_eq: "fold (\<lambda>m b. includePoint b (truncToInt (srcX m), truncToInt (srcY m))) ms box = b1"
    by (simp add: b1_def pts_def fold_map comp_def)
  have "pts \<noteq> []" using assms(2) by (simp add: pts_def)
  from fold_includePoint_empty [OF assms(1) this]
  have b1: "getMinX b1 = Min xs" "getMaxX b1 = Max xs" "getMinY b1 = Min ys" "getMaxY b1 = Max ys"
    "1 \<le> getWidth b1" "1 \<le> getHeight b1"
    by (simp_all add: b1_def xs_def ys_def pts_def image_image)
  have w: "getWidth b1 = width" "getHeight b1 = height"
    using b1(1-4) by (simp_all add: width_def height_def getWidth_def getHeight_def
        getMinX_def getMaxX_def getMinY_def getMaxY_def)
  have frac: "borderFraction (length ms) = borderFrac" "0 \<le> borderFrac"
    using borderFraction_nonneg [of "length ms"] by (simp_all add: borderFrac_def borderFraction_def)
  have wh: "0 \<le> width" "0 \<le> height" using b1(5,6) w by simp_all
  have border: "borderPixels borderFrac width = borderX" "borderPixels borderFrac height = borderY"
    "0 \<le> borderX" "0 \<le> borderY"
    using borderPixels_floor [OF frac(2) wh(1)] borderPixels_floor [OF frac(2) wh(2)]
    by (simp_all add: borderX_def borderY_def)
  then have g: "0 \<le> fst (borderX, borderY)" "0 \<le> snd (borderX, borderY)" by simp_all
  have eq: "guessBBox ms box = grow b1 (borderX, borderY)"
    using assms(1,2) by (simp add: guessBBox_def fold_eq Let_def w frac(1) border(1,2))
  show "getMinX (guessBBox ms box) = Min xs - borderX" "getMaxX (guessBBox ms box) = Max xs + borderX"
    "getMinY (guessBBox ms box) = Min ys - borderY" "getMaxY (guessBBox ms box) = Max ys + borderY"
    using grow_nonempty [OF b1(5,6) g] by (simp_all add: eq b1(1-4))
  show "0 \<le> borderX" "0 \<le> borderY" by (fact border(3,4))+
qed

subsection \<open>The border of the examples\<close>

lemma sqrt_nine: "sqrt 9 = 3"
  by (rule real_sqrt_unique) simp_all

lemma sqrt_1681: "sqrt 1681 = 41"
  by (rule real_sqrt_unique) simp_all

lemma toDouble_whole: "toDouble 9 = 9" "toDouble 3 = 3" "toDouble 1681 = 1681" "toDouble 41 = 41"
  "toDouble 82 = 82"
  unfolding toDouble_def
  by (subst roundToPrecision_eq [of 3], simp_all add: power_int_minus,
      subst roundToPrecision_eq [of 1], simp_all add: power_int_minus,
      subst roundToPrecision_eq [of 10], simp_all add: power_int_minus,
      subst roundToPrecision_eq [of 5], simp_all add: power_int_minus,
      subst roundToPrecision_eq [of 6], simp_all add: power_int_minus)

lemma toFloat_whole: "toFloat 5 = 5" "toFloat 41 = 41" "toFloat 2943 = 2943"
  unfolding toFloat_def
  by (subst roundToPrecision_eq [of 2], simp_all add: power_int_minus,
      subst roundToPrecision_eq [of 5], simp_all add: power_int_minus,
      subst roundToPrecision_eq [of 11], simp_all add: power_int_minus)

text \<open>The square root of 82 lies within half a unit in the last place of its \<^verbatim>\<open>double\<close>.\<close>

lemma sqrt_82_bounds:
  "10195457283452999 / 1125899906842624 < sqrt 82" "sqrt 82 < 10195457283453001 / 1125899906842624"
  by (rule real_less_rsqrt, simp add: power2_eq_square, rule real_less_lsqrt, simp_all add: power2_eq_square)

lemma toDouble_sqrt_82: "toDouble (sqrt 82) = 1274432160431625 / 140737488355328"
proof -
  have b: "2 powi 3 \<le> \<bar>sqrt 82\<bar>" "\<bar>sqrt 82\<bar> < 2 powi (3 + 1)"
    using sqrt_82_bounds by simp_all
  have "roundHalfEven (sqrt 82 * 562949953421312) = 5097728641726500"
    using sqrt_82_bounds by (intro roundHalfEven_eq) simp_all
  then show ?thesis
    unfolding toDouble_def roundToPrecision_eq [OF b] by (simp add: power_int_minus)
qed

lemma toDouble_inverse_sqrt_82:
  "toDouble (140737488355328 / 1274432160431625) = 7957430074890145 / 72057594037927936"
  unfolding toDouble_def
  by (subst roundToPrecision_eq [of "- 4"]) (simp_all add: power_int_minus roundHalfEven_def Let_def)

lemma toFloat_inverse_sqrt_82:
  "toFloat (7957430074890145 / 72057594037927936) = 14821869 / 134217728"
  unfolding toFloat_def
  by (subst roundToPrecision_eq [of "- 4"]) (simp_all add: power_int_minus roundHalfEven_def Let_def)

text \<open>The product \<open>14821869 / 134217728 * 2943\<close>, just below 325.\<close>

lemma toFloat_up_to_325: "toFloat (43620760467 / 134217728) = 325"
  unfolding toFloat_def
  by (subst roundToPrecision_eq [of 8]) (simp_all add: power_int_minus roundHalfEven_def Let_def)

lemma exact_border_82: "\<lfloor>1 / sqrt 82 * 2943\<rfloor> = (324 :: int)"
proof -
  have "2943 / 325 < sqrt 82" by (rule real_less_rsqrt) (simp add: power2_eq_square)
  moreover have "sqrt 82 < 2943 / 324" by (rule real_less_lsqrt) (simp_all add: power2_eq_square)
  moreover have "0 < sqrt 82" by simp
  ultimately have "324 < 2943 / sqrt 82" "2943 / sqrt 82 < 325"
    by (simp_all add: field_simps)
  then show ?thesis by (simp add: floor_eq_iff)
qed

lemma toDouble_third: "toDouble (1 / 3) = 6004799503160661 / 18014398509481984"
  unfolding toDouble_def
  by (subst roundToPrecision_eq [of "- 2"]) (simp_all add: power_int_minus roundHalfEven_def Let_def)

lemma toFloat_third: "toFloat (6004799503160661 / 18014398509481984) = 11184811 / 33554432"
  unfolding toFloat_def
  by (subst roundToPrecision_eq [of "- 2"]) (simp_all add: power_int_minus roundHalfEven_def Let_def)

text \<open>The products \<open>11184811 / 33554432 * 5\<close> and \<open>3273603 / 134217728 * 41\<close>.\<close>

lemma toFloat_five_thirds: "toFloat (55924055 / 33554432) = 6990507 / 4194304"
  unfolding toFloat_def
  by (subst roundToPrecision_eq [of 0]) (simp_all add: power_int_minus roundHalfEven_def Let_def)

lemma toDouble_41st: "toDouble (1 / 41) = 3515004587215997 / 144115188075855872"
  unfolding toDouble_def
  by (subst roundToPrecision_eq [of "- 6"]) (simp_all add: power_int_minus roundHalfEven_def Let_def)

lemma toFloat_41st: "toFloat (3515004587215997 / 144115188075855872) = 3273603 / 134217728"
  unfolding toFloat_def
  by (subst roundToPrecision_eq [of "- 6"]) (simp_all add: power_int_minus roundHalfEven_def Let_def)

lemma toFloat_below_one: "toFloat (134217723 / 134217728) = 16777215 / 16777216"
  unfolding toFloat_def
  by (subst roundToPrecision_eq [of "- 1"]) (simp_all add: power_int_minus roundHalfEven_def Let_def)

lemma border_nine:
  "toFloat (toDouble (1 / toDouble (sqrt (toDouble 9)))) = 11184811 / 33554432"
  "\<lfloor>toFloat (11184811 / 33554432 * toFloat 5)\<rfloor> = 1"
  by (simp_all add: toDouble_whole sqrt_nine toDouble_third toFloat_third toFloat_whole toFloat_five_thirds)

lemma border_1681:
  "toFloat (toDouble (1 / toDouble (sqrt (toDouble 1681)))) = 3273603 / 134217728"
  "\<lfloor>toFloat (3273603 / 134217728 * toFloat 41)\<rfloor> = 0"
  by (simp_all add: toDouble_whole sqrt_1681 toDouble_41st toFloat_41st toFloat_whole toFloat_below_one)

lemma guessBBox_nineMatches:
  "guessBBox nineMatches emptyBox = \<lparr>boxMin = (- 1, - 1), boxDim = (7, 7)\<rparr>"
  by (simp add: guessBBox_def nineMatches_def emptyBox_def isEmpty_def
      includePoint_def includeAxis_def truncToInt_def getMinX_def getMaxX_def getMinY_def getMaxY_def
      getWidth_def getHeight_def grow_def Let_def borderFraction_def borderPixels_def
      toDouble_whole sqrt_nine toDouble_third toFloat_third toFloat_whole toFloat_five_thirds)

lemma setup_nineMatches:
  "constructorSetup exampleStore nineMatches exampleWcs 2 b 0
      = Inr (fst (projr (constructorSetup exampleStore nineMatches exampleWcs 2 b 0)),
             snd (projr (constructorSetup exampleStore nineMatches exampleWcs 2 b 0)))"
  "bbox (fst (projr (constructorSetup exampleStore nineMatches exampleWcs 2 b 0))) = guessBBox nineMatches b"
  by (simp_all add: constructorSetup_cases nineMatches_def)

lemma manyMatches_facts:
  "length manyMatches = 1681"
  "(\<lambda>m. truncToInt (srcX m)) ` set manyMatches = {0, 40}"
  "(\<lambda>m. truncToInt (srcY m)) ` set manyMatches = {0, 40}"
  by (auto simp: manyMatches_def truncToInt_def)

lemma wideMatches_facts:
  "length wideMatches = 82"
  "(\<lambda>m. truncToInt (srcX m)) ` set wideMatches = {0, 2942}"
  "(\<lambda>m. truncToInt (srcY m)) ` set wideMatches = {0, 2942}"
  by (auto simp: wideMatches_def truncToInt_def)

lemma setup_wideMatches:
  "constructorSetup exampleStore wideMatches exampleWcs 2 b 0
      = Inr (fst (projr (constructorSetup exampleStore wideMatches exampleWcs 2 b 0)),
             snd (projr (constructorSetup exampleStore wideMatches exampleWcs 2 b 0)))"
  by (simp add: constructorSetup_cases wideMatches_facts(1))

lemma setup_manyMatches:
  "constructorSetup exampleStore manyMatches exampleWcs 2 b 0
      = Inr (fst (projr (constructorSetup exampleStore manyMatches exampleWcs 2 b 0)),
             snd (projr (constructorSetup exampleStore manyMatches exampleWcs 2 b 0)))"
  by (simp add: constructorSetup_cases manyMatches_facts(1))

text \<open>
  Claim C9, as the code has it. When the box handed to the constructor is empty, the
  validity region is the bounding box of the observed positions, each converted to whole
  pixels, grown on each side by a border of whole pixels. The border is the product of
  \<open>borderFrac\<close> and the width (the height) in pixels of that bounding box, computed in
  single precision and cut to an \<^verbatim>\<open>int\<close>; \<open>borderFrac\<close> is \<open>1 / sqrt n\<close> computed in double
  precision and rounded to single precision, where \<open>n\<close> is the number of matches. A box
  that is not empty is kept. The match list is not empty whenever the constructor gets
  this far.
\<close>

theorem guessed_validity_region:
  assumes "constructorSetup h ms lin order box grid = Inr (self, h1)"
  shows "ms \<noteq> []
       \<and> (\<not> isEmpty box \<longrightarrow> bbox self = box)
       \<and> (isEmpty box \<longrightarrow>
            (let xs = (\<lambda>m. truncToInt (srcX m)) ` set ms;
                 ys = (\<lambda>m. truncToInt (srcY m)) ` set ms;
                 width = Max xs - Min xs + 1;
                 height = Max ys - Min ys + 1;
                 borderFrac = toFloat (toDouble (1 / toDouble (sqrt (toDouble (real (length ms))))));
                 borderX = \<lfloor>toFloat (borderFrac * toFloat (real_of_int width))\<rfloor>;
                 borderY = \<lfloor>toFloat (borderFrac * toFloat (real_of_int height))\<rfloor>
             in getMinX (bbox self) = Min xs - borderX \<and> getMaxX (bbox self) = Max xs + borderX
              \<and> getMinY (bbox self) = Min ys - borderY \<and> getMaxY (bbox self) = Max ys + borderY
              \<and> 0 \<le> borderX \<and> 0 \<le> borderY))"
proof -
  from assms have ms: "ms \<noteq> []" and b: "bbox self = guessBBox ms box"
    by (auto simp: constructorSetup_cases split: if_splits)
  have "bbox self = box" if "\<not> isEmpty box"
    using that b by (simp add: guessBBox_def)
  moreover have "isEmpty box \<longrightarrow>
            (let xs = (\<lambda>m. truncToInt (srcX m)) ` set ms;
                 ys = (\<lambda>m. truncToInt (srcY m)) ` set ms;
                 width = Max xs - Min xs + 1;
                 height = Max ys - Min ys + 1;
                 borderFrac = toFloat (toDouble (1 / toDouble (sqrt (toDouble (real (length ms))))));
                 borderX = \<lfloor>toFloat (borderFrac * toFloat (real_of_int width))\<rfloor>;
                 borderY = \<lfloor>toFloat (borderFrac * toFloat (real_of_int height))\<rfloor>
             in getMinX (bbox self) = Min xs - borderX \<and> getMaxX (bbox self) = Max xs + borderX
              \<and> getMinY (bbox self) = Min ys - borderY \<and> getMaxY (bbox self) = Max ys + borderY
              \<and> 0 \<le> borderX \<and> 0 \<le> borderY)"
    unfolding Let_def b using guessBBox_empty [OF _ ms, of box] by blast
  ultimately show ?thesis using ms by blast
qed

text \<open>
  Nine matches on a square from 0 to 4: the bounding box is 5 pixels wide, a third of
  that is cut to a border of 1 pixel, and the region runs from -1 to 5. With 1681 matches
  on a square from 0 to 40 the box is 41 pixels wide and \<open>1 / sqrt 1681\<close> of it is 1, but
  the single-precision product is just below 1 and the border is 0: the region runs from
  0 to 40. With 82 matches on a square from 0 to 2942 the exact product is below 325, the
  single-precision product is 325, and the region runs from -325 to 3267. A box that is
  given is kept.
\<close>

theorem guessed_validity_region_witness:
  "bbox (fst (projr (constructorSetup exampleStore nineMatches exampleWcs 2 emptyBox 0)))
     = \<lparr>boxMin = (- 1, - 1), boxDim = (7, 7)\<rparr>
   \<and> getMinX (bbox (fst (projr (constructorSetup exampleStore nineMatches exampleWcs 2 emptyBox 0)))) = - 1
   \<and> getMaxX (bbox (fst (projr (constructorSetup exampleStore nineMatches exampleWcs 2 emptyBox 0)))) = 5
   \<and> getMinX (bbox (fst (projr (constructorSetup exampleStore manyMatches exampleWcs 2 emptyBox 0)))) = 0
   \<and> getMaxX (bbox (fst (projr (constructorSetup exampleStore manyMatches exampleWcs 2 emptyBox 0)))) = 40
   \<and> \<lfloor>1 / sqrt (real (length manyMatches)) * 41\<rfloor> = (1 :: int)
   \<and> getMinX (bbox (fst (projr (constructorSetup exampleStore wideMatches exampleWcs 2 emptyBox 0)))) = - 325
   \<and> getMaxX (bbox (fst (projr (constructorSetup exampleStore wideMatches exampleWcs 2 emptyBox 0)))) = 3267
   \<and> \<lfloor>1 / sqrt (real (length wideMatches)) * 2943\<rfloor> = (324 :: int)
   \<and> bbox (fst (projr (constructorSetup exampleStore nineMatches exampleWcs 2 exampleBox 0))) = exampleBox"
proof -
  have e: "isEmpty emptyBox" "\<not> isEmpty exampleBox"
    by (simp_all add: isEmpty_def emptyBox_def exampleBox_def)
  have b: "bbox (fst (projr (constructorSetup exampleStore nineMatches exampleWcs 2 emptyBox 0)))
     = \<lparr>boxMin = (- 1, - 1), boxDim = (7, 7)\<rparr>"
    by (simp add: setup_nineMatches(2) guessBBox_nineMatches)
  have m: "getMinX (bbox (fst (projr (constructorSetup exampleStore manyMatches exampleWcs 2 emptyBox 0)))) = 0
    \<and> getMaxX (bbox (fst (projr (constructorSetup exampleStore manyMatches exampleWcs 2 emptyBox 0)))) = 40"
    using guessed_validity_region [OF setup_manyMatches [of emptyBox]] e(1)
    by (simp add: manyMatches_facts Let_def toDouble_whole sqrt_1681 toDouble_41st toFloat_41st
        toFloat_whole toFloat_below_one)
  have f: "\<lfloor>1 / sqrt (real (length manyMatches)) * 41\<rfloor> = (1 :: int)"
    by (simp add: manyMatches_facts(1) sqrt_1681)
  have w: "getMinX (bbox (fst (projr (constructorSetup exampleStore wideMatches exampleWcs 2 emptyBox 0)))) = - 325
    \<and> getMaxX (bbox (fst (projr (constructorSetup exampleStore wideMatches exampleWcs 2 emptyBox 0)))) = 3267"
    using guessed_validity_region [OF setup_wideMatches [of emptyBox]] e(1)
    by (simp add: wideMatches_facts Let_def toDouble_whole toDouble_sqrt_82 toDouble_inverse_sqrt_82
        toFloat_inverse_sqrt_82 toFloat_whole toFloat_up_to_325)
  have x: "\<lfloor>1 / sqrt (real (length wideMatches)) * 2943\<rfloor> = (324 :: int)"
    using exact_border_82 by (simp add: wideMatches_facts(1))
  show ?thesis
    using guessed_validity_region [OF setup_nineMatches(1) [of exampleBox]]
      guessed_validity_region [OF setup_nineMatches(1) [of emptyBox]] e b m f w x
    by (simp add: getMinX_def getMaxX_def)
qed

text \<open>
  The claim as the spec states it fails for these nine matches. The observed positions
  run from 0 to 4, a box 5 pixels wide; \<open>1 / sqrt 9\<close> times the width is \<open>5 / 3\<close> (and
  \<open>4 / 3\<close> if the width is taken as the distance from 0 to 4); the region is grown by
  1 pixel on each side, from 0 down to -1 and from 4 up to 5.
\<close>

theorem guessed_validity_region_counterexample:
  "isEmpty emptyBox \<and> nineMatches \<noteq> []
   \<and> Min ((\<lambda>m. truncToInt (srcX m)) ` set nineMatches) = 0
   \<and> Max ((\<lambda>m. truncToInt (srcX m)) ` set nineMatches) = 4
   \<and> Min (srcX ` set nineMatches) = 0 \<and> Max (srcX ` set nineMatches) = 4
   \<and> 1 / sqrt (real (length nineMatches)) * 5 = 5 / 3
   \<and> 1 / sqrt (real (length nineMatches)) * 4 = 4 / 3
   \<and> bbox (fst (projr (constructorSetup exampleStore nineMatches exampleWcs 2 emptyBox 0)))
       = \<lparr>boxMin = (- 1, - 1), boxDim = (7, 7)\<rparr>
   \<and> getMinX (guessBBox nineMatches emptyBox) = 0 - 1
   \<and> getMaxX (guessBBox nineMatches emptyBox) = 4 + 1"
proof -
  have m: "Min ((\<lambda>m. truncToInt (srcX m)) ` set nineMatches) = 0"
    "Max ((\<lambda>m. truncToInt (srcX m)) ` set nineMatches) = 4"
    "Min (srcX ` set nineMatches) = 0" "Max (srcX ` set nineMatches) = 4"
    by (simp_all add: nineMatches_def truncToInt_def)
  have n: "length nineMatches = 9" "nineMatches \<noteq> []" by (simp_all add: nineMatches_def)
  have e: "isEmpty emptyBox" by (simp add: isEmpty_def emptyBox_def)
  show ?thesis
    by (simp add: m n e sqrt_nine setup_nineMatches(2) guessBBox_nineMatches getMinX_def getMaxX_def)
qed

section \<open>The loops over the terms\<close>

lemma termIndex_of_index:
  assumes "0 \<le> order" "0 \<le> j" "j < nTermsOf order"
  shows "termIndex order (fst (indexToPQ j order)) (snd (indexToPQ j order)) = j"
proof -
  have j: "j < order * (order + 1) div 2" using assms(3) by (simp add: nTermsOf_def)
  obtain k q where kq: "indexToPQ j order = (int k, q)" "0 \<le> q" "int k + q < order"
    "j = rowStart k order + q"
    by (rule indexToPQ_char [OF assms(1,2) j])
  then show ?thesis by (simp add: termIndex_def)
qed

lemma index_of_termIndex:
  assumes "0 \<le> p" "0 \<le> q" "p + q < order"
  shows "indexToPQ (termIndex order p q) order = (p, q)"
    "0 \<le> termIndex order p q" "termIndex order p q < nTermsOf order"
proof -
  have kq: "int (nat p) + q < order" using assms by simp
  show "indexToPQ (termIndex order p q) order = (p, q)"
    using indexToPQ_rowStart [OF assms(2) kq] assms(1) by (simp add: termIndex_def)
  show "0 \<le> termIndex order p q" "termIndex order p q < nTermsOf order"
    using rowStart_range [OF assms(2) kq] by (simp_all add: termIndex_def nTermsOf_def)
qed

text \<open>
  A loop whose step \<open>j\<close> writes \<open>fA j\<close> and \<open>fB j\<close> at the term of index \<open>j\<close> when \<open>cond j\<close>
  holds, and nothing otherwise: after the steps from \<open>i0\<close> up to \<open>k\<close> the entry \<open>(p, q)\<close>
  holds the value written for its index, or is as it was.
\<close>

lemma term_loop:
  fixes body :: "int \<Rightarrow> 'a matrix \<times> 'a matrix \<Rightarrow> failure + 'a matrix \<times> 'a matrix"
  assumes ord: "0 \<le> ord"
    and dims: "rows A0 = ord" "cols A0 = ord" "rows B0 = ord" "cols B0 = ord"
    and body: "\<And>j A B. 0 \<le> j \<Longrightarrow> j < nTermsOf ord \<Longrightarrow>
        rows A = ord \<Longrightarrow> cols A = ord \<Longrightarrow> rows B = ord \<Longrightarrow> cols B = ord \<Longrightarrow>
        body j (A, B) =
          Inr (if cond j
               then (A\<lparr>coeff := (coeff A)(fst (indexToPQ j ord) :=
                        (coeff A (fst (indexToPQ j ord)))(snd (indexToPQ j ord) := fA j))\<rparr>,
                     B\<lparr>coeff := (coeff B)(fst (indexToPQ j ord) :=
                        (coeff B (fst (indexToPQ j ord)))(snd (indexToPQ j ord) := fB j))\<rparr>)
               else (A, B))"
    and range: "0 \<le> i0" "i0 \<le> k" "k \<le> nTermsOf ord"
  shows "\<exists>A B. forLoop i0 k body (A0, B0) = Inr (A, B)
      \<and> rows A = ord \<and> cols A = ord \<and> rows B = ord \<and> cols B = ord
      \<and> coeff A = (\<lambda>p q. if 0 \<le> p \<and> 0 \<le> q \<and> p + q < ord \<and> i0 \<le> termIndex ord p q
            \<and> termIndex ord p q < k \<and> cond (termIndex ord p q)
          then fA (termIndex ord p q) else coeff A0 p q)
      \<and> coeff B = (\<lambda>p q. if 0 \<le> p \<and> 0 \<le> q \<and> p + q < ord \<and> i0 \<le> termIndex ord p q
            \<and> termIndex ord p q < k \<and> cond (termIndex ord p q)
          then fB (termIndex ord p q) else coeff B0 p q)"
proof -
  define written where "written = (\<lambda>(j::int) p q. 0 \<le> p \<and> 0 \<le> q \<and> p + q < ord
      \<and> i0 \<le> termIndex ord p q \<and> termIndex ord p q < j \<and> cond (termIndex ord p q))"
  define I where "I = (\<lambda>(j::int) (AB :: 'a matrix \<times> 'a matrix).
      rows (fst AB) = ord \<and> cols (fst AB) = ord \<and> rows (snd AB) = ord \<and> cols (snd AB) = ord
      \<and> coeff (fst AB) = (\<lambda>p q. if written j p q then fA (termIndex ord p q) else coeff A0 p q)
      \<and> coeff (snd AB) = (\<lambda>p q. if written j p q then fB (termIndex ord p q) else coeff B0 p q))"
  have start: "I i0 (A0, B0)"
    using dims by (auto simp: I_def written_def fun_eq_iff)
  have step: "\<exists>t'. body j t = Inr t' \<and> I (j + 1) t'" if "i0 \<le> j" "j < k" "I j t" for j t
  proof -
    obtain A B where t: "t = (A, B)" by (cases t)
    have j: "0 \<le> j" "j < nTermsOf ord" using that(1,2) range by simp_all
    have inv: "rows A = ord" "cols A = ord" "rows B = ord" "cols B = ord"
      "coeff A = (\<lambda>p q. if written j p q then fA (termIndex ord p q) else coeff A0 p q)"
      "coeff B = (\<lambda>p q. if written j p q then fB (termIndex ord p q) else coeff B0 p q)"
      using that(3) by (simp_all add: I_def t)
    define pj where "pj = fst (indexToPQ j ord)"
    define qj where "qj = snd (indexToPQ j ord)"
    have tri: "0 \<le> pj" "0 \<le> qj" "pj + qj < ord"
      using indexToPQ_nonneg [OF ord j] by (simp_all add: pj_def qj_def)
    have idx: "termIndex ord pj qj = j"
      using termIndex_of_index [OF ord j] by (simp add: pj_def qj_def)
    have uniq: "p = pj \<and> q = qj" if "0 \<le> p" "0 \<le> q" "p + q < ord" "termIndex ord p q = j" for p q
      using index_of_termIndex(1) [OF that(1,2,3)] that(4) by (simp add: pj_def qj_def)
    have w: "written (j + 1) p q \<longleftrightarrow> written j p q \<or> (cond j \<and> p = pj \<and> q = qj)" for p q
    proof -
      have "termIndex ord p q < j + 1 \<longleftrightarrow> termIndex ord p q < j \<or> termIndex ord p q = j" by auto
      then show ?thesis
        unfolding written_def using uniq [of p q] tri idx that(1) by auto
    qed
    have nw: "\<not> written j pj qj" by (simp add: written_def idx)
    have b: "body j (A, B) =
          Inr (if cond j
               then (A\<lparr>coeff := (coeff A)(pj := (coeff A pj)(qj := fA j))\<rparr>,
                     B\<lparr>coeff := (coeff B)(pj := (coeff B pj)(qj := fB j))\<rparr>)
               else (A, B))"
      unfolding pj_def qj_def by (rule body [OF j inv(1-4)])
    show ?thesis
    proof (cases "cond j")
      case True
      have "(coeff A)(pj := (coeff A pj)(qj := fA j))
          = (\<lambda>p q. if written (j + 1) p q then fA (termIndex ord p q) else coeff A0 p q)"
        using True nw idx by (auto simp: fun_eq_iff inv(5) w)
      moreover have "(coeff B)(pj := (coeff B pj)(qj := fB j))
          = (\<lambda>p q. if written (j + 1) p q then fB (termIndex ord p q) else coeff B0 p q)"
        using True nw idx by (auto simp: fun_eq_iff inv(6) w)
      ultimately show ?thesis using True inv(1-4) by (simp add: t b I_def)
    next
      case False
      then have "written (j + 1) = written j" using w by (simp add: fun_eq_iff)
      then show ?thesis using False inv by (simp add: t b I_def)
    qed
  qed
  from forLoop_total [of I i0 "(A0, B0)" k body, OF start step]
  obtain AB where "forLoop i0 k body (A0, B0) = Inr AB" "I (max i0 k) AB" by blast
  moreover have "max i0 k = k" using range by simp
  ultimately show ?thesis unfolding I_def written_def by (cases AB) auto
qed

section \<open>The forward fit\<close>

lemma maxAbsCoeff_Inr:
  fixes v :: "real list"
  assumes "maxAbsCoeff v = Inr m"
  shows "v \<noteq> []" "m = Max (abs ` set v)" "0 \<le> m"
proof -
  have f: "fold (\<lambda>y m. max m \<bar>y\<bar>) xs a = Max (insert a (abs ` set xs))" for xs and a :: real
  proof (induction xs arbitrary: a)
    case Nil
    then show ?case by simp
  next
    case (Cons x xs)
    have "Max (insert (max a \<bar>x\<bar>) (abs ` set xs)) = Max (insert a (insert \<bar>x\<bar> (abs ` set xs)))"
      by (cases "set xs = {}"; simp add: max.assoc)
    then show ?case by (simp add: Cons.IH)
  qed
  from assms show "v \<noteq> []" by (auto simp: maxAbsCoeff_def)
  then obtain x xs where v: "v = x # xs" by (cases v) auto
  with assms f [of xs "\<bar>x\<bar>"] show m: "m = Max (abs ` set v)" by (simp add: maxAbsCoeff_def)
  have "\<bar>x\<bar> \<le> Max (abs ` set v)" by (intro Max_ge) (simp_all add: v)
  then show "0 \<le> m" using m by linarith
qed

lemma leastSquaresSolve_Inr:
  "leastSquaresSolve svd b A = Inr x \<longleftrightarrow>
     rows A = int (length b) \<and> x = map (svd A b) [0 ..< nat (cols A)]"
  by (auto simp: leastSquaresSolve_def)

text \<open>What the first part of the forward fit returns.\<close>

lemma forwardSolve_Inr:
  assumes "forwardSolve ext lin ms ord = Inr (mu, nu, nrm)" and "0 \<le> ord"
  shows "ms \<noteq> []" "nrm \<noteq> 0" "int (length mu) = nTermsOf ord" "length nu = length mu"
    "nrm = max (Max ((\<lambda>m. \<bar>srcX m - fst (pixelOrigin lin)\<bar>) ` set ms))
               (Max ((\<lambda>m. \<bar>srcY m - snd (pixelOrigin lin)\<bar>) ` set ms))"
proof -
  define u where "u = map (\<lambda>m. srcX m - fst (pixelOrigin lin)) ms"
  define v where "v = map (\<lambda>m. srcY m - snd (pixelOrigin lin)) ms"
  from assms(1) obtain uMax vMax forwardC where
    um: "maxAbsCoeff u = Inr uMax" and vm: "maxAbsCoeff v = Inr vMax"
    and n: "nrm = max uMax vMax" "nrm \<noteq> 0"
    and c: "calculateCMatrix (map (\<lambda>x. x / nrm) u) (map (\<lambda>x. x / nrm) v) ord = Inr forwardC"
    and mu: "leastSquaresSolve (jacobiSvdSolve ext)
        (map (\<lambda>m. fst (skyToIntermediateWorldCoord ext lin (refCoord m))) ms) forwardC = Inr mu"
    and nu: "leastSquaresSolve (jacobiSvdSolve ext)
        (map (\<lambda>m. snd (skyToIntermediateWorldCoord ext lin (refCoord m))) ms) forwardC = Inr nu"
    unfolding forwardSolve_def Let_def u_def v_def
    by (auto simp: bindE_eq_Inr split: if_splits)
  show "ms \<noteq> []" using maxAbsCoeff_Inr(1) [OF um] by (simp add: u_def)
  show "nrm \<noteq> 0" by fact
  from calculateCMatrix_returns [OF assms(2), of "map (\<lambda>x. x / nrm) u" "map (\<lambda>x. x / nrm) v"] c
  have "cols forwardC = nTermsOf ord" by (auto simp: u_def v_def)
  then show "int (length mu) = nTermsOf ord" "length nu = length mu"
    using mu nu nTermsOf_nonneg [OF assms(2)] by (simp_all add: leastSquaresSolve_Inr)
  show "nrm = max (Max ((\<lambda>m. \<bar>srcX m - fst (pixelOrigin lin)\<bar>) ` set ms))
               (Max ((\<lambda>m. \<bar>srcY m - snd (pixelOrigin lin)\<bar>) ` set ms))"
    using maxAbsCoeff_Inr(2) [OF um] maxAbsCoeff_Inr(2) [OF vm] n(1)
    by (simp add: u_def v_def image_image)
qed

lemma vecAt_Inr: "vecAt v i = Inr x \<longleftrightarrow> 0 \<le> i \<and> i < int (length v) \<and> x = v ! nat i"
  by (auto simp: vecAt_def)

lemma inverse2d_Inr:
  "inverse2d M = Inr N \<longleftrightarrow>
     c00 M * c11 M - c01 M * c10 M \<noteq> 0
     \<and> N = \<lparr>c00 = c11 M / (c00 M * c11 M - c01 M * c10 M),
            c01 = - c01 M / (c00 M * c11 M - c01 M * c10 M),
            c10 = - c10 M / (c00 M * c11 M - c01 M * c10 M),
            c11 = c00 M / (c00 M * c11 M - c01 M * c10 M)\<rparr>"
  by (auto simp: inverse2d_def Let_def)

text \<open>The inverse of the model is the inverse: both products are the identity.\<close>

lemma inverse2d_is_inverse:
  assumes "inverse2d M = Inr N"
  shows "apply2d M (apply2d N xy) = xy" "apply2d N (apply2d M xy) = xy"
proof -
  define det where "det = c00 M * c11 M - c01 M * c10 M"
  have d: "det \<noteq> 0" and N: "c00 N = c11 M / det" "c01 N = - c01 M / det"
    "c10 N = - c10 M / det" "c11 N = c00 M / det"
    using assms by (simp_all add: inverse2d_Inr det_def)
  have a: "c00 M * c11 M = det + c01 M * c10 M" by (simp add: det_def)
  obtain x y where xy: "xy = (x, y)" by (cases xy)
  show "apply2d M (apply2d N xy) = xy"
    using d by (simp add: apply2d_def N xy field_simps a)
  show "apply2d N (apply2d M xy) = xy"
    using d by (simp add: apply2d_def N xy field_simps a)
qed

text \<open>What the second part of the forward fit returns.\<close>

lemma refineLinear_Inr:
  assumes "refineLinear lin mu nu nrm ord = Inr (refined, CDinv)"
  shows "0 \<le> ord" "ord < int (length mu)" "ord < int (length nu)" "1 < length mu" "1 < length nu"
    "indexToPQ 0 ord = (0, 0)" "indexToPQ 1 ord = (0, 1)" "indexToPQ ord ord = (1, 0)"
    "cdMatrix refined = \<lparr>c00 = mu ! nat ord / nrm, c01 = mu ! 1 / nrm,
                          c10 = nu ! nat ord / nrm, c11 = nu ! 1 / nrm\<rparr>"
    "inverse2d (cdMatrix refined) = Inr CDinv"
    "pixelOrigin refined = (fst (pixelOrigin lin) - fst (apply2d CDinv (mu ! 0, nu ! 0)),
                            snd (pixelOrigin lin) - snd (apply2d CDinv (mu ! 0, nu ! 0)))"
    "skyOrigin refined = skyOrigin lin"
  using assms unfolding refineLinear_def Let_def
  by (auto simp: bindE_eq_Inr vecAt_Inr apply2d_def mult.commute split: if_splits)

lemma forwardSipTerm_step:
  assumes "0 \<le> ord" "int (length mu) = nTermsOf ord" "length nu = length mu"
    and "0 \<le> j" "j < nTermsOf ord"
    and "rows A = ord" "cols A = ord" "rows B = ord" "cols B = ord"
  shows "forwardSipTerm mu nu CDinv nrm ord j (A, B) =
    Inr (if 1 < fst (indexToPQ j ord) + snd (indexToPQ j ord)
         then (A\<lparr>coeff := (coeff A)(fst (indexToPQ j ord) :=
                  (coeff A (fst (indexToPQ j ord)))(snd (indexToPQ j ord) :=
                    fst (apply2d CDinv (mu ! nat j, nu ! nat j))
                      / pow nrm (fst (indexToPQ j ord) + snd (indexToPQ j ord))))\<rparr>,
               B\<lparr>coeff := (coeff B)(fst (indexToPQ j ord) :=
                  (coeff B (fst (indexToPQ j ord)))(snd (indexToPQ j ord) :=
                    snd (apply2d CDinv (mu ! nat j, nu ! nat j))
                      / pow nrm (fst (indexToPQ j ord) + snd (indexToPQ j ord))))\<rparr>)
         else (A, B))"
  using assms indexToPQ_nonneg [OF assms(1,4,5)]
  by (simp add: forwardSipTerm_def case_prod_beta vecAt_def setCoeff_def apply2d_def Let_def)

text \<open>
  The forward loop from term 1 up to term \<open>k\<close>: the entries of total degree above 1 whose
  index is below \<open>k\<close> hold their coefficient, every other entry is as it was.
\<close>

lemma forward_loop:
  assumes "0 \<le> ord" "int (length mu) = nTermsOf ord" "length nu = length mu"
    and "rows A0 = ord" "cols A0 = ord" "rows B0 = ord" "cols B0 = ord"
    and "1 \<le> k" "k \<le> nTermsOf ord"
  shows "\<exists>A B. forLoop 1 k (forwardSipTerm mu nu CDinv nrm ord) (A0, B0) = Inr (A, B)
      \<and> rows A = ord \<and> cols A = ord \<and> rows B = ord \<and> cols B = ord
      \<and> coeff A = (\<lambda>p q. if 0 \<le> p \<and> 0 \<le> q \<and> 1 < p + q \<and> p + q < ord \<and> termIndex ord p q < k
          then fst (apply2d CDinv (mu ! nat (termIndex ord p q), nu ! nat (termIndex ord p q)))
                 / pow nrm (p + q)
          else coeff A0 p q)
      \<and> coeff B = (\<lambda>p q. if 0 \<le> p \<and> 0 \<le> q \<and> 1 < p + q \<and> p + q < ord \<and> termIndex ord p q < k
          then snd (apply2d CDinv (mu ! nat (termIndex ord p q), nu ! nat (termIndex ord p q)))
                 / pow nrm (p + q)
          else coeff B0 p q)"
proof -
  define cond where "cond = (\<lambda>j. 1 < fst (indexToPQ j ord) + snd (indexToPQ j ord))"
  define fA where "fA = (\<lambda>j. fst (apply2d CDinv (mu ! nat j, nu ! nat j))
      / pow nrm (fst (indexToPQ j ord) + snd (indexToPQ j ord)))"
  define fB where "fB = (\<lambda>j. snd (apply2d CDinv (mu ! nat j, nu ! nat j))
      / pow nrm (fst (indexToPQ j ord) + snd (indexToPQ j ord)))"
  have body: "forwardSipTerm mu nu CDinv nrm ord j (A, B) =
          Inr (if cond j
               then (A\<lparr>coeff := (coeff A)(fst (indexToPQ j ord) :=
                        (coeff A (fst (indexToPQ j ord)))(snd (indexToPQ j ord) := fA j))\<rparr>,
                     B\<lparr>coeff := (coeff B)(fst (indexToPQ j ord) :=
                        (coeff B (fst (indexToPQ j ord)))(snd (indexToPQ j ord) := fB j))\<rparr>)
               else (A, B))"
    if "0 \<le> j" "j < nTermsOf ord" "rows A = ord" "cols A = ord" "rows B = ord" "cols B = ord"
    for j A B
    unfolding cond_def fA_def fB_def by (rule forwardSipTerm_step [OF assms(1,2,3) that])
  have "\<exists>A B. forLoop 1 k (forwardSipTerm mu nu CDinv nrm ord) (A0, B0) = Inr (A, B)
      \<and> rows A = ord \<and> cols A = ord \<and> rows B = ord \<and> cols B = ord
      \<and> coeff A = (\<lambda>p q. if 0 \<le> p \<and> 0 \<le> q \<and> p + q < ord \<and> 1 \<le> termIndex ord p q
            \<and> termIndex ord p q < k \<and> cond (termIndex ord p q)
          then fA (termIndex ord p q) else coeff A0 p q)
      \<and> coeff B = (\<lambda>p q. if 0 \<le> p \<and> 0 \<le> q \<and> p + q < ord \<and> 1 \<le> termIndex ord p q
            \<and> termIndex ord p q < k \<and> cond (termIndex ord p q)
          then fB (termIndex ord p q) else coeff B0 p q)"
    by (rule term_loop [OF assms(1) assms(4-7) body _ assms(8,9)]) simp_all
  then obtain A B where AB: "forLoop 1 k (forwardSipTerm mu nu CDinv nrm ord) (A0, B0) = Inr (A, B)"
    "rows A = ord" "cols A = ord" "rows B = ord" "cols B = ord"
    and cA: "\<And>p q. coeff A p q = (if 0 \<le> p \<and> 0 \<le> q \<and> p + q < ord \<and> 1 \<le> termIndex ord p q
            \<and> termIndex ord p q < k \<and> cond (termIndex ord p q)
          then fA (termIndex ord p q) else coeff A0 p q)"
    and cB: "\<And>p q. coeff B p q = (if 0 \<le> p \<and> 0 \<le> q \<and> p + q < ord \<and> 1 \<le> termIndex ord p q
            \<and> termIndex ord p q < k \<and> cond (termIndex ord p q)
          then fB (termIndex ord p q) else coeff B0 p q)"
    by (elim exE conjE) simp
  have pq: "indexToPQ (termIndex ord p q) ord = (p, q)" if "0 \<le> p" "0 \<le> q" "p + q < ord" for p q
    by (rule index_of_termIndex(1) [OF that])
  have pos: "1 \<le> termIndex ord p q" if "0 \<le> p" "0 \<le> q" "p + q < ord" "1 < p + q" for p q
  proof (rule ccontr)
    assume "\<not> 1 \<le> termIndex ord p q"
    then have "termIndex ord p q = 0" using index_of_termIndex(2) [OF that(1,2,3)] by simp
    then have "indexToPQ 0 ord = (p, q)" using pq [OF that(1,2,3)] by simp
    moreover have "indexToPQ 0 ord = (0, 0)"
      using that by (simp add: indexToPQ_def indexToPQ_loop.simps [of 0 0 ord])
    ultimately show False using that(4) by simp
  qed
  have sel: "(0 \<le> p \<and> 0 \<le> q \<and> p + q < ord \<and> 1 \<le> termIndex ord p q
            \<and> termIndex ord p q < k \<and> cond (termIndex ord p q))
      \<longleftrightarrow> (0 \<le> p \<and> 0 \<le> q \<and> 1 < p + q \<and> p + q < ord \<and> termIndex ord p q < k)" for p q
  proof (cases "0 \<le> p \<and> 0 \<le> q \<and> p + q < ord")
    case True
    then have "cond (termIndex ord p q) \<longleftrightarrow> 1 < p + q" by (simp add: cond_def pq)
    then show ?thesis using True pos [of p q] by blast
  next
    case False
    then show ?thesis by blast
  qed
  have vA: "fA (termIndex ord p q)
      = fst (apply2d CDinv (mu ! nat (termIndex ord p q), nu ! nat (termIndex ord p q))) / pow nrm (p + q)"
    and vB: "fB (termIndex ord p q)
      = snd (apply2d CDinv (mu ! nat (termIndex ord p q), nu ! nat (termIndex ord p q))) / pow nrm (p + q)"
    if "0 \<le> p" "0 \<le> q" "p + q < ord" for p q
    by (simp_all add: fA_def fB_def pq [OF that])
  have "coeff A p q = (if 0 \<le> p \<and> 0 \<le> q \<and> 1 < p + q \<and> p + q < ord \<and> termIndex ord p q < k
          then fst (apply2d CDinv (mu ! nat (termIndex ord p q), nu ! nat (termIndex ord p q)))
                 / pow nrm (p + q)
          else coeff A0 p q)" for p q
    unfolding cA sel using vA [of p q] by simp
  moreover have "coeff B p q = (if 0 \<le> p \<and> 0 \<le> q \<and> 1 < p + q \<and> p + q < ord \<and> termIndex ord p q < k
          then snd (apply2d CDinv (mu ! nat (termIndex ord p q), nu ! nat (termIndex ord p q)))
                 / pow nrm (p + q)
          else coeff B0 p q)" for p q
    unfolding cB sel using vB [of p q] by simp
  ultimately have "coeff A = (\<lambda>p q. if 0 \<le> p \<and> 0 \<le> q \<and> 1 < p + q \<and> p + q < ord \<and> termIndex ord p q < k
          then fst (apply2d CDinv (mu ! nat (termIndex ord p q), nu ! nat (termIndex ord p q)))
                 / pow nrm (p + q)
          else coeff A0 p q)"
    "coeff B = (\<lambda>p q. if 0 \<le> p \<and> 0 \<le> q \<and> 1 < p + q \<and> p + q < ord \<and> termIndex ord p q < k
          then snd (apply2d CDinv (mu ! nat (termIndex ord p q), nu ! nat (termIndex ord p q)))
                 / pow nrm (p + q)
          else coeff B0 p q)"
    by (simp_all add: fun_eq_iff)
  then show ?thesis using AB(1-5) by blast
qed

subsection \<open>The example, up to the forward fit\<close>

lemma example_setup:
  "constructorSetup exampleStore exampleMatches exampleWcs 2 exampleBox 2 = Inr exampleSetup"
  "matches (fst exampleSetup) = exampleMatches" "sipOrder (fst exampleSetup) = 3"
  "reverseSipOrder (fst exampleSetup) = 4" "ngrid (fst exampleSetup) = 2"
  "bbox (fst exampleSetup) = exampleBox" "linearWcs (fst exampleSetup) = 1"
  "sipA (fst exampleSetup) = zeroMatrix 3 3" "sipB (fst exampleSetup) = zeroMatrix 3 3"
  "sipAp (fst exampleSetup) = zeroMatrix 4 4" "sipBp (fst exampleSetup) = zeroMatrix 4 4"
  "newWcs (fst exampleSetup) = None"
  "cells (snd exampleSetup) = (\<lambda>a. if a = 0 \<or> a = 1 then Some exampleWcs else None)"
  "nextFree (snd exampleSetup) = 2"
  by (auto simp: exampleSetup_def constructorSetup_cases exampleMatches_def exampleStore_def
      guessBBox_def isEmpty_def exampleBox_def fun_eq_iff)

lemma example_wellFormed: "wellFormedStore exampleStore" "wellFormedStore (snd exampleSetup)"
  by (simp_all add: wellFormedStore_def example_setup exampleStore_def)

lemma example_forwardSolve:
  "forwardSolve exampleCollaborators exampleWcs exampleMatches 3
     = Inr (map (\<lambda>k. 1) [0 ..< 6], map real [0 ..< 6], 2)"
proof -
  obtain C where C: "calculateCMatrix [0 / 2 :: real, 2 / 2, 0 / 2] [0 / 2, 0 / 2, 2 / 2] 3 = Inr C"
    "rows C = 3" "cols C = 6"
    using calculateCMatrix_returns [of 3 "[0 / 2 :: real, 2 / 2, 0 / 2]" "[0 / 2, 0 / 2, 2 / 2]"]
    by (auto simp: nTermsOf_def)
  show ?thesis
    using C by (simp add: forwardSolve_def exampleWcs_def exampleMatches_def exampleCollaborators_def
        maxAbsCoeff_def leastSquaresSolve_def)
qed

lemma example_refineLinear:
  "refineLinear exampleWcs (map (\<lambda>k. 1) [0 ..< 6]) (map real [0 ..< 6]) 2 3
     = Inr (\<lparr>skyOrigin = (0, 0), pixelOrigin = (1, - 3),
              cdMatrix = \<lparr>c00 = 1 / 2, c01 = 1 / 2, c10 = 3 / 2, c11 = 1 / 2\<rparr>\<rparr>,
            \<lparr>c00 = - 1, c01 = 1, c10 = 3, c11 = - 1\<rparr>)"
  by (simp add: refineLinear_def indexToPQ_def indexToPQ_loop.simps vecAt_def inverse2d_def
      exampleWcs_def Let_def)

lemma example_forward:
  "\<exists>self' h'. calculateForwardMatrices exampleCollaborators exampleSetup = Inr (self', h')"
proof -
  have "\<exists>A B. forLoop 1 6 (forwardSipTerm (map (\<lambda>k. 1) [0 ..< 6]) (map real [0 ..< 6])
      \<lparr>c00 = - 1, c01 = 1, c10 = 3, c11 = - 1\<rparr> 2 3) (zeroMatrix 3 3, zeroMatrix 3 3) = Inr (A, B)"
    using forward_loop [of 3 "map (\<lambda>k. 1) [0 ..< 6]" "map real [0 ..< 6]" "zeroMatrix 3 3" "zeroMatrix 3 3" 6]
    by (simp add: nTermsOf_def zeroMatrix_def) blast
  then show ?thesis
    using calculateForwardMatrices_Inr [of exampleCollaborators "fst exampleSetup" "snd exampleSetup"]
    by (simp add: example_setup example_forwardSolve example_refineLinear)
qed

text \<open>
  Claim C6. A forward fit that returns has solved for \<open>mu\<close> and \<open>nu\<close> with the scale
  \<open>nrm\<close>, the largest offset of an observed position from the pixel origin along either
  axis; the refined transform has the linear map
  \<open>((mu[ord], mu[1]), (nu[ord], nu[1])) / nrm\<close>, where index 1 is the term \<open>(0, 1)\<close> and
  index \<open>ord\<close> the term \<open>(1, 0)\<close>; \<open>CDinv\<close> is the closed-form inverse of that map, and it is
  its inverse; the pixel origin is the old one minus \<open>CDinv\<close> applied to \<open>(mu[0], nu[0])\<close>.
  The refined transform is a new object of the store: its address was free and is not the
  address of the transform before the fit, and the fit changes no other object.
\<close>

theorem forward_refines_linear:
  assumes "calculateForwardMatrices ext (self, h) = Inr (self', h')" and "wellFormedStore h"
  shows "\<exists>lin mu nu nrm refined CDinv.
      cells h (linearWcs self) = Some lin
    \<and> forwardSolve ext lin (matches self) (sipOrder self) = Inr (mu, nu, nrm)
    \<and> nrm \<noteq> 0 \<and> 0 \<le> sipOrder self
    \<and> nrm = max (Max ((\<lambda>m. \<bar>srcX m - fst (pixelOrigin lin)\<bar>) ` set (matches self)))
                  (Max ((\<lambda>m. \<bar>srcY m - snd (pixelOrigin lin)\<bar>) ` set (matches self)))
    \<and> sipOrder self < int (length mu) \<and> sipOrder self < int (length nu)
    \<and> 1 < length mu \<and> 1 < length nu
    \<and> indexToPQ 0 (sipOrder self) = (0, 0) \<and> indexToPQ 1 (sipOrder self) = (0, 1)
    \<and> indexToPQ (sipOrder self) (sipOrder self) = (1, 0)
    \<and> cells h' (linearWcs self') = Some refined
    \<and> cdMatrix refined = \<lparr>c00 = mu ! nat (sipOrder self) / nrm, c01 = mu ! 1 / nrm,
                            c10 = nu ! nat (sipOrder self) / nrm, c11 = nu ! 1 / nrm\<rparr>
    \<and> inverse2d (cdMatrix refined) = Inr CDinv
    \<and> (\<forall>xy. apply2d (cdMatrix refined) (apply2d CDinv xy) = xy
             \<and> apply2d CDinv (apply2d (cdMatrix refined) xy) = xy)
    \<and> pixelOrigin refined = (fst (pixelOrigin lin) - fst (apply2d CDinv (mu ! 0, nu ! 0)),
                              snd (pixelOrigin lin) - snd (apply2d CDinv (mu ! 0, nu ! 0)))
    \<and> skyOrigin refined = skyOrigin lin
    \<and> cells h (linearWcs self') = None \<and> linearWcs self' \<noteq> linearWcs self
    \<and> (\<forall>a. a \<noteq> linearWcs self' \<longrightarrow> cells h' a = cells h a)"
proof -
  from assms(1) obtain lin mu nu nrm refined CDinv A B where
    lin: "cells h (linearWcs self) = Some lin"
    and fs: "forwardSolve ext lin (matches self) (sipOrder self) = Inr (mu, nu, nrm)"
    and rl: "refineLinear lin mu nu nrm (sipOrder self) = Inr (refined, CDinv)"
    and self': "self' = self\<lparr>linearWcs := nextFree h, sipA := A, sipB := B\<rparr>"
    and h': "h' = h\<lparr>cells := (cells h)(nextFree h := Some refined), nextFree := nextFree h + 1\<rparr>"
    unfolding calculateForwardMatrices_Inr by blast
  note r = refineLinear_Inr [OF rl]
  note f = forwardSolve_Inr [OF fs r(1)]
  have free: "cells h (nextFree h) = None" using assms(2) by (simp add: wellFormedStore_def)
  have new: "cells h (linearWcs self') = None" "linearWcs self' \<noteq> linearWcs self"
    using free lin by (auto simp: self')
  have frame: "\<forall>a. a \<noteq> linearWcs self' \<longrightarrow> cells h' a = cells h a" by (simp add: self' h')
  have stored: "cells h' (linearWcs self') = Some refined" by (simp add: self' h')
  have inv: "\<forall>xy. apply2d (cdMatrix refined) (apply2d CDinv xy) = xy
             \<and> apply2d CDinv (apply2d (cdMatrix refined) xy) = xy"
    using inverse2d_is_inverse [OF r(10)] by simp
  show ?thesis
    by (rule exI [of _ lin], rule exI [of _ mu], rule exI [of _ nu], rule exI [of _ nrm],
        rule exI [of _ refined], rule exI [of _ CDinv], intro conjI)
      (fact lin fs f(2) r(1) f(5) r(2-5) r(6-8) stored r(9) r(10) inv r(11) r(12) new frame)+
qed

text \<open>
  The example: the scale is 2, \<open>mu\<close> is constantly 1 and \<open>nu\<^sub>k = k\<close>, so the refined linear
  map is \<open>((1/2, 1/2), (3/2, 1/2))\<close> and the pixel origin moves from \<open>(0, 0)\<close> to \<open>(1, -3)\<close>.
  The refined transform is at the new address 2; the caller's transform at address 0 and
  its clone at address 1 are as they were.
\<close>

theorem forward_refines_linear_witness:
  "\<exists>self' h'. calculateForwardMatrices exampleCollaborators exampleSetup = Inr (self', h')
     \<and> linearWcs (fst exampleSetup) = 1 \<and> linearWcs self' = 2
     \<and> cells h' 2 = Some \<lparr>skyOrigin = (0, 0), pixelOrigin = (1, - 3),
          cdMatrix = \<lparr>c00 = 1 / 2, c01 = 1 / 2, c10 = 3 / 2, c11 = 1 / 2\<rparr>\<rparr>
     \<and> cells h' 0 = Some exampleWcs \<and> cells h' 1 = Some exampleWcs"
proof -
  from example_forward obtain self' h' where
    run: "calculateForwardMatrices exampleCollaborators (fst exampleSetup, snd exampleSetup) = Inr (self', h')"
    by auto
  from forward_refines_linear [OF run example_wellFormed(2)]
  obtain lin mu nu nrm refined CDinv where
    lin: "cells (snd exampleSetup) (linearWcs (fst exampleSetup)) = Some lin"
    and fs: "forwardSolve exampleCollaborators lin (matches (fst exampleSetup)) (sipOrder (fst exampleSetup))
        = Inr (mu, nu, nrm)"
    and stored: "cells h' (linearWcs self') = Some refined"
    and cd: "cdMatrix refined = \<lparr>c00 = mu ! nat (sipOrder (fst exampleSetup)) / nrm, c01 = mu ! 1 / nrm,
                            c10 = nu ! nat (sipOrder (fst exampleSetup)) / nrm, c11 = nu ! 1 / nrm\<rparr>"
    and inv: "inverse2d (cdMatrix refined) = Inr CDinv"
    and po: "pixelOrigin refined = (fst (pixelOrigin lin) - fst (apply2d CDinv (mu ! 0, nu ! 0)),
                              snd (pixelOrigin lin) - snd (apply2d CDinv (mu ! 0, nu ! 0)))"
    and so: "skyOrigin refined = skyOrigin lin"
    and new: "cells (snd exampleSetup) (linearWcs self') = None"
    and frame: "\<forall>a. a \<noteq> linearWcs self' \<longrightarrow> cells h' a = cells (snd exampleSetup) a"
    by blast
  have l: "lin = exampleWcs" using lin by (simp add: example_setup)
  have m: "mu = map (\<lambda>k. 1) [0 ..< 6]" "nu = map real [0 ..< 6]" "nrm = 2"
    using fs by (simp_all add: l example_setup example_forwardSolve)
  have cd': "cdMatrix refined = \<lparr>c00 = 1 / 2, c01 = 1 / 2, c10 = 3 / 2, c11 = 1 / 2\<rparr>"
    using cd by (simp add: m example_setup)
  have "CDinv = \<lparr>c00 = - 1, c01 = 1, c10 = 3, c11 = - 1\<rparr>"
    using inv by (simp add: cd' inverse2d_def)
  then have po': "pixelOrigin refined = (1, - 3)"
    using po by (simp add: m l exampleWcs_def apply2d_def)
  have so': "skyOrigin refined = (0, 0)" using so by (simp add: l exampleWcs_def)
  have r: "refined = \<lparr>skyOrigin = (0, 0), pixelOrigin = (1, - 3),
          cdMatrix = \<lparr>c00 = 1 / 2, c01 = 1 / 2, c10 = 3 / 2, c11 = 1 / 2\<rparr>\<rparr>"
    using cd' po' so' by (cases refined) simp
  have a: "linearWcs self' = 2"
    using run unfolding calculateForwardMatrices_Inr by (auto simp: example_setup)
  have "cells h' 0 = Some exampleWcs" "cells h' 1 = Some exampleWcs"
    using frame a by (simp_all add: example_setup)
  then show ?thesis using run stored r a by (simp add: example_setup(7))
qed

section \<open>The reverse fit\<close>

lemma reverseSipTerm_step:
  assumes "0 \<le> ord" "int (length tmpA) = nTermsOf ord" "length tmpB = length tmpA"
    and "0 \<le> j" "j < nTermsOf ord"
    and "rows A = ord" "cols A = ord" "rows B = ord" "cols B = ord"
  shows "reverseSipTerm tmpA tmpB nrm ord j (A, B) =
    Inr (if True
         then (A\<lparr>coeff := (coeff A)(fst (indexToPQ j ord) :=
                  (coeff A (fst (indexToPQ j ord)))(snd (indexToPQ j ord) :=
                    tmpA ! nat j / pow nrm (fst (indexToPQ j ord) + snd (indexToPQ j ord))))\<rparr>,
               B\<lparr>coeff := (coeff B)(fst (indexToPQ j ord) :=
                  (coeff B (fst (indexToPQ j ord)))(snd (indexToPQ j ord) :=
                    tmpB ! nat j / pow nrm (fst (indexToPQ j ord) + snd (indexToPQ j ord))))\<rparr>)
         else (A, B))"
  using assms indexToPQ_nonneg [OF assms(1,4,5)]
  by (simp add: reverseSipTerm_def case_prod_beta vecAt_def setCoeff_def)

text \<open>
  The reverse loop from term 0 up to term \<open>k\<close>: every entry of the triangle whose index
  is below \<open>k\<close> holds its coefficient, every other entry is as it was.
\<close>

lemma reverse_loop:
  assumes "0 \<le> ord" "int (length tmpA) = nTermsOf ord" "length tmpB = length tmpA"
    and "rows A0 = ord" "cols A0 = ord" "rows B0 = ord" "cols B0 = ord"
    and "0 \<le> k" "k \<le> nTermsOf ord"
  shows "\<exists>A B. forLoop 0 k (reverseSipTerm tmpA tmpB nrm ord) (A0, B0) = Inr (A, B)
      \<and> rows A = ord \<and> cols A = ord \<and> rows B = ord \<and> cols B = ord
      \<and> coeff A = (\<lambda>p q. if 0 \<le> p \<and> 0 \<le> q \<and> p + q < ord \<and> termIndex ord p q < k
          then tmpA ! nat (termIndex ord p q) / pow nrm (p + q) else coeff A0 p q)
      \<and> coeff B = (\<lambda>p q. if 0 \<le> p \<and> 0 \<le> q \<and> p + q < ord \<and> termIndex ord p q < k
          then tmpB ! nat (termIndex ord p q) / pow nrm (p + q) else coeff B0 p q)"
proof -
  define fA where "fA = (\<lambda>j. tmpA ! nat j / pow nrm (fst (indexToPQ j ord) + snd (indexToPQ j ord)))"
  define fB where "fB = (\<lambda>j. tmpB ! nat j / pow nrm (fst (indexToPQ j ord) + snd (indexToPQ j ord)))"
  have body: "reverseSipTerm tmpA tmpB nrm ord j (A, B) =
          Inr (if True
               then (A\<lparr>coeff := (coeff A)(fst (indexToPQ j ord) :=
                        (coeff A (fst (indexToPQ j ord)))(snd (indexToPQ j ord) := fA j))\<rparr>,
                     B\<lparr>coeff := (coeff B)(fst (indexToPQ j ord) :=
                        (coeff B (fst (indexToPQ j ord)))(snd (indexToPQ j ord) := fB j))\<rparr>)
               else (A, B))"
    if "0 \<le> j" "j < nTermsOf ord" "rows A = ord" "cols A = ord" "rows B = ord" "cols B = ord"
    for j A B
    unfolding fA_def fB_def by (rule reverseSipTerm_step [OF assms(1,2,3) that])
  have "\<exists>A B. forLoop 0 k (reverseSipTerm tmpA tmpB nrm ord) (A0, B0) = Inr (A, B)
      \<and> rows A = ord \<and> cols A = ord \<and> rows B = ord \<and> cols B = ord
      \<and> coeff A = (\<lambda>p q. if 0 \<le> p \<and> 0 \<le> q \<and> p + q < ord \<and> 0 \<le> termIndex ord p q
            \<and> termIndex ord p q < k \<and> True
          then fA (termIndex ord p q) else coeff A0 p q)
      \<and> coeff B = (\<lambda>p q. if 0 \<le> p \<and> 0 \<le> q \<and> p + q < ord \<and> 0 \<le> termIndex ord p q
            \<and> termIndex ord p q < k \<and> True
          then fB (termIndex ord p q) else coeff B0 p q)"
    by (rule term_loop [where cond = "\<lambda>j. True", OF assms(1) assms(4-7) body _ assms(8,9)]) simp_all
  then obtain A B where AB: "forLoop 0 k (reverseSipTerm tmpA tmpB nrm ord) (A0, B0) = Inr (A, B)"
    "rows A = ord" "cols A = ord" "rows B = ord" "cols B = ord"
    and cA: "\<And>p q. coeff A p q = (if 0 \<le> p \<and> 0 \<le> q \<and> p + q < ord \<and> 0 \<le> termIndex ord p q
            \<and> termIndex ord p q < k \<and> True
          then fA (termIndex ord p q) else coeff A0 p q)"
    and cB: "\<And>p q. coeff B p q = (if 0 \<le> p \<and> 0 \<le> q \<and> p + q < ord \<and> 0 \<le> termIndex ord p q
            \<and> termIndex ord p q < k \<and> True
          then fB (termIndex ord p q) else coeff B0 p q)"
    by (elim exE conjE) simp
  have sel: "(0 \<le> p \<and> 0 \<le> q \<and> p + q < ord \<and> 0 \<le> termIndex ord p q \<and> termIndex ord p q < k \<and> True)
      \<longleftrightarrow> (0 \<le> p \<and> 0 \<le> q \<and> p + q < ord \<and> termIndex ord p q < k)" for p q
    using index_of_termIndex(2) [of p q ord] by blast
  have vA: "fA (termIndex ord p q) = tmpA ! nat (termIndex ord p q) / pow nrm (p + q)"
    and vB: "fB (termIndex ord p q) = tmpB ! nat (termIndex ord p q) / pow nrm (p + q)"
    if "0 \<le> p" "0 \<le> q" "p + q < ord" for p q
    by (simp_all add: fA_def fB_def index_of_termIndex(1) [OF that])
  have "coeff A p q = (if 0 \<le> p \<and> 0 \<le> q \<and> p + q < ord \<and> termIndex ord p q < k
          then tmpA ! nat (termIndex ord p q) / pow nrm (p + q) else coeff A0 p q)" for p q
    unfolding cA sel using vA [of p q] by simp
  moreover have "coeff B p q = (if 0 \<le> p \<and> 0 \<le> q \<and> p + q < ord \<and> termIndex ord p q < k
          then tmpB ! nat (termIndex ord p q) / pow nrm (p + q) else coeff B0 p q)" for p q
    unfolding cB sel using vB [of p q] by simp
  ultimately have "coeff A = (\<lambda>p q. if 0 \<le> p \<and> 0 \<le> q \<and> p + q < ord \<and> termIndex ord p q < k
          then tmpA ! nat (termIndex ord p q) / pow nrm (p + q) else coeff A0 p q)"
    "coeff B = (\<lambda>p q. if 0 \<le> p \<and> 0 \<le> q \<and> p + q < ord \<and> termIndex ord p q < k
          then tmpB ! nat (termIndex ord p q) / pow nrm (p + q) else coeff B0 p q)"
    by (simp_all add: fun_eq_iff)
  then show ?thesis using AB(1-5) by blast
qed

text \<open>What the first two parts of the reverse fit return.\<close>

lemma reverseGrid_Inr:
  "reverseGrid ext self = Inr samples \<longleftrightarrow>
     (\<exists>tw. newWcs self = Some tw
        \<and> samples = gridSamples ext tw (getMinX (bbox self))
            (gridSpacing (getWidth (bbox self)) (ngrid self)) (getMinY (bbox self))
            (gridSpacing (getHeight (bbox self)) (ngrid self)) (ngrid self))"
  unfolding reverseGrid_def Let_def by (auto split: option.splits)

lemma length_upto: "length [0 .. n - 1] = nat n"
  by simp

lemma length_gridSamples: "length (gridSamples ext tw x0 dx y0 dy n) = nat n * nat n"
proof -
  have h: "length (concat (map (\<lambda>i. map (f i) [0 .. n - 1]) js)) = length js * nat n"
    for f :: "int \<Rightarrow> int \<Rightarrow> 'a" and js
    by (induction js) simp_all
  show ?thesis unfolding gridSamples_def by (simp add: h)
qed

lemma solveSamples_Inr:
  assumes "solveSamples ext ord samples = Inr (tmpA, tmpB, nrm)" and "0 \<le> ord"
  shows "int (length tmpA) = nTermsOf ord" "length tmpB = length tmpA" "samples \<noteq> []"
proof -
  from assms(1) obtain U V reverseC delta1 delta2 UMax where
    c: "calculateCMatrix U V ord = Inr reverseC" "length U = length V"
    and a: "leastSquaresSolve (jacobiSvdSolveIEEE ext) delta1 reverseC = Inr tmpA"
    and l: "length tmpA = length tmpB"
    and m: "maxAbsCoeff (map (\<lambda>(U, V, d1, d2). U) samples) = Inr UMax"
    unfolding solveSamples_def Let_def
    by (fastforce simp: bindE_eq_Inr split: if_splits)
  show "length tmpB = length tmpA" using l by simp
  from calculateCMatrix_returns [OF assms(2), of U V] c
  have "cols reverseC = nTermsOf ord" by auto
  then show "int (length tmpA) = nTermsOf ord"
    using a nTermsOf_nonneg [OF assms(2)] by (simp add: leastSquaresSolve_Inr)
  show "samples \<noteq> []" using m by (auto simp: maxAbsCoeff_def)
qed

text \<open>The scale and the two solves return for every sample vector that is not empty.\<close>

lemma solveSamples_returns:
  assumes "samples \<noteq> []" and "0 \<le> ord"
  shows "\<exists>tmpA tmpB nrm. solveSamples ext ord samples = Inr (tmpA, tmpB, nrm)"
proof -
  define U where "U = map (\<lambda>(U, V, d1, d2). U) samples"
  define V where "V = map (\<lambda>(U, V, d1, d2). V) samples"
  have ne: "U \<noteq> []" "V \<noteq> []" using assms(1) by (simp_all add: U_def V_def)
  then obtain UMax VMax where m: "maxAbsCoeff U = Inr UMax" "maxAbsCoeff V = Inr VMax"
    by (cases U; cases V) (simp_all add: maxAbsCoeff_def)
  define nrm where "nrm = (if UMax > VMax then UMax else VMax)"
  have len: "length (map (\<lambda>x. x / nrm) U) \<le> length (map (\<lambda>x. x / nrm) V)"
    by (simp add: U_def V_def)
  from calculateCMatrix_returns [OF assms(2) len]
  obtain C where C: "calculateCMatrix (map (\<lambda>x. x / nrm) U) (map (\<lambda>x. x / nrm) V) ord = Inr C"
    "rows C = int (length samples)" by (auto simp: U_def)
  show ?thesis
    unfolding solveSamples_def Let_def
    by (simp add: m C leastSquaresSolve_def flip: U_def V_def nrm_def)
qed

lemma reverseSolve_Inr:
  assumes "reverseSolve ext self = Inr (tmpA, tmpB, nrm)" and "0 \<le> reverseSipOrder self"
  shows "int (length tmpA) = nTermsOf (reverseSipOrder self)" "length tmpB = length tmpA"
proof -
  from assms(1) obtain samples where
    "solveSamples ext (reverseSipOrder self) samples = Inr (tmpA, tmpB, nrm)"
    unfolding reverseSolve_def by (auto simp: bindE_eq_Inr)
  from solveSamples_Inr [OF this assms(2)]
  show "int (length tmpA) = nTermsOf (reverseSipOrder self)" "length tmpB = length tmpA"
    by simp_all
qed

text \<open>
  The reverse fit returns on every object of the constructor: the grid has a point, the
  composite transform is there, and the reverse matrices have the dimensions of the
  reverse order.
\<close>

lemma calculateReverseMatrices_returns:
  assumes "newWcs self = Some tw" "0 < ngrid self" "0 \<le> reverseSipOrder self"
    and "rows (sipAp self) = reverseSipOrder self" "cols (sipAp self) = reverseSipOrder self"
    and "rows (sipBp self) = reverseSipOrder self" "cols (sipBp self) = reverseSipOrder self"
  shows "\<exists>self'. calculateReverseMatrices ext self = Inr self'"
proof -
  define samples where "samples = gridSamples ext tw (getMinX (bbox self))
      (gridSpacing (getWidth (bbox self)) (ngrid self)) (getMinY (bbox self))
      (gridSpacing (getHeight (bbox self)) (ngrid self)) (ngrid self)"
  have g: "reverseGrid ext self = Inr samples"
    unfolding reverseGrid_Inr samples_def using assms(1) by simp
  have "0 < nat (ngrid self) * nat (ngrid self)" using assms(2) by simp
  then have "samples \<noteq> []"
    using length_gridSamples [of ext tw "getMinX (bbox self)" _ "getMinY (bbox self)" _ "ngrid self"]
    unfolding samples_def by (metis length_greater_0_conv)
  from solveSamples_returns [OF this assms(3)]
  obtain tmpA tmpB nrm where s: "solveSamples ext (reverseSipOrder self) samples = Inr (tmpA, tmpB, nrm)"
    by blast
  have rs: "reverseSolve ext self = Inr (tmpA, tmpB, nrm)"
    by (simp add: reverseSolve_def g s)
  note len = reverseSolve_Inr [OF rs assms(3)]
  from reverse_loop [OF assms(3) len assms(4-7), of "nTermsOf (reverseSipOrder self)" nrm]
    nTermsOf_nonneg [OF assms(3)]
  obtain A B where "forLoop 0 (nTermsOf (reverseSipOrder self))
      (reverseSipTerm tmpA tmpB nrm (reverseSipOrder self)) (sipAp self, sipBp self) = Inr (A, B)"
    by auto
  then show ?thesis
    by (simp add: calculateReverseMatrices_def rs len(1))
qed

lemma calculateReverseMatrices_Inr:
  "calculateReverseMatrices ext self = Inr self' \<longleftrightarrow>
     (\<exists>tmpA tmpB nrm A B.
        reverseSolve ext self = Inr (tmpA, tmpB, nrm)
      \<and> forLoop 0 (int (length tmpA)) (reverseSipTerm tmpA tmpB nrm (reverseSipOrder self))
            (sipAp self, sipBp self) = Inr (A, B)
      \<and> self' = self\<lparr>sipAp := A, sipBp := B\<rparr>)"
  unfolding calculateReverseMatrices_def
  by (auto simp: bindE_eq_Inr)

lemma buildNewWcs_Inr:
  "buildNewWcs (self, h) = Inr (self', h') \<longleftrightarrow>
     (\<exists>lin. cells h (linearWcs self) = Some lin \<and> h' = h
        \<and> self' = self\<lparr>newWcs := Some (TanWcs (skyOrigin lin) (pixelOrigin lin) (cdMatrix lin)
                    (sipA self) (sipB self) (sipAp self) (sipBp self))\<rparr>)"
  unfolding buildNewWcs_def Let_def by (auto split: option.splits)

text \<open>The stages of a constructor that returns.\<close>

lemma CreateWcsWithSip_Inr:
  "CreateWcsWithSip ext h ms lin order box grid = Inr (final, hf) \<longleftrightarrow>
     (\<exists>s0 h0 s1 s2 s3.
        constructorSetup h ms lin order box grid = Inr (s0, h0)
      \<and> calculateForwardMatrices ext (s0, h0) = Inr (s1, hf)
      \<and> buildNewWcs (s1, hf) = Inr (s2, hf)
      \<and> calculateReverseMatrices ext s2 = Inr s3
      \<and> buildNewWcs (s3, hf) = Inr (final, hf))"
  unfolding CreateWcsWithSip_def
  by (auto simp: bindE_eq_Inr buildNewWcs_Inr)

subsection \<open>The arithmetic of finite values\<close>

lemma double_finite [simp]:
  "Finite a + Finite b = Finite (a + b)"
  "Finite a - Finite b = Finite (a - b)"
  "Finite a * Finite b = Finite (a * b)"
  "- Finite a = Finite (- a)"
  "\<bar>Finite a\<bar> = Finite \<bar>a\<bar>"
  "Finite a < Finite b \<longleftrightarrow> a < b"
  "Finite a \<le> Finite b \<longleftrightarrow> a \<le> b"
  by (simp_all add: plus_double_def minus_double_def times_double_def uminus_double_def abs_double_def
      less_double_def less_eq_double_def)

lemma double_max [simp]: "max (Finite a) (Finite b) = Finite (max a b)"
  by (simp add: max_def)

lemma double_divide [simp]:
  "b \<noteq> 0 \<Longrightarrow> Finite a / Finite b = Finite (a / b)"
  "Finite a / Finite 0 = signedInf a"
  by (simp_all add: divide_double_def)

lemma double_zero_one [simp]: "(0 :: double) = Finite 0" "(1 :: double) = Finite 1"
  by (simp_all add: zero_double_def one_double_def)

lemma double_power [simp]: "Finite a ^ n = Finite (a ^ n)"
  by (induction n) simp_all

lemma double_nan [simp]:
  "NaN + x = NaN" "x + NaN = NaN" "NaN - x = NaN" "x - NaN = NaN"
  "NaN * x = NaN" "x * NaN = NaN" "NaN / x = NaN" "x / NaN = NaN" "\<bar>NaN\<bar> = NaN"
  "\<not> NaN < x" "\<not> x < NaN"
  by (cases x; simp add: plus_double_def minus_double_def times_double_def uminus_double_def
      divide_double_def abs_double_def less_double_def)+

subsection \<open>The example, through the reverse fit\<close>

lemma upto_0_1: "[0 .. 1 :: int] = [0, 1]"
  by (simp add: upto.simps)

lemma example_solveSamples:
  "solveSamples exampleCollaborators 4
      [(Finite 0, Finite 3, Finite (- 1), Finite 0), (Finite 4, Finite 3, Finite (- 1), Finite 0),
       (Finite 0, Finite 7, Finite (- 1), Finite 0), (Finite 4, Finite 7, Finite (- 1), Finite 0)]
     = Inr (map (\<lambda>k. Finite (- 1 - real k)) [0 ..< 10], map (\<lambda>k. Finite 0) [0 ..< 10], Finite 7)"
proof -
  obtain C where C: "calculateCMatrix [Finite (0 / 7), Finite (4 / 7), Finite (0 / 7), Finite (4 / 7)]
      [Finite (3 / 7), Finite (3 / 7), Finite (7 / 7), Finite (7 / 7)] 4 = Inr C"
    "rows C = 4" "cols C = 10"
    using calculateCMatrix_returns [of 4 "[Finite (0 / 7), Finite (4 / 7), Finite (0 / 7), Finite (4 / 7)]"
        "[Finite (3 / 7), Finite (3 / 7), Finite (7 / 7), Finite (7 / 7)]"]
    by (auto simp: nTermsOf_def)
  have solver: "jacobiSvdSolveIEEE exampleCollaborators = (\<lambda>A b k. b ! 0 * Finite (1 + real k))"
    by (simp add: exampleCollaborators_def)
  show ?thesis
    using C by (simp add: solveSamples_def maxAbsCoeff_def leastSquaresSolve_def solver Let_def)
qed

lemma example_reverseGrid:
  assumes "newWcs s = Some tw" "pixelOrigin tw = (1, - 3)" "bbox s = exampleBox" "ngrid s = 2"
  shows "reverseGrid exampleCollaborators s
     = Inr [(Finite 0, Finite 3, Finite (- 1), Finite 0), (Finite 4, Finite 3, Finite (- 1), Finite 0),
            (Finite 0, Finite 7, Finite (- 1), Finite 0), (Finite 4, Finite 7, Finite (- 1), Finite 0)]"
  by (simp add: reverseGrid_def assms gridSpacing_def ofInt_def exampleBox_def getMinX_def getMinY_def
      getWidth_def getHeight_def gridSamples_def gridSample_def upto_0_1 exampleCollaborators_def Let_def)

lemma example_reverseSolve:
  assumes "newWcs s = Some tw" "pixelOrigin tw = (1, - 3)" "bbox s = exampleBox" "ngrid s = 2"
    "reverseSipOrder s = 4"
  shows "reverseSolve exampleCollaborators s
     = Inr (map (\<lambda>k. Finite (- 1 - real k)) [0 ..< 10], map (\<lambda>k. Finite 0) [0 ..< 10], Finite 7)"
  by (simp add: reverseSolve_def example_reverseGrid [OF assms(1-4)] assms(5) example_solveSamples
      del: double_zero_one)

lemma example_constructor:
  "\<exists>final hf. CreateWcsWithSip exampleCollaborators exampleStore exampleMatches exampleWcs 2 exampleBox 2
     = Inr (final, hf)"
proof -
  obtain s1 h1 where f: "calculateForwardMatrices exampleCollaborators (fst exampleSetup, snd exampleSetup)
      = Inr (s1, h1)"
    using example_forward by auto
  then obtain A B where s1: "s1 = (fst exampleSetup)\<lparr>linearWcs := 2, sipA := A, sipB := B\<rparr>"
    and h1: "h1 = (snd exampleSetup)\<lparr>cells := (cells (snd exampleSetup))(2 := Some
        \<lparr>skyOrigin = (0, 0), pixelOrigin = (1, - 3),
              cdMatrix = \<lparr>c00 = 1 / 2, c01 = 1 / 2, c10 = 3 / 2, c11 = 1 / 2\<rparr>\<rparr>), nextFree := 3\<rparr>"
    unfolding calculateForwardMatrices_Inr
    by (auto simp: example_setup example_forwardSolve example_refineLinear)
  define tw where "tw = TanWcs (0, 0) (1, - 3) \<lparr>c00 = 1 / 2, c01 = 1 / 2, c10 = 3 / 2, c11 = 1 / 2\<rparr>
      A B (zeroMatrix 4 4) (zeroMatrix 4 4)"
  define s2 where "s2 = s1\<lparr>newWcs := Some tw\<rparr>"
  have b: "buildNewWcs (s1, h1) = Inr (s2, h1)"
    by (simp add: buildNewWcs_Inr s1 h1 s2_def tw_def example_setup)
  have "\<exists>s3. calculateReverseMatrices exampleCollaborators s2 = Inr s3"
    by (rule calculateReverseMatrices_returns [of _ tw])
      (simp_all add: s2_def s1 example_setup zeroMatrix_def)
  then obtain s3 where r: "calculateReverseMatrices exampleCollaborators s2 = Inr s3" by blast
  then have l3: "linearWcs s3 = 2"
    unfolding calculateReverseMatrices_Inr by (auto simp: s2_def s1)
  have "\<exists>final. buildNewWcs (s3, h1) = Inr (final, h1)"
    by (simp add: buildNewWcs_Inr l3 h1)
  then obtain s4 where s4: "buildNewWcs (s3, h1) = Inr (s4, h1)" by blast
  have su: "constructorSetup exampleStore exampleMatches exampleWcs 2 exampleBox 2
      = Inr (fst exampleSetup, snd exampleSetup)"
    using example_setup(1) by simp
  have "CreateWcsWithSip exampleCollaborators exampleStore exampleMatches exampleWcs 2 exampleBox 2
     = Inr (s4, h1)"
    unfolding CreateWcsWithSip_Inr using su f b r s4 by blast
  then show ?thesis by blast
qed

section \<open>The coefficient matrices of a constructor that returns\<close>

lemma setCoeff_Inr:
  "setCoeff M i j x = Inr M' \<longleftrightarrow>
     0 \<le> i \<and> i < rows M \<and> 0 \<le> j \<and> j < cols M
     \<and> M' = M\<lparr>coeff := (coeff M)(i := (coeff M i)(j := x))\<rparr>"
  by (auto simp: setCoeff_def)

text \<open>No step of either loop writes an entry off the triangle.\<close>

lemma forwardSipTerm_off_triangle:
  assumes "forwardSipTerm mu nu CDinv nrm ord j (A, B) = Inr (A', B')" and "ord \<le> p + q"
  shows "coeff A' p q = coeff A p q" "coeff B' p q = coeff B p q"
  using assms unfolding forwardSipTerm_def Let_def
  by (auto simp: bindE_eq_Inr setCoeff_Inr case_prod_beta split: if_splits)

lemma reverseSipTerm_off_triangle:
  assumes "reverseSipTerm tmpA tmpB nrm ord j (A, B) = Inr (A', B')" and "ord \<le> p + q"
    and "0 \<le> ord" "int (length tmpA) = nTermsOf ord"
  shows "coeff A' p q = coeff A p q" "coeff B' p q = coeff B p q"
proof -
  from assms(1) have j: "0 \<le> j" "j < int (length tmpA)"
    and A': "A' = A\<lparr>coeff := (coeff A)(fst (indexToPQ j ord) :=
          (coeff A (fst (indexToPQ j ord)))(snd (indexToPQ j ord) :=
             tmpA ! nat j / pow nrm (fst (indexToPQ j ord) + snd (indexToPQ j ord))))\<rparr>"
    and B': "B' = B\<lparr>coeff := (coeff B)(fst (indexToPQ j ord) :=
          (coeff B (fst (indexToPQ j ord)))(snd (indexToPQ j ord) :=
             tmpB ! nat j / pow nrm (fst (indexToPQ j ord) + snd (indexToPQ j ord))))\<rparr>"
    unfolding reverseSipTerm_def
    by (auto simp: bindE_eq_Inr setCoeff_Inr vecAt_Inr case_prod_beta)
  have "fst (indexToPQ j ord) + snd (indexToPQ j ord) < ord"
    using indexToPQ_nonneg(3) [OF assms(3) j(1)] j(2) assms(4) by simp
  then have "\<not> (p = fst (indexToPQ j ord) \<and> q = snd (indexToPQ j ord))" using assms(2) by auto
  then show "coeff A' p q = coeff A p q" "coeff B' p q = coeff B p q"
    by (auto simp: A' B')
qed

text \<open>So the matrices are zero off the triangle after any number of steps.\<close>

lemma forward_loop_triangular:
  assumes "forLoop i k (forwardSipTerm mu nu CDinv nrm ord) (A0, B0) = Inr (A, B)"
    and "offTriangleZero ord A0" "offTriangleZero ord B0"
  shows "offTriangleZero ord A \<and> offTriangleZero ord B"
proof -
  define I where "I = (\<lambda>(j::int) (AB :: real matrix \<times> real matrix).
      offTriangleZero ord (fst AB) \<and> offTriangleZero ord (snd AB))"
  have "I (max i k) (A, B)"
  proof (rule forLoop_partial [OF assms(1), of I])
    show "I i (A0, B0)" using assms(2,3) by (simp add: I_def)
  next
    fix j t t'
    assume "I j t" and s: "forwardSipTerm mu nu CDinv nrm ord j t = Inr t'"
    then show "I (j + 1) t'"
      using forwardSipTerm_off_triangle [of mu nu CDinv nrm ord j "fst t" "snd t" "fst t'" "snd t'"]
      by (simp add: I_def offTriangleZero_def)
  qed
  then show ?thesis by (simp add: I_def)
qed

lemma reverse_loop_triangular:
  assumes "forLoop i k (reverseSipTerm tmpA tmpB nrm ord) (A0, B0) = Inr (A, B)"
    and "offTriangleZero ord A0" "offTriangleZero ord B0"
    and "0 \<le> ord" "int (length tmpA) = nTermsOf ord"
  shows "offTriangleZero ord A \<and> offTriangleZero ord B"
proof -
  define I where "I = (\<lambda>(j::int) (AB :: double matrix \<times> double matrix).
      offTriangleZero ord (fst AB) \<and> offTriangleZero ord (snd AB))"
  have "I (max i k) (A, B)"
  proof (rule forLoop_partial [OF assms(1), of I])
    show "I i (A0, B0)" using assms(2,3) by (simp add: I_def)
  next
    fix j t t'
    assume "I j t" and s: "reverseSipTerm tmpA tmpB nrm ord j t = Inr t'"
    then show "I (j + 1) t'"
      using reverseSipTerm_off_triangle [of tmpA tmpB nrm ord j "fst t" "snd t" "fst t'" "snd t'",
          OF _ _ assms(4,5)]
      by (simp add: I_def offTriangleZero_def)
  qed
  then show ?thesis by (simp add: I_def)
qed

lemma offTriangleZero_Zero: "offTriangleZero n (zeroMatrix r c)"
  by (simp add: offTriangleZero_def zeroMatrix_def)

text \<open>
  The stages of a constructor that returns, with what each of them has computed.
\<close>

lemma constructor_stages:
  assumes "CreateWcsWithSip ext h ms lin order box grid = Inr (final, hf)"
  obtains s0 h0 s1 s2 s3 mu nu nrm refined CDinv tmpA tmpB nrmR where
    "constructorSetup h ms lin order box grid = Inr (s0, h0)"
    "2 \<le> order"
    "sipOrder s0 = order + 1" "reverseSipOrder s0 = order + 2"
    "sipA s0 = zeroMatrix (order + 1) (order + 1)" "sipB s0 = zeroMatrix (order + 1) (order + 1)"
    "sipAp s0 = zeroMatrix (order + 2) (order + 2)" "sipBp s0 = zeroMatrix (order + 2) (order + 2)"
    "calculateForwardMatrices ext (s0, h0) = Inr (s1, hf)"
    "forwardSolve ext lin ms (order + 1) = Inr (mu, nu, nrm)"
    "refineLinear lin mu nu nrm (order + 1) = Inr (refined, CDinv)"
    "forLoop 1 (int (length mu)) (forwardSipTerm mu nu CDinv nrm (order + 1)) (sipA s0, sipB s0)
       = Inr (sipA s1, sipB s1)"
    "s1 = s0\<lparr>linearWcs := linearWcs s1, sipA := sipA s1, sipB := sipB s1\<rparr>"
    "buildNewWcs (s1, hf) = Inr (s2, hf)"
    "s2 = s1\<lparr>newWcs := newWcs s2\<rparr>"
    "calculateReverseMatrices ext s2 = Inr s3"
    "reverseSolve ext s2 = Inr (tmpA, tmpB, nrmR)"
    "forLoop 0 (int (length tmpA)) (reverseSipTerm tmpA tmpB nrmR (order + 2)) (sipAp s2, sipBp s2)
       = Inr (sipAp s3, sipBp s3)"
    "s3 = s2\<lparr>sipAp := sipAp s3, sipBp := sipBp s3\<rparr>"
    "buildNewWcs (s3, hf) = Inr (final, hf)"
    "final = s3\<lparr>newWcs := newWcs final\<rparr>"
proof -
  from assms obtain s0 h0 s1 s2 s3 where
    st: "constructorSetup h ms lin order box grid = Inr (s0, h0)"
    and fw: "calculateForwardMatrices ext (s0, h0) = Inr (s1, hf)"
    and b1: "buildNewWcs (s1, hf) = Inr (s2, hf)"
    and rv: "calculateReverseMatrices ext s2 = Inr s3"
    and b2: "buildNewWcs (s3, hf) = Inr (final, hf)"
    unfolding CreateWcsWithSip_Inr by blast
  from st have o: "2 \<le> order"
    and s0: "matches s0 = ms" "linearWcs s0 = nextFree h" "cells h0 (nextFree h) = Some lin"
      "sipOrder s0 = order + 1" "reverseSipOrder s0 = order + 2"
      "sipA s0 = zeroMatrix (order + 1) (order + 1)" "sipB s0 = zeroMatrix (order + 1) (order + 1)"
      "sipAp s0 = zeroMatrix (order + 2) (order + 2)" "sipBp s0 = zeroMatrix (order + 2) (order + 2)"
    by (auto simp: constructorSetup_cases split: if_splits)
  from fw obtain mu nu nrm refined CDinv A B where
    fs: "forwardSolve ext lin ms (order + 1) = Inr (mu, nu, nrm)"
    and rl: "refineLinear lin mu nu nrm (order + 1) = Inr (refined, CDinv)"
    and lp: "forLoop 1 (int (length mu)) (forwardSipTerm mu nu CDinv nrm (order + 1)) (sipA s0, sipB s0)
       = Inr (A, B)"
    and s1: "s1 = s0\<lparr>linearWcs := nextFree h0, sipA := A, sipB := B\<rparr>"
    unfolding calculateForwardMatrices_Inr by (auto simp: s0(1-5))
  from b1 have s2: "s2 = s1\<lparr>newWcs := newWcs s2\<rparr>"
    unfolding buildNewWcs_Inr by auto
  from rv obtain tmpA tmpB nrmR Ap Bp where
    rs: "reverseSolve ext s2 = Inr (tmpA, tmpB, nrmR)"
    and lr: "forLoop 0 (int (length tmpA)) (reverseSipTerm tmpA tmpB nrmR (reverseSipOrder s2))
        (sipAp s2, sipBp s2) = Inr (Ap, Bp)"
    and s3: "s3 = s2\<lparr>sipAp := Ap, sipBp := Bp\<rparr>"
    unfolding calculateReverseMatrices_Inr by blast
  have r2: "reverseSipOrder s2 = order + 2"
    by (subst s2) (simp add: s1 s0)
  from b2 have fin: "final = s3\<lparr>newWcs := newWcs final\<rparr>"
    unfolding buildNewWcs_Inr by auto
  show ?thesis
  proof (rule that [OF st o s0(4-9) fw fs rl _ _ b1 s2 rv rs _ _ b2 fin])
    show "forLoop 1 (int (length mu)) (forwardSipTerm mu nu CDinv nrm (order + 1)) (sipA s0, sipB s0)
       = Inr (sipA s1, sipB s1)" using lp by (simp add: s1)
    show "s1 = s0\<lparr>linearWcs := linearWcs s1, sipA := sipA s1, sipB := sipB s1\<rparr>" by (simp add: s1)
    show "forLoop 0 (int (length tmpA)) (reverseSipTerm tmpA tmpB nrmR (order + 2)) (sipAp s2, sipBp s2)
       = Inr (sipAp s3, sipBp s3)" using lr by (simp add: s3 r2)
    show "s3 = s2\<lparr>sipAp := sipAp s3, sipBp := sipBp s3\<rparr>" by (simp add: s3)
  qed
qed

lemma nTermsOf_ge: "0 \<le> order \<Longrightarrow> order \<le> nTermsOf order"
  unfolding nTermsOf_def by (rule tri_ge)

text \<open>The entries of the four matrices of a constructor that returns.\<close>

lemma constructor_coefficients:
  assumes "CreateWcsWithSip ext h ms lin order box grid = Inr (final, hf)"
  obtains s0 h0 s1 s2 mu nu nrm refined CDinv tmpA tmpB nrmR where
    "constructorSetup h ms lin order box grid = Inr (s0, h0)"
    "calculateForwardMatrices ext (s0, h0) = Inr (s1, hf)"
    "buildNewWcs (s1, hf) = Inr (s2, hf)"
    "forwardSolve ext lin ms (order + 1) = Inr (mu, nu, nrm)"
    "refineLinear lin mu nu nrm (order + 1) = Inr (refined, CDinv)"
    "reverseSolve ext s2 = Inr (tmpA, tmpB, nrmR)"
    "int (length mu) = nTermsOf (order + 1)" "length nu = length mu" "nrm \<noteq> 0"
    "int (length tmpA) = nTermsOf (order + 2)" "length tmpB = length tmpA"
    "\<And>p q. coeff (sipA final) p q =
       (if 0 \<le> p \<and> 0 \<le> q \<and> 1 < p + q \<and> p + q < order + 1
        then fst (apply2d CDinv (mu ! nat (termIndex (order + 1) p q), nu ! nat (termIndex (order + 1) p q)))
               / nrm ^ nat (p + q)
        else 0)"
    "\<And>p q. coeff (sipB final) p q =
       (if 0 \<le> p \<and> 0 \<le> q \<and> 1 < p + q \<and> p + q < order + 1
        then snd (apply2d CDinv (mu ! nat (termIndex (order + 1) p q), nu ! nat (termIndex (order + 1) p q)))
               / nrm ^ nat (p + q)
        else 0)"
    "\<And>p q. coeff (sipAp final) p q =
       (if 0 \<le> p \<and> 0 \<le> q \<and> p + q < order + 2
        then tmpA ! nat (termIndex (order + 2) p q) / nrmR ^ nat (p + q) else 0)"
    "\<And>p q. coeff (sipBp final) p q =
       (if 0 \<le> p \<and> 0 \<le> q \<and> p + q < order + 2
        then tmpB ! nat (termIndex (order + 2) p q) / nrmR ^ nat (p + q) else 0)"
proof (rule constructor_stages [OF assms])
  fix s0 h0 s1 s2 s3 mu nu nrm refined CDinv tmpA tmpB nrmR
  assume st: "constructorSetup h ms lin order box grid = Inr (s0, h0)"
    and o: "2 \<le> order"
    and z: "sipA s0 = zeroMatrix (order + 1) (order + 1)" "sipB s0 = zeroMatrix (order + 1) (order + 1)"
      "sipAp s0 = zeroMatrix (order + 2) (order + 2)" "sipBp s0 = zeroMatrix (order + 2) (order + 2)"
    and fw: "calculateForwardMatrices ext (s0, h0) = Inr (s1, hf)"
    and fs: "forwardSolve ext lin ms (order + 1) = Inr (mu, nu, nrm)"
    and rl: "refineLinear lin mu nu nrm (order + 1) = Inr (refined, CDinv)"
    and lp: "forLoop 1 (int (length mu)) (forwardSipTerm mu nu CDinv nrm (order + 1)) (sipA s0, sipB s0)
       = Inr (sipA s1, sipB s1)"
    and s1: "s1 = s0\<lparr>linearWcs := linearWcs s1, sipA := sipA s1, sipB := sipB s1\<rparr>"
    and b1: "buildNewWcs (s1, hf) = Inr (s2, hf)"
    and s2: "s2 = s1\<lparr>newWcs := newWcs s2\<rparr>"
    and rs: "reverseSolve ext s2 = Inr (tmpA, tmpB, nrmR)"
    and lr: "forLoop 0 (int (length tmpA)) (reverseSipTerm tmpA tmpB nrmR (order + 2)) (sipAp s2, sipBp s2)
       = Inr (sipAp s3, sipBp s3)"
    and s3: "s3 = s2\<lparr>sipAp := sipAp s3, sipBp := sipBp s3\<rparr>"
    and fin: "final = s3\<lparr>newWcs := newWcs final\<rparr>"
  have o1: "0 \<le> order + 1" and o2: "0 \<le> order + 2" using o by simp_all
  note f = forwardSolve_Inr [OF fs o1]
  have p1: "sipAp s1 = sipAp s0" "sipBp s1 = sipBp s0" "reverseSipOrder s1 = reverseSipOrder s0"
    by (subst s1, simp)+
  have p2: "sipA s2 = sipA s1" "sipB s2 = sipB s1" "sipAp s2 = sipAp s1" "sipBp s2 = sipBp s1"
    "reverseSipOrder s2 = reverseSipOrder s1"
    by (subst s2, simp)+
  have p3: "sipA s3 = sipA s2" "sipB s3 = sipB s2"
    by (subst s3, simp)+
  have p4: "sipA final = sipA s3" "sipB final = sipB s3" "sipAp final = sipAp s3" "sipBp final = sipBp s3"
    by (subst fin, simp)+
  have r2: "reverseSipOrder s2 = order + 2"
    using st by (auto simp: p2 p1 constructorSetup_cases split: if_splits)
  have "0 \<le> reverseSipOrder s2" using r2 o by simp
  note r = reverseSolve_Inr [OF rs this, unfolded r2]
  have k1: "1 \<le> int (length mu)" using f(3) nTermsOf_ge [OF o1] o by simp
  have "\<exists>A B. forLoop 1 (int (length mu)) (forwardSipTerm mu nu CDinv nrm (order + 1))
        (zeroMatrix (order + 1) (order + 1), zeroMatrix (order + 1) (order + 1)) = Inr (A, B)
      \<and> rows A = order + 1 \<and> cols A = order + 1 \<and> rows B = order + 1 \<and> cols B = order + 1
      \<and> coeff A = (\<lambda>p q. if 0 \<le> p \<and> 0 \<le> q \<and> 1 < p + q \<and> p + q < order + 1
            \<and> termIndex (order + 1) p q < int (length mu)
          then fst (apply2d CDinv (mu ! nat (termIndex (order + 1) p q), nu ! nat (termIndex (order + 1) p q)))
                 / pow nrm (p + q)
          else coeff (zeroMatrix (order + 1) (order + 1)) p q)
      \<and> coeff B = (\<lambda>p q. if 0 \<le> p \<and> 0 \<le> q \<and> 1 < p + q \<and> p + q < order + 1
            \<and> termIndex (order + 1) p q < int (length mu)
          then snd (apply2d CDinv (mu ! nat (termIndex (order + 1) p q), nu ! nat (termIndex (order + 1) p q)))
                 / pow nrm (p + q)
          else coeff (zeroMatrix (order + 1) (order + 1)) p q)"
    by (rule forward_loop [OF o1 f(3) f(4) _ _ _ _ k1]) (simp_all add: zeroMatrix_def f(3))
  then have cA: "coeff (sipA s1) = (\<lambda>p q. if 0 \<le> p \<and> 0 \<le> q \<and> 1 < p + q \<and> p + q < order + 1
            \<and> termIndex (order + 1) p q < int (length mu)
          then fst (apply2d CDinv (mu ! nat (termIndex (order + 1) p q), nu ! nat (termIndex (order + 1) p q)))
                 / pow nrm (p + q)
          else coeff (zeroMatrix (order + 1) (order + 1)) p q)"
    and cB: "coeff (sipB s1) = (\<lambda>p q. if 0 \<le> p \<and> 0 \<le> q \<and> 1 < p + q \<and> p + q < order + 1
            \<and> termIndex (order + 1) p q < int (length mu)
          then snd (apply2d CDinv (mu ! nat (termIndex (order + 1) p q), nu ! nat (termIndex (order + 1) p q)))
                 / pow nrm (p + q)
          else coeff (zeroMatrix (order + 1) (order + 1)) p q)"
    using lp unfolding z by auto
  have "\<exists>A B. forLoop 0 (int (length tmpA)) (reverseSipTerm tmpA tmpB nrmR (order + 2))
        (zeroMatrix (order + 2) (order + 2), zeroMatrix (order + 2) (order + 2)) = Inr (A, B)
      \<and> rows A = order + 2 \<and> cols A = order + 2 \<and> rows B = order + 2 \<and> cols B = order + 2
      \<and> coeff A = (\<lambda>p q. if 0 \<le> p \<and> 0 \<le> q \<and> p + q < order + 2
            \<and> termIndex (order + 2) p q < int (length tmpA)
          then tmpA ! nat (termIndex (order + 2) p q) / pow nrmR (p + q)
          else coeff (zeroMatrix (order + 2) (order + 2)) p q)
      \<and> coeff B = (\<lambda>p q. if 0 \<le> p \<and> 0 \<le> q \<and> p + q < order + 2
            \<and> termIndex (order + 2) p q < int (length tmpA)
          then tmpB ! nat (termIndex (order + 2) p q) / pow nrmR (p + q)
          else coeff (zeroMatrix (order + 2) (order + 2)) p q)"
    by (rule reverse_loop [OF o2 r(1) r(2)]) (simp_all add: zeroMatrix_def r(1) nTermsOf_nonneg [OF o2])
  then have cAp: "coeff (sipAp s3) = (\<lambda>p q. if 0 \<le> p \<and> 0 \<le> q \<and> p + q < order + 2
            \<and> termIndex (order + 2) p q < int (length tmpA)
          then tmpA ! nat (termIndex (order + 2) p q) / pow nrmR (p + q)
          else coeff (zeroMatrix (order + 2) (order + 2)) p q)"
    and cBp: "coeff (sipBp s3) = (\<lambda>p q. if 0 \<le> p \<and> 0 \<le> q \<and> p + q < order + 2
            \<and> termIndex (order + 2) p q < int (length tmpA)
          then tmpB ! nat (termIndex (order + 2) p q) / pow nrmR (p + q)
          else coeff (zeroMatrix (order + 2) (order + 2)) p q)"
    using lr unfolding p2 p1 z by auto
  have in1: "termIndex (order + 1) p q < int (length mu)" if "0 \<le> p" "0 \<le> q" "p + q < order + 1" for p q
    using index_of_termIndex(3) [OF that] f(3) by simp
  have in2: "termIndex (order + 2) p q < int (length tmpA)" if "0 \<le> p" "0 \<le> q" "p + q < order + 2" for p q
    using index_of_termIndex(3) [OF that] r(1) by simp
  show ?thesis
  proof (rule that [OF st fw b1 fs rl rs f(3) f(4) f(2) r(1) r(2)])
    fix p q
    show "coeff (sipA final) p q =
       (if 0 \<le> p \<and> 0 \<le> q \<and> 1 < p + q \<and> p + q < order + 1
        then fst (apply2d CDinv (mu ! nat (termIndex (order + 1) p q), nu ! nat (termIndex (order + 1) p q)))
               / nrm ^ nat (p + q)
        else 0)"
      using in1 [of p q] by (simp add: p4 p3 p2 cA pow_nat zeroMatrix_def)
    show "coeff (sipB final) p q =
       (if 0 \<le> p \<and> 0 \<le> q \<and> 1 < p + q \<and> p + q < order + 1
        then snd (apply2d CDinv (mu ! nat (termIndex (order + 1) p q), nu ! nat (termIndex (order + 1) p q)))
               / nrm ^ nat (p + q)
        else 0)"
      using in1 [of p q] by (simp add: p4 p3 p2 cB pow_nat zeroMatrix_def)
    show "coeff (sipAp final) p q =
       (if 0 \<le> p \<and> 0 \<le> q \<and> p + q < order + 2
        then tmpA ! nat (termIndex (order + 2) p q) / nrmR ^ nat (p + q) else 0)"
      using in2 [of p q] by (simp add: p4 cAp pow_nat zeroMatrix_def)
    show "coeff (sipBp final) p q =
       (if 0 \<le> p \<and> 0 \<le> q \<and> p + q < order + 2
        then tmpB ! nat (termIndex (order + 2) p q) / nrmR ^ nat (p + q) else 0)"
      using in2 [of p q] by (simp add: p4 cBp pow_nat zeroMatrix_def)
  qed
qed

lemma nTermsOf_gt:
  assumes "2 \<le> n"
  shows "n < nTermsOf n"
proof -
  define X where "X = n * (n + 1)"
  have "2 * (n + 1) \<le> X" unfolding X_def using assms by (intro mult_right_mono) simp_all
  then have "n < X div 2" by presburger
  then show ?thesis by (simp add: nTermsOf_def X_def)
qed

lemma example_reverse_values:
  assumes "calculateForwardMatrices exampleCollaborators (s0, h0) = Inr (s1, hf)"
    and "(s0, h0) = exampleSetup" and "buildNewWcs (s1, hf) = Inr (s2, hf)"
  shows "reverseSolve exampleCollaborators s2
     = Inr (map (\<lambda>k. Finite (- 1 - real k)) [0 ..< 10], map (\<lambda>k. Finite 0) [0 ..< 10], Finite 7)"
proof -
  have e: "s0 = fst exampleSetup" "h0 = snd exampleSetup" using assms(2) by (metis fst_conv snd_conv)+
  from assms(1) obtain A B where s1: "s1 = s0\<lparr>linearWcs := 2, sipA := A, sipB := B\<rparr>"
    and hf: "hf = h0\<lparr>cells := (cells h0)(2 := Some
        \<lparr>skyOrigin = (0, 0), pixelOrigin = (1, - 3),
              cdMatrix = \<lparr>c00 = 1 / 2, c01 = 1 / 2, c10 = 3 / 2, c11 = 1 / 2\<rparr>\<rparr>), nextFree := 3\<rparr>"
    unfolding calculateForwardMatrices_Inr e
    by (auto simp: example_setup example_forwardSolve example_refineLinear)
  define tw where "tw = TanWcs (0, 0) (1, - 3) \<lparr>c00 = 1 / 2, c01 = 1 / 2, c10 = 3 / 2, c11 = 1 / 2\<rparr>
      (sipA s1) (sipB s1) (sipAp s1) (sipBp s1)"
  from assms(3) have s2: "s2 = s1\<lparr>newWcs := Some tw\<rparr>"
    unfolding buildNewWcs_Inr tw_def by (auto simp: s1 hf)
  have "newWcs s2 = Some tw" "pixelOrigin tw = (1, - 3)" "bbox s2 = exampleBox" "ngrid s2 = 2"
    "reverseSipOrder s2 = 4"
    by (simp_all add: s2 s1 e example_setup tw_def TanWcs_def)
  then show ?thesis by (rule example_reverseSolve)
qed

text \<open>
  Claim C7. In a constructor that returns, the forward fit has solved for \<open>mu\<close>, \<open>nu\<close> with
  the scale \<open>nrm\<close> and the inverse \<open>CDinv\<close> of the refined linear map, and the reverse fit
  for \<open>tmpA\<close>, \<open>tmpB\<close> with the scale \<open>nrmR\<close>. For each index \<open>i\<close> of the forward order, with
  \<open>(p, q) = indexToPQ i\<close>: when \<open>1 < p + q\<close> (and \<open>p + q\<close> is below the forward order, as it
  always is) the entry \<open>(p, q)\<close> of the forward matrices is \<open>CDinv * (mu[i], nu[i])\<close> divided
  by \<open>nrm ^ (p + q)\<close>; when \<open>p + q\<close> is 0 or 1 nothing is written and the entry is zero. For
  each index \<open>j\<close> of the reverse order, the terms of degree 0 and 1 among them, the entry
  \<open>(p, q)\<close> of the reverse matrices is the solved coefficient divided by \<open>nrmR ^ (p + q)\<close>.
\<close>

theorem coefficients_written:
  assumes "CreateWcsWithSip ext h ms lin order box grid = Inr (final, hf)"
  shows "\<exists>s0 h0 s1 s2 mu nu nrm refined CDinv tmpA tmpB nrmR.
      constructorSetup h ms lin order box grid = Inr (s0, h0)
    \<and> calculateForwardMatrices ext (s0, h0) = Inr (s1, hf)
    \<and> buildNewWcs (s1, hf) = Inr (s2, hf)
    \<and> forwardSolve ext lin ms (order + 1) = Inr (mu, nu, nrm)
    \<and> refineLinear lin mu nu nrm (order + 1) = Inr (refined, CDinv)
    \<and> reverseSolve ext s2 = Inr (tmpA, tmpB, nrmR)
    \<and> int (length mu) = nTermsOf (order + 1) \<and> length nu = length mu
    \<and> int (length tmpA) = nTermsOf (order + 2) \<and> length tmpB = length tmpA
    \<and> (\<forall>i. 0 \<le> i \<and> i < nTermsOf (order + 1) \<longrightarrow>
          (let p = fst (indexToPQ i (order + 1)); q = snd (indexToPQ i (order + 1))
           in p + q < order + 1
            \<and> coeff (sipA final) p q =
                (if 1 < p + q then fst (apply2d CDinv (mu ! nat i, nu ! nat i)) / nrm ^ nat (p + q) else 0)
            \<and> coeff (sipB final) p q =
                (if 1 < p + q then snd (apply2d CDinv (mu ! nat i, nu ! nat i)) / nrm ^ nat (p + q) else 0)))
    \<and> (\<forall>j. 0 \<le> j \<and> j < nTermsOf (order + 2) \<longrightarrow>
          (let p = fst (indexToPQ j (order + 2)); q = snd (indexToPQ j (order + 2))
           in coeff (sipAp final) p q = tmpA ! nat j / nrmR ^ nat (p + q)
            \<and> coeff (sipBp final) p q = tmpB ! nat j / nrmR ^ nat (p + q)))
    \<and> indexToPQ 0 (order + 2) = (0, 0) \<and> indexToPQ 1 (order + 2) = (0, 1)
    \<and> indexToPQ (order + 2) (order + 2) = (1, 0) \<and> order + 2 < nTermsOf (order + 2)"
proof (rule constructor_coefficients [OF assms])
  fix s0 h0 s1 s2 mu nu nrm refined CDinv tmpA tmpB nrmR
  assume st: "constructorSetup h ms lin order box grid = Inr (s0, h0)"
    and fw: "calculateForwardMatrices ext (s0, h0) = Inr (s1, hf)"
    and b1: "buildNewWcs (s1, hf) = Inr (s2, hf)"
    and fs: "forwardSolve ext lin ms (order + 1) = Inr (mu, nu, nrm)"
    and rl: "refineLinear lin mu nu nrm (order + 1) = Inr (refined, CDinv)"
    and rs: "reverseSolve ext s2 = Inr (tmpA, tmpB, nrmR)"
    and len1: "int (length mu) = nTermsOf (order + 1)" "length nu = length mu" "nrm \<noteq> 0"
    and len2: "int (length tmpA) = nTermsOf (order + 2)" "length tmpB = length tmpA"
    and cA: "\<And>p q. coeff (sipA final) p q =
       (if 0 \<le> p \<and> 0 \<le> q \<and> 1 < p + q \<and> p + q < order + 1
        then fst (apply2d CDinv (mu ! nat (termIndex (order + 1) p q), nu ! nat (termIndex (order + 1) p q)))
               / nrm ^ nat (p + q)
        else 0)"
    and cB: "\<And>p q. coeff (sipB final) p q =
       (if 0 \<le> p \<and> 0 \<le> q \<and> 1 < p + q \<and> p + q < order + 1
        then snd (apply2d CDinv (mu ! nat (termIndex (order + 1) p q), nu ! nat (termIndex (order + 1) p q)))
               / nrm ^ nat (p + q)
        else 0)"
    and cAp: "\<And>p q. coeff (sipAp final) p q =
       (if 0 \<le> p \<and> 0 \<le> q \<and> p + q < order + 2
        then tmpA ! nat (termIndex (order + 2) p q) / nrmR ^ nat (p + q) else 0)"
    and cBp: "\<And>p q. coeff (sipBp final) p q =
       (if 0 \<le> p \<and> 0 \<le> q \<and> p + q < order + 2
        then tmpB ! nat (termIndex (order + 2) p q) / nrmR ^ nat (p + q) else 0)"
  from st have o: "2 \<le> order" by (simp add: constructorSetup_cases split: if_splits)
  then have o1: "0 \<le> order + 1" and o2: "0 \<le> order + 2" by simp_all
  have fwd: "\<forall>i. 0 \<le> i \<and> i < nTermsOf (order + 1) \<longrightarrow>
          (let p = fst (indexToPQ i (order + 1)); q = snd (indexToPQ i (order + 1))
           in p + q < order + 1
            \<and> coeff (sipA final) p q =
                (if 1 < p + q then fst (apply2d CDinv (mu ! nat i, nu ! nat i)) / nrm ^ nat (p + q) else 0)
            \<and> coeff (sipB final) p q =
                (if 1 < p + q then snd (apply2d CDinv (mu ! nat i, nu ! nat i)) / nrm ^ nat (p + q) else 0))"
  proof (intro allI impI)
    fix i
    assume "0 \<le> i \<and> i < nTermsOf (order + 1)"
    then have i: "0 \<le> i" "i < nTermsOf (order + 1)" by simp_all
    note t = indexToPQ_nonneg [OF o1 i]
    note x = termIndex_of_index [OF o1 i]
    show "let p = fst (indexToPQ i (order + 1)); q = snd (indexToPQ i (order + 1))
           in p + q < order + 1
            \<and> coeff (sipA final) p q =
                (if 1 < p + q then fst (apply2d CDinv (mu ! nat i, nu ! nat i)) / nrm ^ nat (p + q) else 0)
            \<and> coeff (sipB final) p q =
                (if 1 < p + q then snd (apply2d CDinv (mu ! nat i, nu ! nat i)) / nrm ^ nat (p + q) else 0)"
      unfolding Let_def cA cB using t by (simp add: x)
  qed
  have rev: "\<forall>j. 0 \<le> j \<and> j < nTermsOf (order + 2) \<longrightarrow>
          (let p = fst (indexToPQ j (order + 2)); q = snd (indexToPQ j (order + 2))
           in coeff (sipAp final) p q = tmpA ! nat j / nrmR ^ nat (p + q)
            \<and> coeff (sipBp final) p q = tmpB ! nat j / nrmR ^ nat (p + q))"
  proof (intro allI impI)
    fix j
    assume "0 \<le> j \<and> j < nTermsOf (order + 2)"
    then have j: "0 \<le> j" "j < nTermsOf (order + 2)" by simp_all
    note t = indexToPQ_nonneg [OF o2 j]
    note x = termIndex_of_index [OF o2 j]
    show "let p = fst (indexToPQ j (order + 2)); q = snd (indexToPQ j (order + 2))
           in coeff (sipAp final) p q = tmpA ! nat j / nrmR ^ nat (p + q)
            \<and> coeff (sipBp final) p q = tmpB ! nat j / nrmR ^ nat (p + q)"
      unfolding Let_def cAp cBp using t by (simp add: x)
  qed
  have fixed: "indexToPQ 0 (order + 2) = (0, 0)" "indexToPQ 1 (order + 2) = (0, 1)"
    "indexToPQ (order + 2) (order + 2) = (1, 0)"
    using indexToPQ_fixed [of "order + 2"] o by simp_all
  have inside: "order + 2 < nTermsOf (order + 2)" using o by (intro nTermsOf_gt) simp
  show ?thesis
    by (rule exI [of _ s0], rule exI [of _ h0], rule exI [of _ s1], rule exI [of _ s2],
        rule exI [of _ mu], rule exI [of _ nu], rule exI [of _ nrm], rule exI [of _ refined],
        rule exI [of _ CDinv], rule exI [of _ tmpA], rule exI [of _ tmpB],
        rule exI [of _ nrmR], intro conjI)
      (fact st fw b1 fs rl rs len1(1,2) len2(1,2) fwd rev fixed inside)+
qed

text \<open>
  The example at order 2: the forward matrices hold the three terms of degree 2 and
  nothing at degree 0 and 1; the reverse matrices hold every term from degree 0 on.
\<close>

theorem coefficients_written_witness:
  "\<exists>final hf. CreateWcsWithSip exampleCollaborators exampleStore exampleMatches exampleWcs 2 exampleBox 2
       = Inr (final, hf)
     \<and> coeff (sipA final) 0 2 = 1 / 4 \<and> coeff (sipA final) 1 1 = 3 / 4 \<and> coeff (sipA final) 2 0 = 1
     \<and> coeff (sipB final) 0 2 = 1 / 4 \<and> coeff (sipB final) 1 1 = - 1 / 4 \<and> coeff (sipB final) 2 0 = - 1 / 2
     \<and> coeff (sipA final) 0 0 = 0 \<and> coeff (sipA final) 0 1 = 0 \<and> coeff (sipA final) 1 0 = 0
     \<and> coeff (sipAp final) 0 0 = Finite (- 1) \<and> coeff (sipAp final) 0 1 = Finite (- 2 / 7)
     \<and> coeff (sipAp final) 1 0 = Finite (- 5 / 7) \<and> coeff (sipAp final) 1 1 = Finite (- 6 / 49)
     \<and> coeff (sipBp final) 1 1 = Finite 0"
proof -
  from example_constructor obtain final hf where
    run: "CreateWcsWithSip exampleCollaborators exampleStore exampleMatches exampleWcs 2 exampleBox 2
       = Inr (final, hf)" by blast
  from coefficients_written [OF run]
  obtain s0 h0 s1 s2 mu nu nrm refined CDinv tmpA tmpB nrmR where
    st: "constructorSetup exampleStore exampleMatches exampleWcs 2 exampleBox 2 = Inr (s0, h0)"
    and fw: "calculateForwardMatrices exampleCollaborators (s0, h0) = Inr (s1, hf)"
    and b1: "buildNewWcs (s1, hf) = Inr (s2, hf)"
    and fs: "forwardSolve exampleCollaborators exampleWcs exampleMatches (2 + 1) = Inr (mu, nu, nrm)"
    and rl: "refineLinear exampleWcs mu nu nrm (2 + 1) = Inr (refined, CDinv)"
    and rs: "reverseSolve exampleCollaborators s2 = Inr (tmpA, tmpB, nrmR)"
    and fwd: "\<forall>i. 0 \<le> i \<and> i < nTermsOf (2 + 1) \<longrightarrow>
          (let p = fst (indexToPQ i (2 + 1)); q = snd (indexToPQ i (2 + 1))
           in p + q < 2 + 1
            \<and> coeff (sipA final) p q =
                (if 1 < p + q then fst (apply2d CDinv (mu ! nat i, nu ! nat i)) / nrm ^ nat (p + q) else 0)
            \<and> coeff (sipB final) p q =
                (if 1 < p + q then snd (apply2d CDinv (mu ! nat i, nu ! nat i)) / nrm ^ nat (p + q) else 0))"
    and rev: "\<forall>j. 0 \<le> j \<and> j < nTermsOf (2 + 2) \<longrightarrow>
          (let p = fst (indexToPQ j (2 + 2)); q = snd (indexToPQ j (2 + 2))
           in coeff (sipAp final) p q = tmpA ! nat j / nrmR ^ nat (p + q)
            \<and> coeff (sipBp final) p q = tmpB ! nat j / nrmR ^ nat (p + q))"
    by (elim exE conjE) (rule that)
  have e: "(s0, h0) = exampleSetup" using st by (simp add: example_setup(1))
  have m: "mu = map (\<lambda>k. 1) [0 ..< 6]" "nu = map real [0 ..< 6]" "nrm = 2"
    using fs by (simp_all add: example_forwardSolve)
  have c: "CDinv = \<lparr>c00 = - 1, c01 = 1, c10 = 3, c11 = - 1\<rparr>"
    using rl by (simp add: m example_refineLinear)
  have t: "tmpA = map (\<lambda>k. Finite (- 1 - real k)) [0 ..< 10]" "tmpB = map (\<lambda>k. Finite 0) [0 ..< 10]"
    "nrmR = Finite 7"
    using rs by (simp_all add: example_reverse_values [OF fw e b1])
  have pq3: "indexToPQ 0 3 = (0, 0)" "indexToPQ 1 3 = (0, 1)" "indexToPQ 2 3 = (0, 2)"
    "indexToPQ 3 3 = (1, 0)" "indexToPQ 4 3 = (1, 1)" "indexToPQ 5 3 = (2, 0)"
    by (simp_all add: indexToPQ_def indexToPQ_loop.simps)
  have pq4: "indexToPQ 0 4 = (0, 0)" "indexToPQ 1 4 = (0, 1)" "indexToPQ 4 4 = (1, 0)"
    "indexToPQ 5 4 = (1, 1)"
    by (simp_all add: indexToPQ_def indexToPQ_loop.simps)
  have a: "coeff (sipA final) 0 2 = 1 / 4 \<and> coeff (sipB final) 0 2 = 1 / 4"
    "coeff (sipA final) 1 1 = 3 / 4 \<and> coeff (sipB final) 1 1 = - 1 / 4"
    "coeff (sipA final) 2 0 = 1 \<and> coeff (sipB final) 2 0 = - 1 / 2"
    "coeff (sipA final) 0 0 = 0" "coeff (sipA final) 0 1 = 0" "coeff (sipA final) 1 0 = 0"
    using fwd [rule_format, of 2] fwd [rule_format, of 4] fwd [rule_format, of 5]
      fwd [rule_format, of 0] fwd [rule_format, of 1] fwd [rule_format, of 3]
    by (simp_all add: nTermsOf_def pq3 m c apply2d_def)
  have b: "coeff (sipAp final) 0 0 = Finite (- 1)" "coeff (sipAp final) 0 1 = Finite (- 2 / 7)"
    "coeff (sipAp final) 1 0 = Finite (- 5 / 7)" "coeff (sipAp final) 1 1 = Finite (- 6 / 49)"
    "coeff (sipBp final) 1 1 = Finite 0"
    using rev [rule_format, of 0] rev [rule_format, of 1] rev [rule_format, of 4] rev [rule_format, of 5]
    by (simp_all add: nTermsOf_def pq4 t)
  show ?thesis using run a b by blast
qed

lemma coefficientsTriangular_frame:
  assumes "sipOrder t = sipOrder s" "reverseSipOrder t = reverseSipOrder s"
    "sipA t = sipA s" "sipB t = sipB s" "sipAp t = sipAp s" "sipBp t = sipBp s"
  shows "coefficientsTriangular t = coefficientsTriangular s"
  by (simp add: coefficientsTriangular_def assms)

text \<open>
  Claim C8. In a constructor that returns, the four coefficient matrices start as zero
  matrices; no step of the forward or of the reverse loop writes an entry \<open>(p, q)\<close> with
  \<open>p + q\<close> at or above the order of its matrices; so after any number of steps of either
  loop, and in the object after each stage of the constructor (the checks, the forward
  fit, the first composite transform, the reverse fit, the final composite transform),
  every entry with \<open>p + q\<close> at or above the order of its matrix is zero.
\<close>

theorem coefficients_stay_triangular:
  assumes "CreateWcsWithSip ext h ms lin order box grid = Inr (final, hf)"
  shows "\<exists>s0 h0 s1 s2 s3 mu nu nrm refined CDinv tmpA tmpB nrmR.
      constructorSetup h ms lin order box grid = Inr (s0, h0)
    \<and> Zero (order + 1) (order + 1) = Inr (sipA s0) \<and> Zero (order + 1) (order + 1) = Inr (sipB s0)
    \<and> Zero (order + 2) (order + 2) = Inr (sipAp s0) \<and> Zero (order + 2) (order + 2) = Inr (sipBp s0)
    \<and> (\<forall>p q. coeff (sipA s0) p q = 0 \<and> coeff (sipB s0) p q = 0
            \<and> coeff (sipAp s0) p q = 0 \<and> coeff (sipBp s0) p q = 0)
    \<and> sipOrder final = order + 1 \<and> reverseSipOrder final = order + 2
    \<and> forwardSolve ext lin ms (order + 1) = Inr (mu, nu, nrm)
    \<and> refineLinear lin mu nu nrm (order + 1) = Inr (refined, CDinv)
    \<and> calculateForwardMatrices ext (s0, h0) = Inr (s1, hf)
    \<and> buildNewWcs (s1, hf) = Inr (s2, hf)
    \<and> reverseSolve ext s2 = Inr (tmpA, tmpB, nrmR)
    \<and> calculateReverseMatrices ext s2 = Inr s3
    \<and> buildNewWcs (s3, hf) = Inr (final, hf)
    \<and> (\<forall>j A B A' B' p q.
          forwardSipTerm mu nu CDinv nrm (order + 1) j (A, B) = Inr (A', B') \<and> order + 1 \<le> p + q
          \<longrightarrow> coeff A' p q = coeff A p q \<and> coeff B' p q = coeff B p q)
    \<and> (\<forall>j A B A' B' p q.
          reverseSipTerm tmpA tmpB nrmR (order + 2) j (A, B) = Inr (A', B') \<and> order + 2 \<le> p + q
          \<longrightarrow> coeff A' p q = coeff A p q \<and> coeff B' p q = coeff B p q)
    \<and> (\<forall>k A B.
          forLoop 1 k (forwardSipTerm mu nu CDinv nrm (order + 1)) (sipA s0, sipB s0) = Inr (A, B)
          \<longrightarrow> offTriangleZero (order + 1) A \<and> offTriangleZero (order + 1) B)
    \<and> (\<forall>k A B.
          forLoop 0 k (reverseSipTerm tmpA tmpB nrmR (order + 2)) (sipAp s2, sipBp s2) = Inr (A, B)
          \<longrightarrow> offTriangleZero (order + 2) A \<and> offTriangleZero (order + 2) B)
    \<and> coefficientsTriangular s0 \<and> coefficientsTriangular s1 \<and> coefficientsTriangular s2
    \<and> coefficientsTriangular s3 \<and> coefficientsTriangular final"
proof (rule constructor_stages [OF assms])
  fix s0 h0 s1 s2 s3 mu nu nrm refined CDinv tmpA tmpB nrmR
  assume st: "constructorSetup h ms lin order box grid = Inr (s0, h0)"
    and o: "2 \<le> order"
    and ord: "sipOrder s0 = order + 1" "reverseSipOrder s0 = order + 2"
    and z: "sipA s0 = zeroMatrix (order + 1) (order + 1)" "sipB s0 = zeroMatrix (order + 1) (order + 1)"
      "sipAp s0 = zeroMatrix (order + 2) (order + 2)" "sipBp s0 = zeroMatrix (order + 2) (order + 2)"
    and fw: "calculateForwardMatrices ext (s0, h0) = Inr (s1, hf)"
    and fs: "forwardSolve ext lin ms (order + 1) = Inr (mu, nu, nrm)"
    and rl: "refineLinear lin mu nu nrm (order + 1) = Inr (refined, CDinv)"
    and lp: "forLoop 1 (int (length mu)) (forwardSipTerm mu nu CDinv nrm (order + 1)) (sipA s0, sipB s0)
       = Inr (sipA s1, sipB s1)"
    and s1: "s1 = s0\<lparr>linearWcs := linearWcs s1, sipA := sipA s1, sipB := sipB s1\<rparr>"
    and b1: "buildNewWcs (s1, hf) = Inr (s2, hf)"
    and s2: "s2 = s1\<lparr>newWcs := newWcs s2\<rparr>"
    and rv: "calculateReverseMatrices ext s2 = Inr s3"
    and rs: "reverseSolve ext s2 = Inr (tmpA, tmpB, nrmR)"
    and lr: "forLoop 0 (int (length tmpA)) (reverseSipTerm tmpA tmpB nrmR (order + 2)) (sipAp s2, sipBp s2)
       = Inr (sipAp s3, sipBp s3)"
    and s3: "s3 = s2\<lparr>sipAp := sipAp s3, sipBp := sipBp s3\<rparr>"
    and b2: "buildNewWcs (s3, hf) = Inr (final, hf)"
    and fin: "final = s3\<lparr>newWcs := newWcs final\<rparr>"
  have o2: "0 \<le> order + 2" using o by simp
  have p1: "sipAp s1 = sipAp s0" "sipBp s1 = sipBp s0" "sipOrder s1 = sipOrder s0"
    "reverseSipOrder s1 = reverseSipOrder s0"
    by (subst s1, simp)+
  have p2: "sipA s2 = sipA s1" "sipB s2 = sipB s1" "sipAp s2 = sipAp s1" "sipBp s2 = sipBp s1"
    "sipOrder s2 = sipOrder s1" "reverseSipOrder s2 = reverseSipOrder s1"
    by (subst s2, simp)+
  have p3: "sipA s3 = sipA s2" "sipB s3 = sipB s2" "sipOrder s3 = sipOrder s2"
    "reverseSipOrder s3 = reverseSipOrder s2"
    by (subst s3, simp)+
  have p4: "sipA final = sipA s3" "sipB final = sipB s3" "sipAp final = sipAp s3" "sipBp final = sipBp s3"
    "sipOrder final = sipOrder s3" "reverseSipOrder final = reverseSipOrder s3"
    by (subst fin, simp)+
  have ords: "sipOrder final = order + 1" "reverseSipOrder final = order + 2"
    by (simp_all add: p4 p3 p2 p1 ord)
  have "0 \<le> reverseSipOrder s2" by (simp add: p2 p1 ord o2)
  from reverseSolve_Inr(1) [OF rs this] have len: "int (length tmpA) = nTermsOf (order + 2)"
    by (simp add: p2 p1 ord)
  have fstep: "\<forall>j A B A' B' p q.
          forwardSipTerm mu nu CDinv nrm (order + 1) j (A, B) = Inr (A', B') \<and> order + 1 \<le> p + q
          \<longrightarrow> coeff A' p q = coeff A p q \<and> coeff B' p q = coeff B p q"
    by (intro allI impI conjI; elim conjE) (erule (1) forwardSipTerm_off_triangle)+
  have rstep: "\<forall>j A B A' B' p q.
          reverseSipTerm tmpA tmpB nrmR (order + 2) j (A, B) = Inr (A', B') \<and> order + 2 \<le> p + q
          \<longrightarrow> coeff A' p q = coeff A p q \<and> coeff B' p q = coeff B p q"
    by (intro allI impI conjI; elim conjE) (erule (1) reverseSipTerm_off_triangle [OF _ _ o2 len])+
  have zz: "Zero (order + 1) (order + 1) = Inr (sipA s0)" "Zero (order + 1) (order + 1) = Inr (sipB s0)"
    "Zero (order + 2) (order + 2) = Inr (sipAp s0)" "Zero (order + 2) (order + 2) = Inr (sipBp s0)"
    using o by (simp_all add: z Zero_Inr)
  have zc: "\<forall>p q. coeff (sipA s0) p q = 0 \<and> coeff (sipB s0) p q = 0
            \<and> coeff (sipAp s0) p q = 0 \<and> coeff (sipBp s0) p q = 0"
    by (simp add: z zeroMatrix_def)
  have z0: "offTriangleZero (order + 1) (sipA s0)" "offTriangleZero (order + 1) (sipB s0)"
    "offTriangleZero (order + 2) (sipAp s0)" "offTriangleZero (order + 2) (sipBp s0)"
    by (simp_all add: z offTriangleZero_Zero)
  have floop: "\<forall>k A B.
          forLoop 1 k (forwardSipTerm mu nu CDinv nrm (order + 1)) (sipA s0, sipB s0) = Inr (A, B)
          \<longrightarrow> offTriangleZero (order + 1) A \<and> offTriangleZero (order + 1) B"
    by (intro allI impI) (erule forward_loop_triangular [OF _ z0(1,2)])
  have z2: "offTriangleZero (order + 2) (sipAp s2)" "offTriangleZero (order + 2) (sipBp s2)"
    using z0(3,4) by (simp_all add: p2 p1)
  have rloop: "\<forall>k A B.
          forLoop 0 k (reverseSipTerm tmpA tmpB nrmR (order + 2)) (sipAp s2, sipBp s2) = Inr (A, B)
          \<longrightarrow> offTriangleZero (order + 2) A \<and> offTriangleZero (order + 2) B"
    by (intro allI impI) (erule reverse_loop_triangular [OF _ z2 o2 len])
  have t0: "coefficientsTriangular s0" using z0 by (simp add: coefficientsTriangular_def ord)
  have t1: "coefficientsTriangular s1"
    using floop [rule_format, OF lp] z0(3,4) by (simp add: coefficientsTriangular_def p1 ord)
  have t2: "coefficientsTriangular s2"
    using t1 by (simp add: coefficientsTriangular_frame [of s2 s1] p2)
  have t3: "coefficientsTriangular s3"
    using rloop [rule_format, OF lr] t2
    by (simp add: coefficientsTriangular_def p3 p2 p1 ord)
  have t4: "coefficientsTriangular final"
    using t3 by (simp add: coefficientsTriangular_frame [of final s3] p4)
  show ?thesis
    by (rule exI [of _ s0], rule exI [of _ h0], rule exI [of _ s1], rule exI [of _ s2],
        rule exI [of _ s3], rule exI [of _ mu], rule exI [of _ nu], rule exI [of _ nrm],
        rule exI [of _ refined], rule exI [of _ CDinv], rule exI [of _ tmpA],
        rule exI [of _ tmpB], rule exI [of _ nrmR], intro conjI)
      (fact st zz zc ords fs rl fw b1 rs rv b2 fstep rstep floop rloop t0 t1 t2 t3 t4)+
qed

text \<open>
  The example at order 2: entries of the forward matrices with \<open>p + q \<ge> 3\<close> and of the
  reverse matrices with \<open>p + q \<ge> 4\<close> are zero, next to entries of the triangles that are
  not.
\<close>

theorem coefficients_stay_triangular_witness:
  "\<exists>final hf. CreateWcsWithSip exampleCollaborators exampleStore exampleMatches exampleWcs 2 exampleBox 2
       = Inr (final, hf)
     \<and> coeff (sipA final) 2 1 = 0 \<and> coeff (sipA final) 1 2 = 0 \<and> coeff (sipB final) 2 2 = 0
     \<and> coeff (sipAp final) 3 1 = 0 \<and> coeff (sipAp final) 2 2 = 0
     \<and> coeff (sipBp final) 3 3 = 0
     \<and> sipOrder final = 3 \<and> reverseSipOrder final = 4"
proof -
  from example_constructor obtain final hf where
    run: "CreateWcsWithSip exampleCollaborators exampleStore exampleMatches exampleWcs 2 exampleBox 2
       = Inr (final, hf)" by blast
  from coefficients_stay_triangular [OF run]
  have "coefficientsTriangular final \<and> sipOrder final = 2 + 1 \<and> reverseSipOrder final = 2 + 2"
    by (elim exE conjE) (intro conjI)
  then have t: "coefficientsTriangular final"
    and o: "sipOrder final = 2 + 1" "reverseSipOrder final = 2 + 2"
    by simp_all
  have a: "coeff (sipA final) p q = 0" "coeff (sipB final) p q = 0" if "3 \<le> p + q" for p q
    using t that by (simp_all add: coefficientsTriangular_def offTriangleZero_def o)
  have b: "coeff (sipAp final) p q = 0" "coeff (sipBp final) p q = 0" if "4 \<le> p + q" for p q
    using t that by (simp_all add: coefficientsTriangular_def offTriangleZero_def o)
  show ?thesis
    using run a(1) [of 2 1] a(1) [of 1 2] a(2) [of 2 2] b(1) [of 3 1] b(1) [of 2 2] b(2) [of 3 3] o
    by (intro exI [of _ final] exI [of _ hf]) simp
qed

section \<open>The grid resolution\<close>










subsection \<open>The example at other grid resolutions\<close>





end
